theory Spec2Isabelle
  imports Complex_Main "HOL-Library.Multiset" "HOL-Library.AList"
begin

section \<open>Values\<close>

text \<open>
  The evaluation server of \<^verbatim>\<open>once_eval/evaluation.py\<close> works on numpy arrays of
  float64. Finite floats are modelled as reals (no rounding, no overflow). A float
  division whose divisor is zero does not raise in numpy: it yields \<^verbatim>\<open>nan\<close> (0/0) or
  an infinity, so the result of a division is an \<open>npfloat\<close>.
\<close>

datatype py_error =
  AssertionError | KeyError | IndexError | ValueError | ZeroDivisionError | NotImplementedError

datatype npfloat = Fin real | PInf | NInf | NaN

definition np_divide :: "real \<Rightarrow> real \<Rightarrow> npfloat" where
  "np_divide a b =
     (if b \<noteq> 0 then Fin (a / b)
      else if a = 0 then NaN
      else if 0 < a then PInf else NInf)"

text \<open>The comparison \<^verbatim>\<open>a > b\<close> of two floats: false as soon as one of them is nan.\<close>

fun np_greater :: "npfloat \<Rightarrow> npfloat \<Rightarrow> bool" where
  "np_greater NaN _ = False"
| "np_greater _ NaN = False"
| "np_greater (Fin a) (Fin b) = (b < a)"
| "np_greater PInf PInf = False"
| "np_greater PInf _ = True"
| "np_greater NInf _ = False"
| "np_greater (Fin a) NInf = True"
| "np_greater (Fin a) PInf = False"

fun np_greater_equal :: "npfloat \<Rightarrow> npfloat \<Rightarrow> bool" where
  "np_greater_equal NaN _ = False"
| "np_greater_equal _ NaN = False"
| "np_greater_equal a b = (a = b \<or> np_greater a b)"

section \<open>Boxes and the 3D IoU kernels\<close>

text \<open>A row of a \<^verbatim>\<open>boxes_3d\<close> array: \<^verbatim>\<open>(x, y, z, w, l, h, rot)\<close>.\<close>

record box =
  box_x :: real
  box_y :: real
  box_z :: real
  box_w :: real
  box_l :: real
  box_h :: real
  box_rot :: real

text \<open>The columns \<^verbatim>\<open>[0, 1, 3, 4, 6]\<close> handed to \<^verbatim>\<open>rotate_iou_gpu_eval\<close>.\<close>

type_synonym bev = "real \<times> real \<times> real \<times> real \<times> real"

definition bev_of :: "box \<Rightarrow> bev" where
  "bev_of b = (box_x b, box_y b, box_w b, box_l b, box_rot b)"

text \<open>
  \<^verbatim>\<open>rotate_iou_gpu_eval\<close> lives in \<^verbatim>\<open>iou_utils\<close>, which is not among the sources. With
  \<^verbatim>\<open>criterion=2\<close> it returns, for every pair of a ground-truth and a predicted box, the
  area of the intersection of the two rotated rectangles; the kernels below take it as
  the parameter \<open>inter2d\<close>, a function of the two bird's-eye-view rows.
\<close>

definition inter_h :: "box \<Rightarrow> box \<Rightarrow> real" where
  "inter_h g p =
     (let gt_max_h = box_z g + box_h g * 0.5;
          gt_min_h = box_z g - box_h g * 0.5;
          pred_max_h = box_z p + box_h p * 0.5;
          pred_min_h = box_z p - box_h p * 0.5;
          max_of_min = max gt_min_h pred_min_h;
          min_of_max = min gt_max_h pred_max_h;
          d = min_of_max - max_of_min
      in if d \<le> 0 then 0 else d)"

definition iou3d_cell :: "(bev \<Rightarrow> bev \<Rightarrow> real) \<Rightarrow> box \<Rightarrow> box \<Rightarrow> npfloat" where
  "iou3d_cell inter2d g p =
     (let intersection_2d = inter2d (bev_of g) (bev_of p);
          intersection_3d = intersection_2d * inter_h g p;
          gt_vol = box_w g * box_l g * box_h g;
          pred_vol = box_w p * box_l p * box_h p;
          union_3d = gt_vol + pred_vol - intersection_3d
      in np_divide intersection_3d union_3d)"

text \<open>The rotation filter of \<^verbatim>\<open>iou3d_kernel_with_heading\<close>: \<^verbatim>\<open>diff_rot\<close> after line 380.\<close>

definition diff_rot :: "box \<Rightarrow> box \<Rightarrow> real" where
  "diff_rot g p =
     (let d = \<bar>box_rot g - box_rot p\<bar>;
          reverse_diff_rot = 2 * pi - d
      in if pi \<le> d then reverse_diff_rot else d)"

definition iou3d_heading_cell :: "(bev \<Rightarrow> bev \<Rightarrow> real) \<Rightarrow> box \<Rightarrow> box \<Rightarrow> npfloat" where
  "iou3d_heading_cell inter2d g p =
     (if pi / 2 < diff_rot g p then Fin 0 else iou3d_cell inter2d g p)"

text \<open>
  A two-dimensional array: its second dimension is kept beside the rows, since an array
  of shape \<open>(0, M)\<close> has no row to read it from.
\<close>

datatype 'a ndarray2 = Array2 (shape1: nat) (rows_of: "'a list list")

definition shape0 :: "'a ndarray2 \<Rightarrow> nat" where
  "shape0 a = length (rows_of a)"

definition cell_at :: "'a ndarray2 \<Rightarrow> nat \<Rightarrow> nat \<Rightarrow> 'a" where
  "cell_at a i j = rows_of a ! i ! j"

definition iou3d_kernel :: "(bev \<Rightarrow> bev \<Rightarrow> real) \<Rightarrow> box list \<Rightarrow> box list \<Rightarrow> npfloat ndarray2" where
  "iou3d_kernel inter2d gt_boxes pred_boxes =
     Array2 (length pred_boxes) (map (\<lambda>g. map (\<lambda>p. iou3d_cell inter2d g p) pred_boxes) gt_boxes)"

definition iou3d_kernel_with_heading ::
  "(bev \<Rightarrow> bev \<Rightarrow> real) \<Rightarrow> box list \<Rightarrow> box list \<Rightarrow> npfloat ndarray2" where
  "iou3d_kernel_with_heading inter2d gt_boxes pred_boxes =
     Array2 (length pred_boxes)
       (map (\<lambda>g. map (\<lambda>p. iou3d_heading_cell inter2d g p) pred_boxes) gt_boxes)"

section \<open>Loops that can raise\<close>

text \<open>
  A \<^verbatim>\<open>for\<close> loop whose body may raise: the first error ends the loop. \<open>efold\<close>
  threads a state through the rounds, \<open>emap\<close> collects one result per round.
\<close>

fun efold :: "('a \<Rightarrow> 's \<Rightarrow> 'e + 's) \<Rightarrow> 'a list \<Rightarrow> 's \<Rightarrow> 'e + 's" where
  "efold f [] s = Inr s"
| "efold f (x # xs) s = (case f x s of Inl e \<Rightarrow> Inl e | Inr s' \<Rightarrow> efold f xs s')"

fun emap :: "('a \<Rightarrow> 'e + 'b) \<Rightarrow> 'a list \<Rightarrow> 'e + 'b list" where
  "emap f [] = Inr []"
| "emap f (x # xs) =
     (case f x of
        Inl e \<Rightarrow> Inl e
      | Inr y \<Rightarrow> (case emap f xs of Inl e \<Rightarrow> Inl e | Inr ys \<Rightarrow> Inr (y # ys)))"

section \<open>Annotations and flags\<close>

text \<open>
  One sample's annotation: the dictionary with the keys \<^verbatim>\<open>name\<close>, \<^verbatim>\<open>boxes_3d\<close> and, for
  predictions, \<^verbatim>\<open>score\<close>.
\<close>

record anno =
  anno_name :: "string list"
  anno_boxes_3d :: "box list"
  anno_score :: "real list"

text \<open>
  The filters of \<^verbatim>\<open>eval_utils\<close> and its \<^verbatim>\<open>compute_split_parts\<close> are imported by the
  evaluation and are not among the sources: the functions below take them as the fields
  of this record. A filter returns the boolean mask of the boxes to ignore.
\<close>

record eval_utils =
  overall_filter :: "box list \<Rightarrow> bool list"
  distance_filter :: "box list \<Rightarrow> nat \<Rightarrow> bool list"
  overall_distance_filter :: "box list \<Rightarrow> nat \<Rightarrow> bool list"
  compute_split_parts :: "nat \<Rightarrow> nat \<Rightarrow> py_error + nat list"

text \<open>
  \<^verbatim>\<open>flag[mask] = v\<close>: numpy raises IndexError when the boolean mask has not the length of
  the array.
\<close>

definition mask_assign :: "int list \<Rightarrow> bool list \<Rightarrow> int \<Rightarrow> py_error + int list" where
  "mask_assign flag msk v =
     (if length msk \<noteq> length flag then Inl IndexError
      else Inr (map (\<lambda>(m, f). if m then v else f) (zip msk flag)))"

definition reject_mask :: "string list \<Rightarrow> string \<Rightarrow> bool \<Rightarrow> bool list" where
  "reject_mask names class_name use_superclass =
     (if use_superclass then
        (if class_name = ''Vehicle''
         then map (\<lambda>n. n = ''Pedestrian'' \<or> n = ''Cyclist'') names
         else map (\<lambda>n. n \<noteq> class_name) names)
      else map (\<lambda>n. n \<noteq> class_name) names)"

definition ignore_mask :: "eval_utils \<Rightarrow> string \<Rightarrow> nat \<Rightarrow> box list \<Rightarrow> py_error + bool list" where
  "ignore_mask eu difficulty_mode difficulty_level boxes =
     (if difficulty_mode = ''Overall'' then Inr (overall_filter eu boxes)
      else if difficulty_mode = ''Distance'' then Inr (distance_filter eu boxes difficulty_level)
      else if difficulty_mode = ''Overall&Distance''
        then Inr (overall_distance_filter eu boxes difficulty_level)
      else Inl NotImplementedError)"

definition filter_flags ::
  "eval_utils \<Rightarrow> anno \<Rightarrow> string \<Rightarrow> nat \<Rightarrow> string \<Rightarrow> bool \<Rightarrow> py_error + int list" where
  "filter_flags eu a difficulty_mode difficulty_level class_name use_superclass =
     (let num = length (anno_name a);
          flag = replicate num (0 :: int)
      in case mask_assign flag (reject_mask (anno_name a) class_name use_superclass) (- 1) of
           Inl e \<Rightarrow> Inl e
         | Inr flag1 \<Rightarrow>
             (case ignore_mask eu difficulty_mode difficulty_level (anno_boxes_3d a) of
                Inl e \<Rightarrow> Inl e
              | Inr ignore \<Rightarrow> mask_assign flag1 ignore 1))"

text \<open>
  \<^verbatim>\<open>filter_data\<close>: the flags of the ground truth, then those of the predictions. The
  source computes both reject masks before the first filter of \<^verbatim>\<open>eval_utils\<close> runs; the
  reject masks cannot fail, so the order of the failures is the one below.
\<close>

definition filter_data ::
  "eval_utils \<Rightarrow> anno \<Rightarrow> anno \<Rightarrow> string \<Rightarrow> nat \<Rightarrow> string \<Rightarrow> bool
     \<Rightarrow> py_error + (int list \<times> int list)" where
  "filter_data eu gt_anno pred_anno difficulty_mode difficulty_level class_name use_superclass =
     (case filter_flags eu gt_anno difficulty_mode difficulty_level class_name use_superclass of
        Inl e \<Rightarrow> Inl e
      | Inr gt_flag \<Rightarrow>
          (case filter_flags eu pred_anno difficulty_mode difficulty_level class_name
                  use_superclass of
             Inl e \<Rightarrow> Inl e
           | Inr pred_flag \<Rightarrow> Inr (gt_flag, pred_flag)))"

section \<open>Greedy matching\<close>

subsection \<open>accumulate_scores\<close>

text \<open>
  The inner loop over the predictions, for the ground-truth box \<open>i\<close>: the state is
  \<^verbatim>\<open>(det_idx, detected_score)\<close>, both \<open>-1\<close> at the start.
\<close>

definition acc_inner_step ::
  "npfloat ndarray2 \<Rightarrow> real list \<Rightarrow> int list \<Rightarrow> bool list \<Rightarrow> real \<Rightarrow> nat \<Rightarrow> nat
     \<Rightarrow> int \<times> real \<Rightarrow> int \<times> real" where
  "acc_inner_step iou pred_scores pred_flag assigned iou_threshold i j s =
     (case s of (det_idx, detected_score) \<Rightarrow>
        if pred_flag ! j = - 1 then s
        else if assigned ! j then s
        else
          let iou_ij = cell_at iou i j;
              pred_score = pred_scores ! j
          in if np_greater iou_ij (Fin iou_threshold) \<and> detected_score < pred_score
             then (int j, pred_score)
             else s)"

definition acc_inner ::
  "npfloat ndarray2 \<Rightarrow> real list \<Rightarrow> int list \<Rightarrow> bool list \<Rightarrow> real \<Rightarrow> nat \<Rightarrow> int \<times> real" where
  "acc_inner iou pred_scores pred_flag assigned iou_threshold i =
     fold (acc_inner_step iou pred_scores pred_flag assigned iou_threshold i)
       [0..<shape1 iou] (- 1, - 1)"

text \<open>
  The state of the loop over the ground-truth boxes. \<open>acc_pairs\<close> is a ghost field: the
  pairs \<^verbatim>\<open>(i, det_idx)\<close> for which line 203 or 207 has set \<^verbatim>\<open>assigned[det_idx]\<close>, in
  the order of the loop. Nothing the function returns reads it.
\<close>

record acc_state =
  acc_assigned :: "bool list"
  accum_scores :: "real list"
  accum_idx :: nat
  acc_pairs :: "(nat \<times> nat) list"

definition acc_step ::
  "npfloat ndarray2 \<Rightarrow> real list \<Rightarrow> int list \<Rightarrow> int list \<Rightarrow> real \<Rightarrow> nat \<Rightarrow> acc_state \<Rightarrow> acc_state"
  where
  "acc_step iou pred_scores gt_flag pred_flag iou_threshold i st =
     (if gt_flag ! i = - 1 then st
      else
        case acc_inner iou pred_scores pred_flag (acc_assigned st) iou_threshold i of
          (det_idx, detected_score) \<Rightarrow>
            if detected_score = - 1 \<and> gt_flag ! i = 0 then st
            else if detected_score \<noteq> - 1 \<and> (gt_flag ! i = 1 \<or> pred_flag ! nat det_idx = 1)
              then st\<lparr>acc_assigned := (acc_assigned st)[nat det_idx := True],
                      acc_pairs := acc_pairs st @ [(i, nat det_idx)]\<rparr>
            else if detected_score \<noteq> - 1
              then st\<lparr>accum_scores := (accum_scores st)[accum_idx st := pred_scores ! nat det_idx],
                      accum_idx := accum_idx st + 1,
                      acc_assigned := (acc_assigned st)[nat det_idx := True],
                      acc_pairs := acc_pairs st @ [(i, nat det_idx)]\<rparr>
            else st)"

definition acc_init :: "npfloat ndarray2 \<Rightarrow> acc_state" where
  "acc_init iou =
     \<lparr>acc_assigned = replicate (shape1 iou) False,
      accum_scores = replicate (shape0 iou) 0,
      accum_idx = 0,
      acc_pairs = []\<rparr>"

definition acc_loop ::
  "npfloat ndarray2 \<Rightarrow> real list \<Rightarrow> int list \<Rightarrow> int list \<Rightarrow> real \<Rightarrow> acc_state" where
  "acc_loop iou pred_scores gt_flag pred_flag iou_threshold =
     fold (acc_step iou pred_scores gt_flag pred_flag iou_threshold) [0..<shape0 iou]
       (acc_init iou)"

definition accumulate_scores ::
  "npfloat ndarray2 \<Rightarrow> real list \<Rightarrow> int list \<Rightarrow> int list \<Rightarrow> real \<Rightarrow> real list" where
  "accumulate_scores iou pred_scores gt_flag pred_flag iou_threshold =
     (let st = acc_loop iou pred_scores gt_flag pred_flag iou_threshold
      in take (accum_idx st) (accum_scores st))"

subsection \<open>compute_statistics\<close>

text \<open>
  The inner loop: the state is
  \<^verbatim>\<open>(det_idx, detected, best_matched_iou, gt_assigned_to_ignore)\<close>.
\<close>

type_synonym det_state = "int \<times> bool \<times> npfloat \<times> bool"

definition stat_inner_step ::
  "npfloat ndarray2 \<Rightarrow> int list \<Rightarrow> bool list \<Rightarrow> bool list \<Rightarrow> real \<Rightarrow> nat \<Rightarrow> nat
     \<Rightarrow> det_state \<Rightarrow> det_state" where
  "stat_inner_step iou pred_flag assigned under_threshold iou_threshold i j s =
     (case s of (det_idx, detected, best_matched_iou, gt_assigned_to_ignore) \<Rightarrow>
        if pred_flag ! j = - 1 then s
        else if assigned ! j then s
        else if under_threshold ! j then s
        else
          let iou_ij = cell_at iou i j
          in if np_greater iou_ij (Fin iou_threshold)
                \<and> (np_greater iou_ij best_matched_iou \<or> gt_assigned_to_ignore)
                \<and> pred_flag ! j = 0
             then (int j, True, iou_ij, False)
             else if np_greater iou_ij (Fin iou_threshold) \<and> \<not> detected \<and> pred_flag ! j = 1
             then (int j, True, best_matched_iou, True)
             else s)"

definition stat_inner ::
  "npfloat ndarray2 \<Rightarrow> int list \<Rightarrow> bool list \<Rightarrow> bool list \<Rightarrow> real \<Rightarrow> nat \<Rightarrow> det_state" where
  "stat_inner iou pred_flag assigned under_threshold iou_threshold i =
     fold (stat_inner_step iou pred_flag assigned under_threshold iou_threshold i)
       [0..<shape1 iou] (- 1, False, Fin 0, False)"

text \<open>
  The state of the loop over the ground-truth boxes; \<open>stat_pairs\<close> is the ghost list of
  the pairs \<^verbatim>\<open>(i, det_idx)\<close> for which line 248 or 251 has set \<^verbatim>\<open>assigned[det_idx]\<close>.
\<close>

record stat_state =
  stat_assigned :: "bool list"
  stat_tp :: nat
  stat_fn :: nat
  stat_pairs :: "(nat \<times> nat) list"

definition stat_step ::
  "npfloat ndarray2 \<Rightarrow> int list \<Rightarrow> int list \<Rightarrow> bool list \<Rightarrow> real \<Rightarrow> nat
     \<Rightarrow> stat_state \<Rightarrow> stat_state" where
  "stat_step iou gt_flag pred_flag under_threshold iou_threshold i st =
     (if gt_flag ! i = - 1 then st
      else
        case stat_inner iou pred_flag (stat_assigned st) under_threshold iou_threshold i of
          (det_idx, detected, best_matched_iou, gt_assigned_to_ignore) \<Rightarrow>
            if \<not> detected \<and> gt_flag ! i = 0 then st\<lparr>stat_fn := stat_fn st + 1\<rparr>
            else if detected \<and> (gt_flag ! i = 1 \<or> pred_flag ! nat det_idx = 1)
              then st\<lparr>stat_assigned := (stat_assigned st)[nat det_idx := True],
                      stat_pairs := stat_pairs st @ [(i, nat det_idx)]\<rparr>
            else if detected
              then st\<lparr>stat_tp := stat_tp st + 1,
                      stat_assigned := (stat_assigned st)[nat det_idx := True],
                      stat_pairs := stat_pairs st @ [(i, nat det_idx)]\<rparr>
            else st)"

definition stat_init :: "npfloat ndarray2 \<Rightarrow> stat_state" where
  "stat_init iou =
     \<lparr>stat_assigned = replicate (shape1 iou) False, stat_tp = 0, stat_fn = 0, stat_pairs = []\<rparr>"

definition stat_loop ::
  "npfloat ndarray2 \<Rightarrow> real list \<Rightarrow> int list \<Rightarrow> int list \<Rightarrow> real \<Rightarrow> real \<Rightarrow> stat_state" where
  "stat_loop iou pred_scores gt_flag pred_flag score_threshold iou_threshold =
     fold (stat_step iou gt_flag pred_flag (map (\<lambda>s. s < score_threshold) pred_scores)
             iou_threshold)
       [0..<shape0 iou] (stat_init iou)"

text \<open>The condition of line 254, under which the prediction \<open>j\<close> adds one to \<^verbatim>\<open>fp\<close>.\<close>

definition counts_as_fp :: "bool list \<Rightarrow> int list \<Rightarrow> bool list \<Rightarrow> nat \<Rightarrow> bool" where
  "counts_as_fp assigned pred_flag under_threshold j =
     (\<not> (assigned ! j \<or> pred_flag ! j = - 1 \<or> pred_flag ! j = 1 \<or> under_threshold ! j))"

definition count_fp :: "nat \<Rightarrow> bool list \<Rightarrow> int list \<Rightarrow> bool list \<Rightarrow> nat" where
  "count_fp num_pred assigned pred_flag under_threshold =
     fold (\<lambda>j fp. if counts_as_fp assigned pred_flag under_threshold j then fp + 1 else fp)
       [0..<num_pred] 0"

definition compute_statistics ::
  "npfloat ndarray2 \<Rightarrow> real list \<Rightarrow> int list \<Rightarrow> int list \<Rightarrow> real \<Rightarrow> real \<Rightarrow> nat \<times> nat \<times> nat"
  where
  "compute_statistics iou pred_scores gt_flag pred_flag score_threshold iou_threshold =
     (let st = stat_loop iou pred_scores gt_flag pred_flag score_threshold iou_threshold;
          fp = count_fp (shape1 iou) (stat_assigned st) pred_flag
                 (map (\<lambda>s. s < score_threshold) pred_scores)
      in (stat_tp st, fp, stat_fn st))"

section \<open>Score thresholds\<close>

definition eps :: real where
  "eps = 1 / 1000000"

text \<open>
  The \<^verbatim>\<open>while\<close> loop of lines 172 to 174, entered after line 169: \<open>c\<close> is
  \<^verbatim>\<open>r_recall + l_recall\<close>. It is reached only after \<^verbatim>\<open>1 / num_pr_points\<close> has been
  computed, that is with \<open>0 < num_pr_points\<close>, and then the recall level grows by a
  fixed positive step, so the loop ends.
\<close>

function thr_while :: "real \<Rightarrow> nat \<Rightarrow> real \<Rightarrow> real list \<times> real \<Rightarrow> real list \<times> real" where
  "thr_while c num_pr_points score (thresholds, recall_level) =
     (if 0 < num_pr_points \<and> 2 * recall_level < c + eps
      then thr_while c num_pr_points score
             (thresholds @ [score], recall_level + 1 / real num_pr_points)
      else (thresholds, recall_level))"
  by pat_completeness auto
termination
proof (relation "measure (\<lambda>(c, n, s, ths, lvl). nat \<lceil>(c + eps - 2 * lvl) * real n / 2\<rceil>)",
    goal_cases)
  case 1
  show ?case by simp
next
  case (2 c num_pr_points score thresholds recall_level)
  define X where "X = (c + eps - 2 * recall_level) * real num_pr_points / 2"
  from 2 have n: "0 < real num_pr_points" and pos: "0 < c + eps - 2 * recall_level"
    by simp_all
  have eq: "(c + eps - 2 * (recall_level + 1 / real num_pr_points)) * real num_pr_points / 2
      = X - 1"
    using n by (simp add: X_def field_simps)
  have "0 < X"
    using n pos by (simp add: X_def)
  then have "0 < \<lceil>X\<rceil>"
    by simp
  then have "nat \<lceil>X - 1\<rceil> < nat \<lceil>X\<rceil>"
    by (simp add: ceiling_diff_one)
  then have "nat \<lceil>(c + eps - 2 * (recall_level + 1 / real num_pr_points))
        * real num_pr_points / 2\<rceil>
      < nat \<lceil>(c + eps - 2 * recall_level) * real num_pr_points / 2\<rceil>"
    unfolding eq X_def [symmetric] .
  then show ?case
    by (simp only: in_measure prod.case)
qed

declare thr_while.simps [simp del]

text \<open>
  One round of the loop over the sorted scores. Under numba's Python error model an
  integer division by zero raises ZeroDivisionError.
\<close>

definition thr_step ::
  "real list \<Rightarrow> nat \<Rightarrow> nat \<Rightarrow> nat \<Rightarrow> real list \<times> real \<Rightarrow> py_error + (real list \<times> real)" where
  "thr_step scores num_gt num_pr_points i s =
     (case s of (thresholds, recall_level) \<Rightarrow>
        if num_gt = 0 then Inl ZeroDivisionError
        else
          let score = scores ! i;
              l_recall = real (i + 1) / real num_gt;
              r_recall = (if i + 1 < length scores then real (i + 2) / real num_gt else l_recall)
          in if r_recall + l_recall < 2 * recall_level \<and> i + 1 < length scores then Inr s
             else if num_pr_points = 0 then Inl ZeroDivisionError
             else Inr (thr_while (r_recall + l_recall) num_pr_points score
                         (thresholds @ [score], recall_level + 1 / real num_pr_points)))"

definition get_thresholds :: "real list \<Rightarrow> nat \<Rightarrow> nat \<Rightarrow> py_error + real list" where
  "get_thresholds scores0 num_gt num_pr_points =
     (let scores = rev (sort scores0)
      in case efold (thr_step scores num_gt num_pr_points) [0..<length scores] ([], 0) of
           Inl e \<Rightarrow> Inl e
         | Inr (thresholds, recall_level) \<Rightarrow> Inr thresholds)"

section \<open>IoU of all samples, by parts\<close>

text \<open>\<^verbatim>\<open>np.concatenate\<close> and \<^verbatim>\<open>np.stack\<close> raise ValueError on an empty list of arrays.\<close>

definition np_concatenate :: "'a list list \<Rightarrow> py_error + 'a list" where
  "np_concatenate xss = (if xss = [] then Inl ValueError else Inr (concat xss))"

text \<open>The slice \<^verbatim>\<open>xs[a:b]\<close> for \<open>0 \<le> a\<close>, \<open>0 \<le> b\<close>: out-of-range bounds are clipped.\<close>

definition py_slice :: "nat \<Rightarrow> nat \<Rightarrow> 'a list \<Rightarrow> 'a list" where
  "py_slice a b xs = take (b - a) (drop a xs)"

definition array_slice :: "'a ndarray2 \<Rightarrow> nat \<Rightarrow> nat \<Rightarrow> nat \<Rightarrow> nat \<Rightarrow> 'a ndarray2" where
  "array_slice arr r0 r1 c0 c1 =
     Array2 (min c1 (shape1 arr) - min c0 (shape1 arr))
       (map (py_slice c0 c1) (py_slice r0 r1 (rows_of arr)))"

text \<open>
  The loop of lines 414 to 419 over the samples of one part; the state is
  \<^verbatim>\<open>(ious, gt_num_idx, pred_num_idx)\<close>.
\<close>

definition split_step ::
  "npfloat ndarray2 \<Rightarrow> nat list \<Rightarrow> nat list \<Rightarrow> nat \<Rightarrow> nat
     \<Rightarrow> npfloat ndarray2 list \<times> nat \<times> nat \<Rightarrow> py_error + (npfloat ndarray2 list \<times> nat \<times> nat)"
  where
  "split_step iou3d_part gt_num_per_sample pred_num_per_sample sample_idx idx s =
     (case s of (ious, gt_num_idx, pred_num_idx) \<Rightarrow>
        if length gt_num_per_sample \<le> sample_idx + idx then Inl IndexError
        else if length pred_num_per_sample \<le> sample_idx + idx then Inl IndexError
        else
          let gt_box_num = gt_num_per_sample ! (sample_idx + idx);
              pred_box_num = pred_num_per_sample ! (sample_idx + idx)
          in Inr (ious @ [array_slice iou3d_part gt_num_idx (gt_num_idx + gt_box_num)
                            pred_num_idx (pred_num_idx + pred_box_num)],
                  gt_num_idx + gt_box_num, pred_num_idx + pred_box_num))"

text \<open>One round of the loop over \<^verbatim>\<open>split_parts\<close>; the state is \<^verbatim>\<open>(ious, sample_idx)\<close>.\<close>

definition part_step ::
  "(bev \<Rightarrow> bev \<Rightarrow> real) \<Rightarrow> anno list \<Rightarrow> anno list \<Rightarrow> bool \<Rightarrow> nat
     \<Rightarrow> npfloat ndarray2 list \<times> nat \<Rightarrow> py_error + (npfloat ndarray2 list \<times> nat)" where
  "part_step inter2d gt_annos pred_annos with_heading num_part_samples s =
     (case s of (ious, sample_idx) \<Rightarrow>
        let gt_annos_part = py_slice sample_idx (sample_idx + num_part_samples) gt_annos;
            pred_annos_part = py_slice sample_idx (sample_idx + num_part_samples) pred_annos
        in case np_concatenate (map anno_boxes_3d gt_annos_part) of
             Inl e \<Rightarrow> Inl e
           | Inr gt_boxes \<Rightarrow>
               (case np_concatenate (map anno_boxes_3d pred_annos_part) of
                  Inl e \<Rightarrow> Inl e
                | Inr pred_boxes \<Rightarrow>
                    let iou3d_part =
                          (if with_heading
                           then iou3d_kernel_with_heading inter2d gt_boxes pred_boxes
                           else iou3d_kernel inter2d gt_boxes pred_boxes)
                    in case efold (split_step iou3d_part
                                     (map (\<lambda>a. length (anno_name a)) gt_annos)
                                     (map (\<lambda>a. length (anno_name a)) pred_annos) sample_idx)
                              [0..<num_part_samples] (ious, 0, 0) of
                         Inl e \<Rightarrow> Inl e
                       | Inr (ious', gt_num_idx, pred_num_idx) \<Rightarrow>
                           Inr (ious', sample_idx + num_part_samples)))"

definition compute_iou3d ::
  "(bev \<Rightarrow> bev \<Rightarrow> real) \<Rightarrow> anno list \<Rightarrow> anno list \<Rightarrow> nat list \<Rightarrow> bool
     \<Rightarrow> py_error + npfloat ndarray2 list" where
  "compute_iou3d inter2d gt_annos pred_annos split_parts with_heading =
     (if gt_annos = [] then Inl ValueError
      else if pred_annos = [] then Inl ValueError
      else case efold (part_step inter2d gt_annos pred_annos with_heading) split_parts ([], 0) of
             Inl e \<Rightarrow> Inl e
           | Inr (ious, sample_idx) \<Rightarrow> Inr ious)"

section \<open>Precision, recall and AP of one class and difficulty\<close>

text \<open>\<^verbatim>\<open>np.max\<close>: nan wins over every number; it raises ValueError on an empty array.\<close>

definition np_maximum :: "npfloat \<Rightarrow> npfloat \<Rightarrow> npfloat" where
  "np_maximum a b = (if a = NaN \<or> b = NaN then NaN else if np_greater b a then b else a)"

definition np_max :: "npfloat list \<Rightarrow> py_error + npfloat" where
  "np_max xs = (case xs of [] \<Rightarrow> Inl ValueError | x # ys \<Rightarrow> Inr (fold (\<lambda>y m. np_maximum m y) ys x))"

fun np_add :: "npfloat \<Rightarrow> npfloat \<Rightarrow> npfloat" where
  "np_add (Fin a) (Fin b) = Fin (a + b)"
| "np_add NaN _ = NaN"
| "np_add _ NaN = NaN"
| "np_add PInf NInf = NaN"
| "np_add NInf PInf = NaN"
| "np_add PInf _ = PInf"
| "np_add _ PInf = PInf"
| "np_add NInf _ = NInf"
| "np_add _ NInf = NInf"

text \<open>Division and multiplication of a float by a positive number.\<close>

definition np_div_pos :: "npfloat \<Rightarrow> real \<Rightarrow> npfloat" where
  "np_div_pos x k = (case x of Fin a \<Rightarrow> Fin (a / k) | _ \<Rightarrow> x)"

definition np_mul_pos :: "npfloat \<Rightarrow> real \<Rightarrow> npfloat" where
  "np_mul_pos x k = (case x of Fin a \<Rightarrow> Fin (a * k) | _ \<Rightarrow> x)"

text \<open>
  Lines 76 to 88 for one sample: its flags, and the scores of its true positives. The
  sample is read at \<^verbatim>\<open>sample_idx\<close> from the three lists; \<^verbatim>\<open>ious\<close> is a Python list, so a
  read past its end raises IndexError.
\<close>

definition sample_scores ::
  "eval_utils \<Rightarrow> anno list \<Rightarrow> anno list \<Rightarrow> npfloat ndarray2 list \<Rightarrow> string \<Rightarrow> nat \<Rightarrow> string
     \<Rightarrow> bool \<Rightarrow> real \<Rightarrow> nat \<Rightarrow> py_error + (int list \<times> int list \<times> real list)" where
  "sample_scores eu gt_annos pred_annos ious difficulty_mode diff_idx cur_class use_superclass
       iou_threshold sample_idx =
     (let gt_anno = gt_annos ! sample_idx;
          pred_anno = pred_annos ! sample_idx;
          pred_score = anno_score pred_anno
      in if length ious \<le> sample_idx then Inl IndexError
         else
           let iou = ious ! sample_idx
           in case filter_data eu gt_anno pred_anno difficulty_mode diff_idx cur_class
                     use_superclass of
                Inl e \<Rightarrow> Inl e
              | Inr (gt_flag, pred_flag) \<Rightarrow>
                  Inr (gt_flag, pred_flag,
                       accumulate_scores iou pred_score gt_flag pred_flag iou_threshold))"

text \<open>\<^verbatim>\<open>sum(gt_flag == 0)\<close>.\<close>

definition count_valid :: "int list \<Rightarrow> nat" where
  "count_valid gt_flag = length (filter (\<lambda>f. f = 0) gt_flag)"

text \<open>
  Lines 94 to 103 for one sample: its tp, fp and fn are added to the row of every
  threshold.
\<close>

definition add_counts :: "nat \<times> nat \<times> nat \<Rightarrow> nat \<times> nat \<times> nat \<Rightarrow> nat \<times> nat \<times> nat" where
  "add_counts a b =
     (case a of (tp, fp, fn) \<Rightarrow> case b of (tp', fp', fn') \<Rightarrow> (tp + tp', fp + fp', fn + fn'))"

definition confusion_step ::
  "anno list \<Rightarrow> npfloat ndarray2 list \<Rightarrow> (int list \<times> int list \<times> real list) list \<Rightarrow> real list
     \<Rightarrow> real \<Rightarrow> nat \<Rightarrow> (nat \<times> nat \<times> nat) list \<Rightarrow> (nat \<times> nat \<times> nat) list" where
  "confusion_step pred_annos ious flags thresholds iou_threshold sample_idx confusion_matrix =
     (let pred_score = anno_score (pred_annos ! sample_idx);
          iou = ious ! sample_idx;
          gt_flag = fst (flags ! sample_idx);
          pred_flag = fst (snd (flags ! sample_idx))
      in map (\<lambda>(score_th, row).
                add_counts row
                  (compute_statistics iou pred_score gt_flag pred_flag score_th iou_threshold))
           (zip thresholds confusion_matrix))"

text \<open>
  Lines 106 to 110: the raw recall and precision of a threshold are written into the
  rows of the two arrays, which have \<^verbatim>\<open>num_pr_points + 1\<close> cells; a write past the end
  raises IndexError. The state is \<^verbatim>\<open>(precision, recall)\<close>, the rows of the class and
  difficulty at hand.
\<close>

definition draw_step ::
  "(nat \<times> nat \<times> nat) list \<Rightarrow> nat \<Rightarrow> npfloat list \<times> npfloat list
     \<Rightarrow> py_error + (npfloat list \<times> npfloat list)" where
  "draw_step confusion_matrix th_idx s =
     (case s of (precision, recall) \<Rightarrow>
        case confusion_matrix ! th_idx of (tp, fp, fn) \<Rightarrow>
          if length recall \<le> th_idx then Inl IndexError
          else if length precision \<le> th_idx then Inl IndexError
          else Inr (precision[th_idx := np_divide (real tp) (real tp + real fp)],
                    recall[th_idx := np_divide (real tp) (real tp + real fn)]))"

text \<open>Lines 112 to 116: the envelope step.\<close>

definition envelope_step ::
  "nat \<Rightarrow> npfloat list \<times> npfloat list \<Rightarrow> py_error + (npfloat list \<times> npfloat list)" where
  "envelope_step th_idx s =
     (case s of (precision, recall) \<Rightarrow>
        case np_max (drop th_idx precision) of
          Inl e \<Rightarrow> Inl e
        | Inr p \<Rightarrow>
            (case np_max (drop th_idx recall) of
               Inl e \<Rightarrow> Inl e
             | Inr r \<Rightarrow> Inr (precision[th_idx := p], recall[th_idx := r])))"

definition pr_curve ::
  "nat \<Rightarrow> (nat \<times> nat \<times> nat) list \<Rightarrow> py_error + (npfloat list \<times> npfloat list)" where
  "pr_curve num_pr_points confusion_matrix =
     (case efold (draw_step confusion_matrix) [0..<length confusion_matrix]
             (replicate (num_pr_points + 1) (Fin 0), replicate (num_pr_points + 1) (Fin 0)) of
        Inl e \<Rightarrow> Inl e
      | Inr raw \<Rightarrow> efold envelope_step [0..<length confusion_matrix] raw)"

text \<open>
  The body of the loops of lines 70 and 72 for one class and one difficulty: the rows
  \<^verbatim>\<open>precision[cls_idx, diff_idx]\<close> and \<^verbatim>\<open>recall[cls_idx, diff_idx]\<close>.
\<close>

definition class_diff_thresholds ::
  "eval_utils \<Rightarrow> anno list \<Rightarrow> anno list \<Rightarrow> npfloat ndarray2 list \<Rightarrow> string \<Rightarrow> nat \<Rightarrow> string
     \<Rightarrow> bool \<Rightarrow> real \<Rightarrow> nat
     \<Rightarrow> py_error + ((int list \<times> int list \<times> real list) list \<times> real list)" where
  "class_diff_thresholds eu gt_annos pred_annos ious difficulty_mode diff_idx cur_class
       use_superclass iou_threshold num_pr_points =
     (case emap (sample_scores eu gt_annos pred_annos ious difficulty_mode diff_idx cur_class
                   use_superclass iou_threshold) [0..<length gt_annos] of
        Inl e \<Rightarrow> Inl e
      | Inr flags \<Rightarrow>
          let num_valid_gt = sum_list (map (\<lambda>(gt_flag, pred_flag, sc). count_valid gt_flag) flags)
          in case np_concatenate (map (\<lambda>(gt_flag, pred_flag, sc). sc) flags) of
               Inl e \<Rightarrow> Inl e
             | Inr all_scores \<Rightarrow>
                 (case get_thresholds all_scores num_valid_gt num_pr_points of
                    Inl e \<Rightarrow> Inl e
                  | Inr thresholds \<Rightarrow> Inr (flags, thresholds)))"

definition class_diff_confusion ::
  "anno list \<Rightarrow> anno list \<Rightarrow> npfloat ndarray2 list \<Rightarrow> (int list \<times> int list \<times> real list) list
     \<Rightarrow> real list \<Rightarrow> real \<Rightarrow> (nat \<times> nat \<times> nat) list" where
  "class_diff_confusion gt_annos pred_annos ious flags thresholds iou_threshold =
     fold (confusion_step pred_annos ious flags thresholds iou_threshold) [0..<length gt_annos]
       (replicate (length thresholds) (0, 0, 0))"

definition eval_class_diff ::
  "eval_utils \<Rightarrow> anno list \<Rightarrow> anno list \<Rightarrow> npfloat ndarray2 list \<Rightarrow> string \<Rightarrow> nat \<Rightarrow> string
     \<Rightarrow> bool \<Rightarrow> real \<Rightarrow> nat \<Rightarrow> py_error + (npfloat list \<times> npfloat list)" where
  "eval_class_diff eu gt_annos pred_annos ious difficulty_mode diff_idx cur_class use_superclass
       iou_threshold num_pr_points =
     (case class_diff_thresholds eu gt_annos pred_annos ious difficulty_mode diff_idx cur_class
             use_superclass iou_threshold num_pr_points of
        Inl e \<Rightarrow> Inl e
      | Inr (flags, thresholds) \<Rightarrow>
          pr_curve num_pr_points
            (class_diff_confusion gt_annos pred_annos ious flags thresholds iou_threshold))"

text \<open>
  Lines 118 to 121 for one row of \<^verbatim>\<open>precision\<close>: the sum of the cells 1 to
  \<^verbatim>\<open>num_pr_points\<close>, divided by \<^verbatim>\<open>num_pr_points\<close>, times 100.
\<close>

definition ap_of_row :: "nat \<Rightarrow> npfloat list \<Rightarrow> npfloat" where
  "ap_of_row num_pr_points precision =
     np_mul_pos
       (np_div_pos (fold (\<lambda>i ap. np_add ap (precision ! i)) [1..<num_pr_points + 1] (Fin 0))
          (real num_pr_points))
       100"

section \<open>The report\<close>

definition iou_threshold_dict :: "(string \<times> real) list" where
  "iou_threshold_dict =
     [(''Car'', 7 / 10), (''Bus'', 7 / 10), (''Truck'', 7 / 10), (''Pedestrian'', 3 / 10),
      (''Cyclist'', 5 / 10)]"

definition superclass_iou_threshold_dict :: "(string \<times> real) list" where
  "superclass_iou_threshold_dict =
     [(''Vehicle'', 7 / 10), (''Pedestrian'', 3 / 10), (''Cyclist'', 5 / 10)]"

text \<open>Lines 44 to 48: the classes that are evaluated, in the order of the report.\<close>

definition effective_classes :: "bool \<Rightarrow> string list \<Rightarrow> py_error + string list" where
  "effective_classes use_superclass classes =
     (if use_superclass then
        (if (''Car'' \<in> set classes \<or> ''Bus'' \<in> set classes \<or> ''Truck'' \<in> set classes)
            \<and> \<not> (''Car'' \<in> set classes \<and> ''Bus'' \<in> set classes \<and> ''Truck'' \<in> set classes)
         then Inl AssertionError
         else Inr (''Vehicle'' # filter (\<lambda>cls_name. cls_name \<notin> set [''Car'', ''Bus'', ''Truck''])
                                    classes))
      else Inr classes)"

text \<open>Lines 55 to 65.\<close>

definition difficulty_types_of :: "string \<Rightarrow> py_error + string list" where
  "difficulty_types_of difficulty_mode =
     (if difficulty_mode = ''Distance'' then Inr [''0-30m'', ''30-50m'', ''50m-inf'']
      else if difficulty_mode = ''Overall'' then Inr [''overall'']
      else if difficulty_mode = ''Overall&Distance''
        then Inr [''overall'', ''0-30m'', ''30-50m'', ''50m-inf'']
      else Inl NotImplementedError)"

text \<open>\<^verbatim>\<open>'%-12s' % s\<close>: the string, padded with spaces on the right to the width.\<close>

definition ljust :: "nat \<Rightarrow> string \<Rightarrow> string" where
  "ljust width s = s @ replicate (width - length s) (CHR '' '')"

text \<open>\<^verbatim>\<open>str(n)\<close> of a natural number.\<close>

fun str_nat :: "nat \<Rightarrow> string" where
  "str_nat n =
     (if n < 10 then [''0123456789'' ! n]
      else str_nat (n div 10) @ [''0123456789'' ! (n mod 10)])"

declare str_nat.simps [simp del]

definition newline :: string where
  "newline = [CHR 0x0A]"

text \<open>
  Lines 123 to 146. The dictionary is an association list in insertion order: an
  assignment to a key that is present keeps the key's place (\<open>AList.update\<close>). The
  format \<^verbatim>\<open>%-12.2f\<close> of a float is the parameter \<open>fmt2f\<close>, padded by \<open>ljust\<close>.
  The state of the loops is \<^verbatim>\<open>(ret_str, ret_dict)\<close>.
\<close>

type_synonym report = "string \<times> (string \<times> npfloat) list"

definition report_cell ::
  "(npfloat \<Rightarrow> string) \<Rightarrow> string list \<Rightarrow> string \<Rightarrow> (nat \<Rightarrow> npfloat) \<Rightarrow> nat \<Rightarrow> report \<Rightarrow> report"
  where
  "report_cell fmt2f difficulty_types row_name ap_row diff_idx s =
     (case s of (ret_str, ret_dict) \<Rightarrow>
        let diff_type = difficulty_types ! diff_idx;
            key = ''AP_'' @ row_name @ ''/'' @ diff_type;
            ap_score = ap_row diff_idx
        in (ret_str @ ljust 12 (fmt2f ap_score) @ ''|'', AList.update key ap_score ret_dict))"

definition report_class ::
  "(npfloat \<Rightarrow> string) \<Rightarrow> string list \<Rightarrow> string list \<Rightarrow> npfloat list list \<Rightarrow> nat \<Rightarrow> report
     \<Rightarrow> report" where
  "report_class fmt2f difficulty_types classes AP cls_idx s =
     (case s of (ret_str, ret_dict) \<Rightarrow>
        let cur_class = classes ! cls_idx;
            s1 = (ret_str @ ''|'' @ ljust 12 cur_class @ ''|'', ret_dict);
            s2 = fold (report_cell fmt2f difficulty_types cur_class (\<lambda>diff_idx. AP ! cls_idx ! diff_idx))
                   [0..<length difficulty_types] s1
        in (fst s2 @ newline, snd s2))"

text \<open>\<^verbatim>\<open>np.mean(AP, axis=0)\<close>: nan for every difficulty when there is no class.\<close>

definition mean_AP :: "npfloat list list \<Rightarrow> nat \<Rightarrow> npfloat" where
  "mean_AP AP diff_idx =
     (if AP = [] then NaN
      else np_div_pos (fold (\<lambda>row m. np_add m (row ! diff_idx)) AP (Fin 0)) (real (length AP)))"

definition make_report ::
  "(npfloat \<Rightarrow> string) \<Rightarrow> nat \<Rightarrow> string list \<Rightarrow> string list \<Rightarrow> npfloat list list \<Rightarrow> report" where
  "make_report fmt2f num_pr_points difficulty_types classes AP =
     (let ret_str0 = newline @ ''|AP@'' @ ljust 9 (str_nat num_pr_points) @ ''|'';
          ret_str1 = fold (\<lambda>diff_type ret_str. ret_str @ ljust 12 diff_type @ ''|'')
                       difficulty_types ret_str0 @ newline;
          s2 = fold (report_class fmt2f difficulty_types classes AP) [0..<length classes]
                 (ret_str1, []);
          s3 = (fst s2 @ ''|'' @ ljust 12 ''mAP'' @ ''|'', snd s2);
          s4 = fold (report_cell fmt2f difficulty_types ''mean'' (mean_AP AP))
                 [0..<length difficulty_types] s3
      in (fst s4 @ newline, snd s4))"

section \<open>get_evaluation_results\<close>

text \<open>
  The arrays \<^verbatim>\<open>precision\<close> and \<^verbatim>\<open>recall\<close>, as the rows of every class and difficulty.
  A class without an IoU threshold raises KeyError.
\<close>

definition evaluate_curves ::
  "eval_utils \<Rightarrow> anno list \<Rightarrow> anno list \<Rightarrow> npfloat ndarray2 list \<Rightarrow> string \<Rightarrow> nat \<Rightarrow> bool
     \<Rightarrow> (string \<Rightarrow> real option) \<Rightarrow> nat \<Rightarrow> string list
     \<Rightarrow> py_error + (npfloat list \<times> npfloat list) list list" where
  "evaluate_curves eu gt_annos pred_annos ious difficulty_mode num_difficulties use_superclass
       iou_thresholds num_pr_points classes =
     emap (\<lambda>cur_class.
             case iou_thresholds cur_class of
               None \<Rightarrow> Inl KeyError
             | Some iou_threshold \<Rightarrow>
                 emap (\<lambda>diff_idx.
                         eval_class_diff eu gt_annos pred_annos ious difficulty_mode diff_idx
                           cur_class use_superclass iou_threshold num_pr_points)
                   [0..<num_difficulties])
       classes"

text \<open>
  Lines 36 to 121: the evaluated classes, the difficulty types and the array \<^verbatim>\<open>AP\<close>
  with a row per class and a cell per difficulty. \<^verbatim>\<open>AP / num_pr_points\<close> divides the
  integer 0 by \<^verbatim>\<open>num_pr_points\<close> when that is 0, which raises ZeroDivisionError.
\<close>

definition evaluation_AP ::
  "eval_utils \<Rightarrow> (bev \<Rightarrow> bev \<Rightarrow> real) \<Rightarrow> anno list \<Rightarrow> anno list \<Rightarrow> string list \<Rightarrow> bool
     \<Rightarrow> (string \<Rightarrow> real option) option \<Rightarrow> nat \<Rightarrow> string \<Rightarrow> bool \<Rightarrow> nat
     \<Rightarrow> py_error + (string list \<times> string list \<times> npfloat list list)" where
  "evaluation_AP eu inter2d gt_annos pred_annos classes0 use_superclass iou_thresholds0
       num_pr_points difficulty_mode ap_with_heading num_parts =
     (let iou_thresholds =
            (case iou_thresholds0 of
               None \<Rightarrow> if use_superclass then map_of superclass_iou_threshold_dict
                        else map_of iou_threshold_dict
             | Some d \<Rightarrow> d)
      in if length gt_annos \<noteq> length pred_annos then Inl AssertionError
         else if difficulty_mode \<notin> set [''Overall&Distance'', ''Overall'', ''Distance'']
           then Inl AssertionError
         else
           case effective_classes use_superclass classes0 of
             Inl e \<Rightarrow> Inl e
           | Inr classes \<Rightarrow>
               (case compute_split_parts eu (length gt_annos) num_parts of
                  Inl e \<Rightarrow> Inl e
                | Inr split_parts \<Rightarrow>
                    (case compute_iou3d inter2d gt_annos pred_annos split_parts ap_with_heading of
                       Inl e \<Rightarrow> Inl e
                     | Inr ious \<Rightarrow>
                         (case difficulty_types_of difficulty_mode of
                            Inl e \<Rightarrow> Inl e
                          | Inr difficulty_types \<Rightarrow>
                              (case evaluate_curves eu gt_annos pred_annos ious difficulty_mode
                                      (length difficulty_types) use_superclass iou_thresholds
                                      num_pr_points classes of
                                 Inl e \<Rightarrow> Inl e
                               | Inr curves \<Rightarrow>
                                   if num_pr_points = 0 then Inl ZeroDivisionError
                                   else Inr (classes, difficulty_types,
                                             map (map (\<lambda>(precision, recall).
                                                         ap_of_row num_pr_points precision))
                                               curves))))))"

text \<open>The function returns the report text and the dictionary of the metrics.\<close>

definition get_evaluation_results ::
  "eval_utils \<Rightarrow> (bev \<Rightarrow> bev \<Rightarrow> real) \<Rightarrow> (npfloat \<Rightarrow> string) \<Rightarrow> anno list \<Rightarrow> anno list
     \<Rightarrow> string list \<Rightarrow> bool \<Rightarrow> (string \<Rightarrow> real option) option \<Rightarrow> nat \<Rightarrow> string \<Rightarrow> bool \<Rightarrow> nat
     \<Rightarrow> py_error + report" where
  "get_evaluation_results eu inter2d fmt2f gt_annos pred_annos classes0 use_superclass
       iou_thresholds0 num_pr_points difficulty_mode ap_with_heading num_parts =
     (case evaluation_AP eu inter2d gt_annos pred_annos classes0 use_superclass iou_thresholds0
             num_pr_points difficulty_mode ap_with_heading num_parts of
        Inl e \<Rightarrow> Inl e
      | Inr (classes, difficulty_types, AP) \<Rightarrow>
          Inr (make_report fmt2f num_pr_points difficulty_types classes AP))"

section \<open>Notions used in the statements and proofs\<close>

text \<open>
  The invariant of both greedy loops after the ground-truth boxes below \<open>n\<close>:
  \<open>assigned\<close> holds exactly the predictions of the pairs, and the pairs are one-to-one.
\<close>

definition match_inv :: "nat \<Rightarrow> nat \<Rightarrow> bool list \<Rightarrow> (nat \<times> nat) list \<Rightarrow> bool" where
  "match_inv num_pred n assigned pairs \<longleftrightarrow>
     length assigned = num_pred
     \<and> (\<forall>j<num_pred. assigned ! j \<longleftrightarrow> j \<in> snd ` set pairs)
     \<and> (\<forall>p\<in>set pairs. fst p < n \<and> snd p < num_pred)
     \<and> distinct (map fst pairs) \<and> distinct (map snd pairs)"

text \<open>What the counters of \<^verbatim>\<open>compute_statistics\<close> hold after the boxes below \<open>n\<close>.\<close>

definition stat_inv ::
  "npfloat ndarray2 \<Rightarrow> int list \<Rightarrow> int list \<Rightarrow> bool list \<Rightarrow> real \<Rightarrow> nat \<Rightarrow> stat_state \<Rightarrow> bool"
  where
  "stat_inv iou gt_flag pred_flag under_threshold iou_threshold n st \<longleftrightarrow>
     stat_tp st = length (filter (\<lambda>p. gt_flag ! fst p \<noteq> 1 \<and> pred_flag ! snd p \<noteq> 1) (stat_pairs st))
     \<and> stat_fn st = length (filter (\<lambda>i. gt_flag ! i = 0 \<and> i \<notin> fst ` set (stat_pairs st)) [0..<n])
     \<and> (\<forall>p\<in>set (stat_pairs st). fst p < n \<and> gt_flag ! fst p \<noteq> - 1 \<and> pred_flag ! snd p \<noteq> - 1
           \<and> \<not> under_threshold ! snd p
           \<and> np_greater (cell_at iou (fst p) (snd p)) (Fin iou_threshold))"

text \<open>The pairs assigned by the two passes.\<close>

definition stat_matches ::
  "npfloat ndarray2 \<Rightarrow> real list \<Rightarrow> int list \<Rightarrow> int list \<Rightarrow> real \<Rightarrow> real \<Rightarrow> (nat \<times> nat) list"
  where
  "stat_matches iou pred_scores gt_flag pred_flag score_threshold iou_threshold =
     stat_pairs (stat_loop iou pred_scores gt_flag pred_flag score_threshold iou_threshold)"

definition acc_matches ::
  "npfloat ndarray2 \<Rightarrow> real list \<Rightarrow> int list \<Rightarrow> int list \<Rightarrow> real \<Rightarrow> (nat \<times> nat) list" where
  "acc_matches iou pred_scores gt_flag pred_flag iou_threshold =
     acc_pairs (acc_loop iou pred_scores gt_flag pred_flag iou_threshold)"


text \<open>
  The raw precision and recall of a row \<^verbatim>\<open>(tp, fp, fn)\<close> of the confusion matrix, as a
  float and, where the divisor is not 0, as a real number; and \<^verbatim>\<open>np.max\<close> of a
  non-empty array.
\<close>

definition raw_precision :: "nat \<times> nat \<times> nat \<Rightarrow> npfloat" where
  "raw_precision row = (case row of (tp, fp, fn) \<Rightarrow> np_divide (real tp) (real tp + real fp))"

definition raw_recall :: "nat \<times> nat \<times> nat \<Rightarrow> npfloat" where
  "raw_recall row = (case row of (tp, fp, fn) \<Rightarrow> np_divide (real tp) (real tp + real fn))"

definition np_max_of :: "npfloat list \<Rightarrow> npfloat" where
  "np_max_of xs = fold (\<lambda>y m. np_maximum m y) (tl xs) (hd xs)"

definition precision_of :: "nat \<times> nat \<times> nat \<Rightarrow> real" where
  "precision_of row = (case row of (tp, fp, fn) \<Rightarrow> real tp / (real tp + real fp))"

definition recall_of :: "nat \<times> nat \<times> nat \<Rightarrow> real" where
  "recall_of row = (case row of (tp, fp, fn) \<Rightarrow> real tp / (real tp + real fn))"

definition envelope_of :: "real list \<Rightarrow> nat \<Rightarrow> npfloat list" where
  "envelope_of vals k =
     map (\<lambda>i. Fin (Max (set (drop i vals)))) [0..<length vals] @ replicate k (Fin 0)"

text \<open>
  The IoU array of one sample on its own; an annotation is well formed when it has one
  name per box; a list of part sizes is valid for a number of samples when the parts
  are positive and add up to it.
\<close>

definition kernel_of :: "(bev \<Rightarrow> bev \<Rightarrow> real) \<Rightarrow> bool \<Rightarrow> box list \<Rightarrow> box list \<Rightarrow> npfloat ndarray2" where
  "kernel_of inter2d with_heading gt_boxes pred_boxes =
     (if with_heading then iou3d_kernel_with_heading inter2d gt_boxes pred_boxes
      else iou3d_kernel inter2d gt_boxes pred_boxes)"

definition sample_iou :: "(bev \<Rightarrow> bev \<Rightarrow> real) \<Rightarrow> bool \<Rightarrow> anno \<Rightarrow> anno \<Rightarrow> npfloat ndarray2" where
  "sample_iou inter2d with_heading gt_anno pred_anno =
     kernel_of inter2d with_heading (anno_boxes_3d gt_anno) (anno_boxes_3d pred_anno)"

definition well_formed :: "anno \<Rightarrow> bool" where
  "well_formed a \<longleftrightarrow> length (anno_name a) = length (anno_boxes_3d a)"

definition valid_parts :: "nat \<Rightarrow> nat list \<Rightarrow> bool" where
  "valid_parts num_samples split_parts \<longleftrightarrow>
     (\<forall>m\<in>set split_parts. 0 < m) \<and> sum_list split_parts = num_samples"

text \<open>
  The evaluation of a class and a difficulty as a function of the list of the samples,
  a sample being the triple of its ground truth, its predictions and its IoU array:
  \<open>sample_pass\<close> is the first pass over a sample (the flags and the scores of the
  matched predictions), \<open>sample_stats\<close> the counts of a sample at a score threshold,
  \<open>sum_counts\<close> the sum of the counts, and \<open>eval_samples\<close> the precision and recall
  curves. \<open>sample_of\<close> is the triple of the sample at an index.
\<close>

definition sample_pass ::
  "eval_utils \<Rightarrow> string \<Rightarrow> nat \<Rightarrow> string \<Rightarrow> bool \<Rightarrow> real \<Rightarrow> anno \<times> anno \<times> npfloat ndarray2
     \<Rightarrow> py_error + (int list \<times> int list \<times> real list)" where
  "sample_pass eu difficulty_mode diff_idx cur_class use_superclass iou_threshold t =
     (case t of (gt_anno, pred_anno, iou) \<Rightarrow>
        case filter_data eu gt_anno pred_anno difficulty_mode diff_idx cur_class use_superclass of
          Inl e \<Rightarrow> Inl e
        | Inr (gt_flag, pred_flag) \<Rightarrow>
            Inr (gt_flag, pred_flag,
                 accumulate_scores iou (anno_score pred_anno) gt_flag pred_flag iou_threshold))"

definition sample_stats ::
  "real \<Rightarrow> real \<Rightarrow> (anno \<times> anno \<times> npfloat ndarray2) \<times> (int list \<times> int list \<times> real list)
     \<Rightarrow> nat \<times> nat \<times> nat" where
  "sample_stats iou_threshold score_th tf =
     (case tf of ((gt_anno, pred_anno, iou), (gt_flag, pred_flag, sc)) \<Rightarrow>
        compute_statistics iou (anno_score pred_anno) gt_flag pred_flag score_th iou_threshold)"

definition sum_counts :: "(nat \<times> nat \<times> nat) list \<Rightarrow> nat \<times> nat \<times> nat" where
  "sum_counts xs =
     (sum_list (map fst xs), sum_list (map (\<lambda>x. fst (snd x)) xs),
      sum_list (map (\<lambda>x. snd (snd x)) xs))"

definition triples ::
  "anno list \<Rightarrow> anno list \<Rightarrow> npfloat ndarray2 list \<Rightarrow> (anno \<times> anno \<times> npfloat ndarray2) list" where
  "triples gt_annos pred_annos ious =
     map (\<lambda>k. (gt_annos ! k, pred_annos ! k, ious ! k)) [0..<length gt_annos]"

definition eval_samples ::
  "eval_utils \<Rightarrow> string \<Rightarrow> nat \<Rightarrow> string \<Rightarrow> bool \<Rightarrow> real \<Rightarrow> nat
     \<Rightarrow> (anno \<times> anno \<times> npfloat ndarray2) list \<Rightarrow> py_error + (npfloat list \<times> npfloat list)" where
  "eval_samples eu difficulty_mode diff_idx cur_class use_superclass iou_threshold num_pr_points T =
     (case emap (sample_pass eu difficulty_mode diff_idx cur_class use_superclass iou_threshold) T of
        Inl e \<Rightarrow> Inl e
      | Inr flags \<Rightarrow>
          (case np_concatenate (map (\<lambda>(gt_flag, pred_flag, sc). sc) flags) of
             Inl e \<Rightarrow> Inl e
           | Inr all_scores \<Rightarrow>
               (case get_thresholds all_scores
                       (sum_list (map (\<lambda>(gt_flag, pred_flag, sc). count_valid gt_flag) flags))
                       num_pr_points of
                  Inl e \<Rightarrow> Inl e
                | Inr thresholds \<Rightarrow>
                    pr_curve num_pr_points
                      (map (\<lambda>score_th. sum_counts (map (sample_stats iou_threshold score_th)
                                                    (zip T flags)))
                         thresholds))))"

definition sample_of ::
  "(bev \<Rightarrow> bev \<Rightarrow> real) \<Rightarrow> bool \<Rightarrow> anno list \<Rightarrow> anno list \<Rightarrow> nat \<Rightarrow> anno \<times> anno \<times> npfloat ndarray2"
  where
  "sample_of inter2d with_heading gt_annos pred_annos k =
     (gt_annos ! k, pred_annos ! k,
      sample_iou inter2d with_heading (gt_annos ! k) (pred_annos ! k))"

text \<open>
  The report in closed form. \<open>report_text\<close> is the header line with a column per
  difficulty type, a row per class and the row of the mean; \<open>report_entries\<close> are the
  pairs of a key and a score in the order of the assignments to the dictionary, and
  \<open>report_keys\<close> their keys. \<open>update_all\<close> assigns a list of pairs to a dictionary one
  after the other, and \<open>first_occurrences\<close> is the order in which keys end up in a
  dictionary that was empty: a key assigned again keeps its place.
\<close>

definition report_header :: "nat \<Rightarrow> string list \<Rightarrow> string" where
  "report_header num_pr_points difficulty_types =
     newline @ ''|AP@'' @ ljust 9 (str_nat num_pr_points) @ ''|''
     @ concat (map (\<lambda>diff_type. ljust 12 diff_type @ ''|'') difficulty_types) @ newline"

definition report_row :: "(npfloat \<Rightarrow> string) \<Rightarrow> string \<Rightarrow> npfloat list \<Rightarrow> string" where
  "report_row fmt2f label scores =
     ''|'' @ ljust 12 label @ ''|''
     @ concat (map (\<lambda>ap_score. ljust 12 (fmt2f ap_score) @ ''|'') scores) @ newline"

definition report_text ::
  "(npfloat \<Rightarrow> string) \<Rightarrow> nat \<Rightarrow> string list \<Rightarrow> string list \<Rightarrow> npfloat list list \<Rightarrow> string" where
  "report_text fmt2f num_pr_points difficulty_types classes AP =
     report_header num_pr_points difficulty_types
     @ concat (map (\<lambda>cls_idx. report_row fmt2f (classes ! cls_idx)
                      (map (\<lambda>diff_idx. AP ! cls_idx ! diff_idx) [0..<length difficulty_types]))
                 [0..<length classes])
     @ report_row fmt2f ''mAP'' (map (mean_AP AP) [0..<length difficulty_types])"

definition report_key :: "string \<Rightarrow> string \<Rightarrow> string" where
  "report_key row_name diff_type = ''AP_'' @ row_name @ ''/'' @ diff_type"

definition report_keys :: "string list \<Rightarrow> string list \<Rightarrow> string list" where
  "report_keys classes difficulty_types =
     concat (map (\<lambda>cur_class. map (report_key cur_class) difficulty_types) classes)
     @ map (report_key ''mean'') difficulty_types"

definition row_entries :: "string list \<Rightarrow> string \<Rightarrow> (nat \<Rightarrow> npfloat) \<Rightarrow> (string \<times> npfloat) list" where
  "row_entries difficulty_types row_name ap_row =
     map (\<lambda>diff_idx. (report_key row_name (difficulty_types ! diff_idx), ap_row diff_idx))
       [0..<length difficulty_types]"

definition report_entries ::
  "string list \<Rightarrow> string list \<Rightarrow> npfloat list list \<Rightarrow> (string \<times> npfloat) list" where
  "report_entries classes difficulty_types AP =
     concat (map (\<lambda>cls_idx. row_entries difficulty_types (classes ! cls_idx)
                                (\<lambda>diff_idx. AP ! cls_idx ! diff_idx))
                 [0..<length classes])
     @ row_entries difficulty_types ''mean'' (mean_AP AP)"

definition insert_key :: "'k \<Rightarrow> 'k list \<Rightarrow> 'k list" where
  "insert_key k ks = (if k \<in> set ks then ks else ks @ [k])"

definition first_occurrences :: "'k list \<Rightarrow> 'k list" where
  "first_occurrences ks = fold insert_key ks []"

definition update_all :: "('k \<times> 'v) list \<Rightarrow> ('k \<times> 'v) list \<Rightarrow> ('k \<times> 'v) list" where
  "update_all kvs al = fold (\<lambda>kv. AList.update (fst kv) (snd kv)) kvs al"

text \<open>
  The IoU thresholds in force (lines 36 to 40): the argument, or the dictionary of the
  superclasses or of the classes when it is \<^verbatim>\<open>None\<close>.
\<close>

definition thresholds_of :: "bool \<Rightarrow> (string \<Rightarrow> real option) option \<Rightarrow> string \<Rightarrow> real option" where
  "thresholds_of use_superclass iou_thresholds0 =
     (case iou_thresholds0 of
        None \<Rightarrow> if use_superclass then map_of superclass_iou_threshold_dict
                 else map_of iou_threshold_dict
      | Some d \<Rightarrow> d)"

section \<open>Concrete inputs\<close>





text \<open>
  A sample with two ground-truth boxes and two predictions, unit cubes in a row along
  x: the ground truth at 2/3 and 0, the predictions at 1/3 (score 1/2) and 1 (score
  9/10). \<open>iou_ex\<close> is the IoU array of the sample. The filters of \<open>eu_ex\<close> ignore
  the boxes beyond x = 1/2, so the first ground-truth box and the second prediction are
  flagged 1; its \<open>compute_split_parts\<close> cuts the samples into \<^verbatim>\<open>num_parts\<close> equal parts
  and a remainder. \<open>inter_axis\<close> is the intersection area of two rectangles whose sides
  lie along the axes.
\<close>

definition ped :: "real \<Rightarrow> box" where
  "ped x0 = \<lparr>box_x = x0, box_y = 0, box_z = 0, box_w = 1, box_l = 1, box_h = 1, box_rot = 0\<rparr>"

definition gt_ex :: anno where
  "gt_ex = \<lparr>anno_name = [''Pedestrian'', ''Pedestrian''], anno_boxes_3d = [ped (2 / 3), ped 0],
             anno_score = []\<rparr>"

definition pred_ex :: anno where
  "pred_ex = \<lparr>anno_name = [''Pedestrian'', ''Pedestrian''], anno_boxes_3d = [ped (1 / 3), ped 1],
               anno_score = [1 / 2, 9 / 10]\<rparr>"

definition iou_ex :: "npfloat ndarray2" where
  "iou_ex = Array2 2 [[Fin (1 / 2), Fin (1 / 2)], [Fin (1 / 2), Fin 0]]"

definition inter_axis :: "bev \<Rightarrow> bev \<Rightarrow> real" where
  "inter_axis a b =
     (case a of (xa, ya, wa, la, ra) \<Rightarrow>
      case b of (xb, yb, wb, lb, rb) \<Rightarrow>
        max 0 (min (xa + wa / 2) (xb + wb / 2) - max (xa - wa / 2) (xb - wb / 2))
        * max 0 (min (ya + la / 2) (yb + lb / 2) - max (ya - la / 2) (yb - lb / 2)))"

definition split_parts_ex :: "nat \<Rightarrow> nat \<Rightarrow> py_error + nat list" where
  "split_parts_ex num_samples num_parts =
     (if num_parts = 0 then Inl ZeroDivisionError
      else
        let part_samples = num_samples div num_parts;
            remain_samples = num_samples mod num_parts
        in if part_samples = 0 then Inr [num_samples]
           else if remain_samples = 0 then Inr (replicate num_parts part_samples)
           else Inr (replicate num_parts part_samples @ [remain_samples]))"

definition eu_ex :: eval_utils where
  "eu_ex =
     \<lparr>overall_filter = (\<lambda>boxes. map (\<lambda>b. 1 / 2 < box_x b) boxes),
      distance_filter = (\<lambda>boxes level. map (\<lambda>b. 1 / 2 < box_x b) boxes),
      overall_distance_filter = (\<lambda>boxes level. map (\<lambda>b. 1 / 2 < box_x b) boxes),
      compute_split_parts = split_parts_ex\<rparr>"

text \<open>
  A second sample: one ground-truth box and one prediction, both at 0, the prediction
  with score 4/5; \<open>iou_near\<close> is its IoU array.
\<close>

definition gt_near :: anno where
  "gt_near = \<lparr>anno_name = [''Pedestrian''], anno_boxes_3d = [ped 0], anno_score = []\<rparr>"

definition pred_near :: anno where
  "pred_near = \<lparr>anno_name = [''Pedestrian''], anno_boxes_3d = [ped 0], anno_score = [4 / 5]\<rparr>"

definition iou_near :: "npfloat ndarray2" where
  "iou_near = Array2 1 [[Fin 1]]"
section \<open>Properties of the loops\<close>

lemma efold_append:
  "efold f (xs @ ys) s = (case efold f xs s of Inl e \<Rightarrow> Inl e | Inr s' \<Rightarrow> efold f ys s')"
  by (induction xs arbitrary: s) (auto split: sum.splits)

lemma efold_upt_Suc:
  "efold f [0..<Suc n] s = (case efold f [0..<n] s of Inl e \<Rightarrow> Inl e | Inr s' \<Rightarrow> f n s')"
  by (simp add: efold_append split: sum.splits)

lemma emap_all_ok:
  assumes "\<forall>x\<in>set xs. \<exists>y. f x = Inr y \<and> Q x y"
  shows "\<exists>ys. emap f xs = Inr ys \<and> length ys = length xs \<and> (\<forall>k<length xs. Q (xs ! k) (ys ! k))"
  using assms
proof (induction xs)
  case Nil
  show ?case by simp
next
  case (Cons x xs)
  then obtain y where y: "f x = Inr y" "Q x y" by auto
  from Cons obtain ys where ys: "emap f xs = Inr ys" "length ys = length xs"
    "\<forall>k<length xs. Q (xs ! k) (ys ! k)" by auto
  have "\<forall>k<length (x # xs). Q ((x # xs) ! k) ((y # ys) ! k)"
    using y(2) ys(3) by (auto simp: nth_Cons split: nat.splits)
  then show ?case
    using y(1) ys(1,2) by auto
qed

lemma emap_nth:
  assumes "emap f xs = Inr ys"
  shows "length ys = length xs \<and> (\<forall>k<length xs. f (xs ! k) = Inr (ys ! k))"
  using assms
proof (induction xs arbitrary: ys)
  case Nil
  then show ?case by simp
next
  case (Cons x xs)
  then obtain y ys' where y: "f x = Inr y" and ys': "emap f xs = Inr ys'" and eq: "ys = y # ys'"
    by (auto split: sum.splits)
  from Cons.IH [OF ys'] have "length ys' = length xs" "\<forall>k<length xs. f (xs ! k) = Inr (ys' ! k)"
    by simp_all
  then show ?case
    using y eq by (auto simp: nth_Cons split: nat.splits)
qed

section \<open>Properties of the kernels\<close>












text \<open>
  For yaw angles that differ by at most a full turn, \<open>diff_rot\<close> is the difference
  wrapped to \<open>[0, \<pi>]\<close>: the distance of the two headings on the circle.
\<close>

lemma diff_rot_range:
  assumes "\<bar>box_rot g - box_rot p\<bar> \<le> 2 * pi"
  shows "0 \<le> diff_rot g p \<and> diff_rot g p \<le> pi"
  using assms by (auto simp: diff_rot_def Let_def)






section \<open>Properties of the greedy matching\<close>

lemma match_inv_init: "match_inv num_pred 0 (replicate num_pred False) []"
  by (simp add: match_inv_def)

lemma match_inv_skip: "match_inv num_pred n assigned pairs \<Longrightarrow> match_inv num_pred (Suc n) assigned pairs"
  by (auto simp: match_inv_def)

lemma match_inv_assign:
  assumes inv: "match_inv num_pred n assigned pairs"
    and d: "d < num_pred" and free: "\<not> assigned ! d"
  shows "match_inv num_pred (Suc n) (assigned[d := True]) (pairs @ [(n, d)])"
proof -
  from inv d free have notin: "d \<notin> snd ` set pairs"
    by (simp add: match_inv_def)
  from inv have lt: "\<forall>p\<in>set pairs. fst p < n"
    by (simp add: match_inv_def)
  then have n_new: "n \<notin> fst ` set pairs"
    by auto
  have len: "length (assigned[d := True]) = num_pred"
    using inv by (simp add: match_inv_def)
  have iff: "\<forall>j<num_pred. (assigned[d := True]) ! j \<longleftrightarrow> j \<in> snd ` set (pairs @ [(n, d)])"
    using inv d by (auto simp: match_inv_def nth_list_update)
  have bounds: "\<forall>p\<in>set (pairs @ [(n, d)]). fst p < Suc n \<and> snd p < num_pred"
    using inv d by (auto simp: match_inv_def less_Suc_eq)
  have d1: "distinct (map fst (pairs @ [(n, d)]))"
    using inv n_new by (simp add: match_inv_def)
  have d2: "distinct (map snd (pairs @ [(n, d)]))"
    using inv notin by (simp add: match_inv_def)
  show ?thesis
    unfolding match_inv_def using len iff bounds d1 d2 by blast
qed

lemma acc_inner_inv:
  "case acc_inner iou pred_scores pred_flag assigned iou_threshold i of
     (det_idx, detected_score) \<Rightarrow>
       (detected_score = - 1 \<and> det_idx = - 1)
       \<or> (- 1 < detected_score \<and> 0 \<le> det_idx \<and> nat det_idx < shape1 iou
            \<and> \<not> assigned ! nat det_idx)"
  unfolding acc_inner_def
proof (rule fold_invariant [where Q = "\<lambda>j. j < shape1 iou"], goal_cases)
  case (1 j)
  then show ?case by simp
next
  case 2
  show ?case by simp
next
  case (3 j s)
  then show ?case
    by (cases s) (auto simp: acc_inner_step_def Let_def)
qed

lemma acc_step_inv:
  assumes "match_inv (shape1 iou) n (acc_assigned st) (acc_pairs st)"
  shows "match_inv (shape1 iou) (Suc n)
           (acc_assigned (acc_step iou pred_scores gt_flag pred_flag iou_threshold n st))
           (acc_pairs (acc_step iou pred_scores gt_flag pred_flag iou_threshold n st))"
proof -
  obtain d sc where r: "acc_inner iou pred_scores pred_flag (acc_assigned st) iou_threshold n = (d, sc)"
    by (cases "acc_inner iou pred_scores pred_flag (acc_assigned st) iou_threshold n")
  from acc_inner_inv [where iou = iou and pred_scores = pred_scores and pred_flag = pred_flag
      and assigned = "acc_assigned st" and iou_threshold = iou_threshold and i = n] r
  have c: "(sc = - 1 \<and> d = - 1) \<or> (- 1 < sc \<and> 0 \<le> d \<and> nat d < shape1 iou \<and> \<not> acc_assigned st ! nat d)"
    by simp
  show ?thesis
  proof (cases "sc = - 1")
    case True
    then show ?thesis
      using assms r by (auto simp: acc_step_def intro: match_inv_skip)
  next
    case False
    with c have "nat d < shape1 iou" "\<not> acc_assigned st ! nat d" by auto
    from match_inv_assign [OF assms this] False r show ?thesis
      using assms by (auto simp: acc_step_def intro: match_inv_skip)
  qed
qed

lemma acc_loop_inv_upto:
  "n \<le> shape0 iou \<Longrightarrow>
   match_inv (shape1 iou) n
     (acc_assigned (fold (acc_step iou pred_scores gt_flag pred_flag iou_threshold) [0..<n] (acc_init iou)))
     (acc_pairs (fold (acc_step iou pred_scores gt_flag pred_flag iou_threshold) [0..<n] (acc_init iou)))"
proof (induction n)
  case 0
  show ?case by (simp add: acc_init_def match_inv_init)
next
  case (Suc n)
  then show ?case by (simp add: acc_step_inv)
qed

lemma acc_loop_inv:
  "match_inv (shape1 iou) (shape0 iou)
     (acc_assigned (acc_loop iou pred_scores gt_flag pred_flag iou_threshold))
     (acc_pairs (acc_loop iou pred_scores gt_flag pred_flag iou_threshold))"
  unfolding acc_loop_def by (rule acc_loop_inv_upto) simp

lemma stat_inner_inv:
  "case stat_inner iou pred_flag assigned under_threshold iou_threshold i of
     (det_idx, detected, best_matched_iou, gt_assigned_to_ignore) \<Rightarrow>
       detected \<longrightarrow> 0 \<le> det_idx \<and> nat det_idx < shape1 iou \<and> \<not> assigned ! nat det_idx
         \<and> \<not> under_threshold ! nat det_idx \<and> pred_flag ! nat det_idx \<noteq> - 1
         \<and> np_greater (cell_at iou i (nat det_idx)) (Fin iou_threshold)"
  unfolding stat_inner_def
proof (rule fold_invariant [where Q = "\<lambda>j. j < shape1 iou"], goal_cases)
  case (1 j)
  then show ?case by simp
next
  case 2
  show ?case by simp
next
  case (3 j s)
  then show ?case
    by (cases s) (auto simp: stat_inner_step_def Let_def)
qed

lemma stat_step_inv:
  assumes "match_inv (shape1 iou) n (stat_assigned st) (stat_pairs st)"
  shows "match_inv (shape1 iou) (Suc n)
           (stat_assigned (stat_step iou gt_flag pred_flag under_th iou_threshold n st))
           (stat_pairs (stat_step iou gt_flag pred_flag under_th iou_threshold n st))"
proof -
  obtain d det b g where r:
    "stat_inner iou pred_flag (stat_assigned st) under_th iou_threshold n = (d, det, b, g)"
    by (cases "stat_inner iou pred_flag (stat_assigned st) under_th iou_threshold n")
  from stat_inner_inv [where iou = iou and pred_flag = pred_flag and assigned = "stat_assigned st"
      and under_threshold = under_th and iou_threshold = iou_threshold and i = n] r
  have c: "det \<longrightarrow> nat d < shape1 iou \<and> \<not> stat_assigned st ! nat d"
    by simp
  show ?thesis
  proof (cases det)
    case False
    then show ?thesis
      using assms r by (auto simp: stat_step_def intro: match_inv_skip)
  next
    case True
    with c have "nat d < shape1 iou" "\<not> stat_assigned st ! nat d" by auto
    from match_inv_assign [OF assms this] True r show ?thesis
      using assms by (auto simp: stat_step_def intro: match_inv_skip)
  qed
qed

lemma stat_loop_inv_upto:
  "match_inv (shape1 iou) n
     (stat_assigned (fold (stat_step iou gt_flag pred_flag under_th iou_threshold) [0..<n] (stat_init iou)))
     (stat_pairs (fold (stat_step iou gt_flag pred_flag under_th iou_threshold) [0..<n] (stat_init iou)))"
proof (induction n)
  case 0
  show ?case by (simp add: stat_init_def match_inv_init)
next
  case (Suc n)
  then show ?case by (simp add: stat_step_inv)
qed

lemma stat_loop_inv:
  "match_inv (shape1 iou) (shape0 iou)
     (stat_assigned (stat_loop iou pred_scores gt_flag pred_flag score_threshold iou_threshold))
     (stat_pairs (stat_loop iou pred_scores gt_flag pred_flag score_threshold iou_threshold))"
  unfolding stat_loop_def by (rule stat_loop_inv_upto)

lemma stat_inv_init: "stat_inv iou gt_flag pred_flag under_th iou_threshold 0 (stat_init iou)"
  by (simp add: stat_inv_def stat_init_def)

lemma filter_unmatched_append:
  assumes "\<forall>p\<in>set pairs. fst p < n"
  shows "filter (\<lambda>i. gt_flag ! i = (0::int) \<and> i \<notin> fst ` set (pairs @ [(n, d)])) [0..<n]
       = filter (\<lambda>i. gt_flag ! i = 0 \<and> i \<notin> fst ` set pairs) [0..<n]"
  by (rule filter_cong) auto

lemma stat_step_counts:
  assumes inv: "stat_inv iou gt_flag pred_flag under_th iou_threshold n st"
  shows "stat_inv iou gt_flag pred_flag under_th iou_threshold (Suc n)
           (stat_step iou gt_flag pred_flag under_th iou_threshold n st)"
proof -
  obtain d det b g where r:
    "stat_inner iou pred_flag (stat_assigned st) under_th iou_threshold n = (d, det, b, g)"
    by (cases "stat_inner iou pred_flag (stat_assigned st) under_th iou_threshold n")
  from stat_inner_inv [where iou = iou and pred_flag = pred_flag and assigned = "stat_assigned st"
      and under_threshold = under_th and iou_threshold = iou_threshold and i = n] r
  have c: "det \<longrightarrow> \<not> under_th ! nat d \<and> pred_flag ! nat d \<noteq> - 1
      \<and> np_greater (cell_at iou n (nat d)) (Fin iou_threshold)"
    by simp
  from inv have lt: "\<forall>p\<in>set (stat_pairs st). fst p < n"
    by (simp add: stat_inv_def)
  then have fresh: "n \<notin> fst ` set (stat_pairs st)"
    by auto
  note app = filter_unmatched_append [OF lt]
  show ?thesis
  proof (cases "gt_flag ! n = - 1")
    case True
    then show ?thesis
      using inv by (auto simp: stat_step_def stat_inv_def less_Suc_eq)
  next
    case rej: False
    show ?thesis
    proof (cases det)
      case False
      then show ?thesis
        using inv r rej fresh by (auto simp: stat_step_def stat_inv_def less_Suc_eq)
    next
      case True
      with c have c': "\<not> under_th ! nat d" "pred_flag ! nat d \<noteq> - 1"
        "np_greater (cell_at iou n (nat d)) (Fin iou_threshold)" by auto
      show ?thesis
        using inv r rej True c' app by (auto simp: stat_step_def stat_inv_def less_Suc_eq)
    qed
  qed
qed

lemma stat_loop_counts_upto:
  "stat_inv iou gt_flag pred_flag under_th iou_threshold n
     (fold (stat_step iou gt_flag pred_flag under_th iou_threshold) [0..<n] (stat_init iou))"
proof (induction n)
  case 0
  show ?case by (simp add: stat_inv_init)
next
  case (Suc n)
  then show ?case by (simp add: stat_step_counts)
qed

lemma stat_loop_counts:
  "stat_inv iou gt_flag pred_flag (map (\<lambda>s. s < score_threshold) pred_scores) iou_threshold (shape0 iou)
     (stat_loop iou pred_scores gt_flag pred_flag score_threshold iou_threshold)"
  unfolding stat_loop_def by (rule stat_loop_counts_upto)

lemma count_fp_filter:
  "count_fp num_pred assigned pred_flag under_th
     = length (filter (counts_as_fp assigned pred_flag under_th) [0..<num_pred])"
  unfolding count_fp_def by (induction num_pred) simp_all

text \<open>
  Claim C6. In \<^verbatim>\<open>compute_statistics\<close>, for flags among \<open>-1\<close>, 0 and 1 and one score per
  prediction: \<^verbatim>\<open>fp\<close> counts exactly the predictions that are unassigned, flagged accepted
  and have a score at or above the threshold, so a prediction that is rejected, ignored,
  below the threshold or assigned to a ground-truth box is never a false positive;
  \<^verbatim>\<open>tp\<close> counts the matched pairs whose ground truth and prediction are both flagged
  accepted, and \<^verbatim>\<open>fn\<close> the accepted ground-truth boxes without a match, so a ground
  truth matched to an ignored prediction is counted in neither. Every matched pair has an
  IoU above the IoU threshold and a prediction at or above the score threshold, and no
  rejected box takes part in it.
\<close>

theorem compute_statistics_counts:
  assumes len: "length pred_scores = shape1 iou"
    and pf: "\<forall>j<shape1 iou. pred_flag ! j \<in> {- 1, 0, 1}"
    and gf: "\<forall>i<shape0 iou. gt_flag ! i \<in> {- 1, 0, 1}"
  shows "compute_statistics iou pred_scores gt_flag pred_flag score_threshold iou_threshold =
      (length (filter (\<lambda>p. gt_flag ! fst p = 0 \<and> pred_flag ! snd p = 0)
          (stat_matches iou pred_scores gt_flag pred_flag score_threshold iou_threshold)),
       length (filter (\<lambda>j. j \<notin> snd ` set (stat_matches iou pred_scores gt_flag pred_flag
                                          score_threshold iou_threshold)
                        \<and> pred_flag ! j = 0 \<and> score_threshold \<le> pred_scores ! j)
          [0..<shape1 iou]),
       length (filter (\<lambda>i. gt_flag ! i = 0
                        \<and> i \<notin> fst ` set (stat_matches iou pred_scores gt_flag pred_flag
                                            score_threshold iou_threshold))
          [0..<shape0 iou]))
    \<and> (\<forall>p\<in>set (stat_matches iou pred_scores gt_flag pred_flag score_threshold iou_threshold).
          fst p < shape0 iou \<and> snd p < shape1 iou
          \<and> gt_flag ! fst p \<noteq> - 1 \<and> pred_flag ! snd p \<noteq> - 1
          \<and> score_threshold \<le> pred_scores ! snd p
          \<and> np_greater (cell_at iou (fst p) (snd p)) (Fin iou_threshold))"
proof -
  let ?st = "stat_loop iou pred_scores gt_flag pred_flag score_threshold iou_threshold"
  let ?pairs = "stat_matches iou pred_scores gt_flag pred_flag score_threshold iou_threshold"
  let ?under = "map (\<lambda>s. s < score_threshold) pred_scores"
  have pairs: "stat_pairs ?st = ?pairs"
    by (simp add: stat_matches_def)
  have m: "match_inv (shape1 iou) (shape0 iou) (stat_assigned ?st) ?pairs"
    using stat_loop_inv [of iou pred_scores gt_flag pred_flag score_threshold iou_threshold]
    by (simp add: pairs)
  have c: "stat_inv iou gt_flag pred_flag ?under iou_threshold (shape0 iou) ?st"
    by (rule stat_loop_counts)
  have bounds: "\<forall>p\<in>set ?pairs. fst p < shape0 iou \<and> snd p < shape1 iou"
    using m by (simp add: match_inv_def)
  have props: "\<forall>p\<in>set ?pairs. gt_flag ! fst p \<noteq> - 1 \<and> pred_flag ! snd p \<noteq> - 1
      \<and> \<not> ?under ! snd p \<and> np_greater (cell_at iou (fst p) (snd p)) (Fin iou_threshold)"
    using c by (simp add: stat_inv_def pairs)
  have tp: "stat_tp ?st = length (filter (\<lambda>p. gt_flag ! fst p = 0 \<and> pred_flag ! snd p = 0) ?pairs)"
  proof -
    have "filter (\<lambda>p. gt_flag ! fst p \<noteq> 1 \<and> pred_flag ! snd p \<noteq> 1) ?pairs
        = filter (\<lambda>p. gt_flag ! fst p = 0 \<and> pred_flag ! snd p = 0) ?pairs"
    proof (rule filter_cong [OF refl])
      fix p assume p: "p \<in> set ?pairs"
      with bounds props have "gt_flag ! fst p \<noteq> - 1" "pred_flag ! snd p \<noteq> - 1"
        "fst p < shape0 iou" "snd p < shape1 iou" by auto
      with pf gf have "gt_flag ! fst p \<in> {0, 1}" "pred_flag ! snd p \<in> {0, 1}"
        by auto
      then show "(gt_flag ! fst p \<noteq> 1 \<and> pred_flag ! snd p \<noteq> 1)
          = (gt_flag ! fst p = 0 \<and> pred_flag ! snd p = 0)"
        by auto
    qed
    then show ?thesis using c by (simp add: stat_inv_def pairs)
  qed
  have fn: "stat_fn ?st = length (filter (\<lambda>i. gt_flag ! i = 0 \<and> i \<notin> fst ` set ?pairs)
      [0..<shape0 iou])"
    using c by (simp add: stat_inv_def pairs)
  have fp: "count_fp (shape1 iou) (stat_assigned ?st) pred_flag ?under
      = length (filter (\<lambda>j. j \<notin> snd ` set ?pairs \<and> pred_flag ! j = 0
                          \<and> score_threshold \<le> pred_scores ! j) [0..<shape1 iou])"
  proof -
    have "filter (counts_as_fp (stat_assigned ?st) pred_flag ?under) [0..<shape1 iou]
        = filter (\<lambda>j. j \<notin> snd ` set ?pairs \<and> pred_flag ! j = 0
                          \<and> score_threshold \<le> pred_scores ! j) [0..<shape1 iou]"
    proof (rule filter_cong [OF refl])
      fix j assume "j \<in> set [0..<shape1 iou]"
      then have j: "j < shape1 iou" by simp
      with m have a: "stat_assigned ?st ! j \<longleftrightarrow> j \<in> snd ` set ?pairs"
        by (simp add: match_inv_def)
      from j len have u: "?under ! j \<longleftrightarrow> pred_scores ! j < score_threshold"
        by simp
      from j pf have f: "pred_flag ! j \<in> {- 1, 0, 1}" by simp
      show "counts_as_fp (stat_assigned ?st) pred_flag ?under j
          = (j \<notin> snd ` set ?pairs \<and> pred_flag ! j = 0 \<and> score_threshold \<le> pred_scores ! j)"
        unfolding counts_as_fp_def a u using f by auto
    qed
    then show ?thesis by (simp add: count_fp_filter)
  qed
  have scores: "\<forall>p\<in>set ?pairs. score_threshold \<le> pred_scores ! snd p"
  proof
    fix p assume p: "p \<in> set ?pairs"
    with bounds have "snd p < shape1 iou" by simp
    with len have "?under ! snd p \<longleftrightarrow> pred_scores ! snd p < score_threshold" by simp
    with props p show "score_threshold \<le> pred_scores ! snd p" by auto
  qed
  have first: "compute_statistics iou pred_scores gt_flag pred_flag score_threshold iou_threshold =
      (length (filter (\<lambda>p. gt_flag ! fst p = 0 \<and> pred_flag ! snd p = 0) ?pairs),
       length (filter (\<lambda>j. j \<notin> snd ` set ?pairs \<and> pred_flag ! j = 0
                        \<and> score_threshold \<le> pred_scores ! j) [0..<shape1 iou]),
       length (filter (\<lambda>i. gt_flag ! i = 0 \<and> i \<notin> fst ` set ?pairs) [0..<shape0 iou]))"
    unfolding compute_statistics_def Let_def tp fn fp ..
  show ?thesis
    using first bounds props scores by blast
qed

theorem compute_statistics_counts_witness:
  "compute_statistics iou_ex [1 / 2, 9 / 10] [1, 0] [0, 1] (1 / 2) (3 / 10) = (0, 0, 1)
   \<and> stat_matches iou_ex [1 / 2, 9 / 10] [1, 0] [0, 1] (1 / 2) (3 / 10) = [(0, 0)]
   \<and> compute_statistics iou_ex [1 / 2, 9 / 10] [1, 0] [0, 1] (1 / 2) (3 / 10) =
      (length (filter (\<lambda>p. [1, 0 :: int] ! fst p = 0 \<and> [0, 1 :: int] ! snd p = 0)
          (stat_matches iou_ex [1 / 2, 9 / 10] [1, 0] [0, 1] (1 / 2) (3 / 10))),
       length (filter (\<lambda>j. j \<notin> snd ` set (stat_matches iou_ex [1 / 2, 9 / 10] [1, 0] [0, 1]
                                          (1 / 2) (3 / 10))
                        \<and> [0, 1 :: int] ! j = 0 \<and> 1 / 2 \<le> [1 / 2, 9 / 10 :: real] ! j)
          [0..<shape1 iou_ex]),
       length (filter (\<lambda>i. [1, 0 :: int] ! i = 0
                        \<and> i \<notin> fst ` set (stat_matches iou_ex [1 / 2, 9 / 10] [1, 0] [0, 1]
                                            (1 / 2) (3 / 10)))
          [0..<shape0 iou_ex]))"
proof (intro conjI)
  show "compute_statistics iou_ex [1 / 2, 9 / 10] [1, 0] [0, 1] (1 / 2) (3 / 10) = (0, 0, 1)"
    by code_simp
  show "stat_matches iou_ex [1 / 2, 9 / 10] [1, 0] [0, 1] (1 / 2) (3 / 10) = [(0, 0)]"
    by code_simp
  have len: "length [1 / 2, 9 / 10 :: real] = shape1 iou_ex"
    by (simp add: iou_ex_def)
  have pf: "\<forall>j<shape1 iou_ex. [0, 1 :: int] ! j \<in> {- 1, 0, 1}"
    by (auto simp: iou_ex_def dest!: less_2_cases)
  have gf: "\<forall>i<shape0 iou_ex. [1, 0 :: int] ! i \<in> {- 1, 0, 1}"
    by (auto simp: iou_ex_def shape0_def less_Suc_eq)
  from compute_statistics_counts [OF len pf gf, of "1 / 2" "3 / 10"]
  show "compute_statistics iou_ex [1 / 2, 9 / 10] [1, 0] [0, 1] (1 / 2) (3 / 10) =
      (length (filter (\<lambda>p. [1, 0 :: int] ! fst p = 0 \<and> [0, 1 :: int] ! snd p = 0)
          (stat_matches iou_ex [1 / 2, 9 / 10] [1, 0] [0, 1] (1 / 2) (3 / 10))),
       length (filter (\<lambda>j. j \<notin> snd ` set (stat_matches iou_ex [1 / 2, 9 / 10] [1, 0] [0, 1]
                                          (1 / 2) (3 / 10))
                        \<and> [0, 1 :: int] ! j = 0 \<and> 1 / 2 \<le> [1 / 2, 9 / 10 :: real] ! j)
          [0..<shape1 iou_ex]),
       length (filter (\<lambda>i. [1, 0 :: int] ! i = 0
                        \<and> i \<notin> fst ` set (stat_matches iou_ex [1 / 2, 9 / 10] [1, 0] [0, 1]
                                            (1 / 2) (3 / 10)))
          [0..<shape0 iou_ex]))"
    by (rule conjunct1)
qed

text \<open>
  Claim C7. In both greedy passes, \<^verbatim>\<open>accumulate_scores\<close> and \<^verbatim>\<open>compute_statistics\<close> at
  any score threshold, the pairs \<^verbatim>\<open>(i, det_idx)\<close> that the pass assigns are one-to-one:
  no ground-truth box occurs in two pairs and no prediction occurs in two pairs; and
  \<^verbatim>\<open>assigned\<close> holds exactly the predictions of these pairs.
\<close>

theorem greedy_matching_one_to_one:
  "distinct (map fst (acc_matches iou pred_scores gt_flag pred_flag iou_threshold))
   \<and> distinct (map snd (acc_matches iou pred_scores gt_flag pred_flag iou_threshold))
   \<and> (\<forall>j<shape1 iou.
          acc_assigned (acc_loop iou pred_scores gt_flag pred_flag iou_threshold) ! j
          \<longleftrightarrow> j \<in> snd ` set (acc_matches iou pred_scores gt_flag pred_flag iou_threshold))
   \<and> distinct (map fst (stat_matches iou pred_scores gt_flag pred_flag score_threshold iou_threshold))
   \<and> distinct (map snd (stat_matches iou pred_scores gt_flag pred_flag score_threshold iou_threshold))
   \<and> (\<forall>j<shape1 iou.
          stat_assigned (stat_loop iou pred_scores gt_flag pred_flag score_threshold iou_threshold) ! j
          \<longleftrightarrow> j \<in> snd ` set (stat_matches iou pred_scores gt_flag pred_flag
                                    score_threshold iou_threshold))"
proof -
  have a: "match_inv (shape1 iou) (shape0 iou)
      (acc_assigned (acc_loop iou pred_scores gt_flag pred_flag iou_threshold))
      (acc_matches iou pred_scores gt_flag pred_flag iou_threshold)"
    unfolding acc_matches_def by (rule acc_loop_inv)
  have s: "match_inv (shape1 iou) (shape0 iou)
      (stat_assigned (stat_loop iou pred_scores gt_flag pred_flag score_threshold iou_threshold))
      (stat_matches iou pred_scores gt_flag pred_flag score_threshold iou_threshold)"
    unfolding stat_matches_def by (rule stat_loop_inv)
  show ?thesis
    using a s unfolding match_inv_def by blast
qed

theorem greedy_matching_one_to_one_witness:
  "acc_matches iou_ex [1 / 2, 9 / 10] [1, 0] [0, 1] (3 / 10) = [(0, 1), (1, 0)]
   \<and> stat_matches iou_ex [1 / 2, 9 / 10] [1, 0] [0, 1] (1 / 2) (3 / 10) = [(0, 0)]
   \<and> distinct (map snd (acc_matches iou_ex [1 / 2, 9 / 10] [1, 0] [0, 1] (3 / 10)))
   \<and> distinct (map snd (stat_matches iou_ex [1 / 2, 9 / 10] [1, 0] [0, 1] (1 / 2) (3 / 10)))"
proof (intro conjI)
  show "acc_matches iou_ex [1 / 2, 9 / 10] [1, 0] [0, 1] (3 / 10) = [(0, 1), (1, 0)]"
    by code_simp
  show "stat_matches iou_ex [1 / 2, 9 / 10] [1, 0] [0, 1] (1 / 2) (3 / 10) = [(0, 0)]"
    by code_simp
  show "distinct (map snd (acc_matches iou_ex [1 / 2, 9 / 10] [1, 0] [0, 1] (3 / 10)))"
    using greedy_matching_one_to_one [of iou_ex "[1 / 2, 9 / 10]" "[1, 0]" "[0, 1]" "3 / 10" "1 / 2"]
    by (elim conjE)
  show "distinct (map snd (stat_matches iou_ex [1 / 2, 9 / 10] [1, 0] [0, 1] (1 / 2) (3 / 10)))"
    using greedy_matching_one_to_one [of iou_ex "[1 / 2, 9 / 10]" "[1, 0]" "[0, 1]" "3 / 10" "1 / 2"]
    by (elim conjE)
qed

text \<open>Without an accepted ground-truth box, \<^verbatim>\<open>accumulate_scores\<close> returns no score.\<close>

lemma acc_step_idx_unchanged:
  assumes "gt_flag ! i = - 1 \<or> gt_flag ! i = 1"
  shows "accum_idx (acc_step iou pred_scores gt_flag pred_flag iou_threshold i st) = accum_idx st"
  using assms by (auto simp: acc_step_def split: prod.splits)

lemma acc_loop_idx_zero:
  assumes "\<forall>i<shape0 iou. gt_flag ! i = - 1 \<or> gt_flag ! i = 1"
  shows "n \<le> shape0 iou \<Longrightarrow>
    accum_idx (fold (acc_step iou pred_scores gt_flag pred_flag iou_threshold) [0..<n] (acc_init iou)) = 0"
proof (induction n)
  case 0
  show ?case by (simp add: acc_init_def)
next
  case (Suc n)
  then have "gt_flag ! n = - 1 \<or> gt_flag ! n = 1"
    using assms by simp
  then show ?case
    using Suc by (simp add: acc_step_idx_unchanged)
qed

lemma accumulate_scores_none_accepted:
  assumes len: "length gt_flag = shape0 iou" and valid: "set gt_flag \<subseteq> {- 1, 0, 1}"
    and none: "0 \<notin> set gt_flag"
  shows "accumulate_scores iou pred_scores gt_flag pred_flag iou_threshold = []"
proof -
  have "\<forall>i<shape0 iou. gt_flag ! i = - 1 \<or> gt_flag ! i = 1"
  proof (intro allI impI)
    fix i assume "i < shape0 iou"
    then have "gt_flag ! i \<in> set gt_flag" using len by simp
    with valid none show "gt_flag ! i = - 1 \<or> gt_flag ! i = 1" by auto
  qed
  from acc_loop_idx_zero [OF this, of "shape0 iou"] show ?thesis
    by (simp add: accumulate_scores_def acc_loop_def)
qed

section \<open>The IoU arrays do not depend on the parts\<close>

lemma concat_take_nth:
  assumes "k < length xss"
  shows "take (length (xss ! k)) (drop (length (concat (take k xss))) (concat xss)) = xss ! k"
    and "length (concat (take k xss)) + length (xss ! k) \<le> length (concat xss)"
proof -
  have "xss = take k xss @ xss ! k # drop (Suc k) xss"
    using assms by (rule id_take_nth_drop)
  then have c: "concat xss = concat (take k xss) @ xss ! k @ concat (drop (Suc k) xss)"
    by (metis concat.simps(2) concat_append)
  show "take (length (xss ! k)) (drop (length (concat (take k xss))) (concat xss)) = xss ! k"
    by (subst c) simp
  have "length (concat xss)
      = length (concat (take k xss)) + length (xss ! k) + length (concat (drop (Suc k) xss))"
    using arg_cong [OF c, of length] by simp
  then show "length (concat (take k xss)) + length (xss ! k) \<le> length (concat xss)"
    by simp
qed

lemma concat_take_Suc:
  assumes "k < length xss"
  shows "length (concat (take (Suc k) xss)) = length (concat (take k xss)) + length (xss ! k)"
  using assms by (simp add: take_Suc_conv_app_nth)

lemma array_slice_grid:
  assumes "b + m \<le> length ys"
  shows "array_slice (Array2 (length ys) (map (\<lambda>g. map (f g) ys) xs)) a (a + n) b (b + m)
       = Array2 (length (take m (drop b ys)))
           (map (\<lambda>g. map (f g) (take m (drop b ys))) (take n (drop a xs)))"
  using assms by (auto simp: array_slice_def py_slice_def take_map drop_map min_def)

lemma kernel_of_grid:
  "kernel_of inter2d with_heading xs ys =
     Array2 (length ys)
       (map (\<lambda>g. map (if with_heading then iou3d_heading_cell inter2d g else iou3d_cell inter2d g) ys) xs)"
  by (simp add: kernel_of_def iou3d_kernel_def iou3d_kernel_with_heading_def)

lemma kernel_slice:
  assumes k: "k < length G" and kp: "k < length Pb"
  shows "array_slice (kernel_of inter2d with_heading (concat G) (concat Pb))
           (length (concat (take k G))) (length (concat (take k G)) + length (G ! k))
           (length (concat (take k Pb))) (length (concat (take k Pb)) + length (Pb ! k))
         = kernel_of inter2d with_heading (G ! k) (Pb ! k)"
proof -
  let ?f = "\<lambda>g. if with_heading then iou3d_heading_cell inter2d g else iou3d_cell inter2d g"
  have "array_slice (Array2 (length (concat Pb)) (map (\<lambda>g. map (?f g) (concat Pb)) (concat G)))
           (length (concat (take k G))) (length (concat (take k G)) + length (G ! k))
           (length (concat (take k Pb))) (length (concat (take k Pb)) + length (Pb ! k))
      = Array2 (length (Pb ! k)) (map (\<lambda>g. map (?f g) (Pb ! k)) (G ! k))"
    using concat_take_nth [OF k] concat_take_nth [OF kp]
    by (simp only: array_slice_grid)
  then show ?thesis
    by (simp only: kernel_of_grid)
qed

lemma split_loop:
  fixes gt_annos pred_annos :: "anno list"
  assumes n: "length pred_annos = length gt_annos"
    and wf: "\<forall>a\<in>set gt_annos \<union> set pred_annos. well_formed a"
    and sm: "s + m \<le> length gt_annos"
  defines "G \<equiv> map anno_boxes_3d (take m (drop s gt_annos))"
    and "Pb \<equiv> map anno_boxes_3d (take m (drop s pred_annos))"
  shows "idx \<le> m \<Longrightarrow>
    efold (split_step (kernel_of inter2d with_heading (concat G) (concat Pb))
             (map (\<lambda>a. length (anno_name a)) gt_annos)
             (map (\<lambda>a. length (anno_name a)) pred_annos) s)
        [0..<idx] (ious, 0, 0)
      = Inr (ious @ map (\<lambda>k. sample_iou inter2d with_heading (gt_annos ! (s + k))
                                (pred_annos ! (s + k))) [0..<idx],
             length (concat (take idx G)), length (concat (take idx Pb)))"
proof (induction idx)
  case 0
  show ?case by simp
next
  case (Suc idx)
  let ?K = "kernel_of inter2d with_heading (concat G) (concat Pb)"
  let ?smp = "\<lambda>k. sample_iou inter2d with_heading (gt_annos ! (s + k)) (pred_annos ! (s + k))"
  have idx: "idx < m" using Suc.prems by simp
  then have in_g: "s + idx < length gt_annos" and in_p: "s + idx < length pred_annos"
    using sm n by simp_all
  have lenG: "length G = m" and lenP: "length Pb = m"
    using sm n by (simp_all add: G_def Pb_def)
  have Gk: "G ! idx = anno_boxes_3d (gt_annos ! (s + idx))"
    using idx sm by (simp add: G_def)
  have Pk: "Pb ! idx = anno_boxes_3d (pred_annos ! (s + idx))"
    using idx sm n by (simp add: Pb_def)
  have "well_formed (gt_annos ! (s + idx))" "well_formed (pred_annos ! (s + idx))"
    using wf in_g in_p by simp_all
  then have gnum: "length (anno_name (gt_annos ! (s + idx))) = length (G ! idx)"
    and pnum: "length (anno_name (pred_annos ! (s + idx))) = length (Pb ! idx)"
    by (simp_all add: well_formed_def Gk Pk)
  have run: "efold (split_step ?K (map (\<lambda>a. length (anno_name a)) gt_annos)
             (map (\<lambda>a. length (anno_name a)) pred_annos) s) [0..<idx] (ious, 0, 0)
      = Inr (ious @ map ?smp [0..<idx], length (concat (take idx G)), length (concat (take idx Pb)))"
    using Suc by simp
  have slice: "array_slice ?K (length (concat (take idx G)))
        (length (concat (take idx G)) + length (G ! idx))
        (length (concat (take idx Pb))) (length (concat (take idx Pb)) + length (Pb ! idx))
      = ?smp idx"
    unfolding sample_iou_def Gk [symmetric] Pk [symmetric]
    using idx lenG lenP by (intro kernel_slice) simp_all
  have step: "split_step ?K (map (\<lambda>a. length (anno_name a)) gt_annos)
        (map (\<lambda>a. length (anno_name a)) pred_annos) s idx
        (ious @ map ?smp [0..<idx], length (concat (take idx G)), length (concat (take idx Pb)))
      = Inr (ious @ map ?smp [0..<Suc idx], length (concat (take (Suc idx) G)),
             length (concat (take (Suc idx) Pb)))"
    using in_g in_p idx lenG lenP
    by (simp add: split_step_def Let_def gnum pnum slice concat_take_Suc)
  show ?case
    by (simp only: efold_upt_Suc run sum.case step)
qed

lemma part_step_ok:
  fixes gt_annos pred_annos :: "anno list"
  assumes n: "length pred_annos = length gt_annos"
    and wf: "\<forall>a\<in>set gt_annos \<union> set pred_annos. well_formed a"
    and sm: "s + m \<le> length gt_annos" and m: "0 < m"
  shows "part_step inter2d gt_annos pred_annos with_heading m (ious, s)
      = Inr (ious @ map (\<lambda>k. sample_iou inter2d with_heading (gt_annos ! k) (pred_annos ! k))
                      [s..<s + m], s + m)"
proof -
  have ne: "map anno_boxes_3d (take m (drop s gt_annos)) \<noteq> []"
    "map anno_boxes_3d (take m (drop s pred_annos)) \<noteq> []"
    using sm m n by auto
  have shift: "map (\<lambda>k. sample_iou inter2d with_heading (gt_annos ! (s + k)) (pred_annos ! (s + k)))
        [0..<m]
      = map (\<lambda>k. sample_iou inter2d with_heading (gt_annos ! k) (pred_annos ! k)) [s..<s + m]"
  proof -
    have "[s..<s + m] = map (\<lambda>i. i + s) [0..<m]"
      by (simp add: map_add_upt add.commute)
    then show ?thesis
      by (simp add: o_def add.commute)
  qed
  show ?thesis
    using ne split_loop [OF n wf sm, of m inter2d with_heading ious]
    by (simp add: part_step_def py_slice_def np_concatenate_def Let_def kernel_of_def shift
        split: if_splits)
qed

lemma parts_loop:
  fixes gt_annos pred_annos :: "anno list"
  assumes n: "length pred_annos = length gt_annos"
    and wf: "\<forall>a\<in>set gt_annos \<union> set pred_annos. well_formed a"
  shows "\<forall>m\<in>set parts. 0 < m \<Longrightarrow> s + sum_list parts \<le> length gt_annos \<Longrightarrow>
    efold (part_step inter2d gt_annos pred_annos with_heading) parts (ious, s)
      = Inr (ious @ map (\<lambda>k. sample_iou inter2d with_heading (gt_annos ! k) (pred_annos ! k))
                      [s..<s + sum_list parts], s + sum_list parts)"
proof (induction parts arbitrary: ious s)
  case Nil
  show ?case by simp
next
  case (Cons m parts)
  have sm: "s + m \<le> length gt_annos" and m: "0 < m"
    using Cons.prems by simp_all
  have rest: "(s + m) + sum_list parts \<le> length gt_annos"
    using Cons.prems by simp
  have pos: "\<forall>m\<in>set parts. 0 < m"
    using Cons.prems by simp
  have split: "[s..<s + (m + sum_list parts)] = [s..<s + m] @ [s + m..<s + m + sum_list parts]"
    by (metis add.assoc le_add1 upt_add_eq_append)
  show ?case
    by (simp add: part_step_ok [OF n wf sm m] Cons.IH [OF pos rest] split add.assoc)
qed

lemma compute_iou3d_per_sample:
  fixes gt_annos pred_annos :: "anno list"
  assumes n: "length pred_annos = length gt_annos" and ne: "gt_annos \<noteq> []"
    and wf: "\<forall>a\<in>set gt_annos \<union> set pred_annos. well_formed a"
    and pos: "\<forall>m\<in>set split_parts. 0 < m"
    and total: "sum_list split_parts = length gt_annos"
  shows "compute_iou3d inter2d gt_annos pred_annos split_parts with_heading
      = Inr (map (\<lambda>(g, p). sample_iou inter2d with_heading g p) (zip gt_annos pred_annos))"
proof -
  have "map (\<lambda>k. sample_iou inter2d with_heading (gt_annos ! k) (pred_annos ! k)) [0..<length gt_annos]
      = map (\<lambda>(g, p). sample_iou inter2d with_heading g p) (zip gt_annos pred_annos)"
    using n by (intro nth_equalityI) simp_all
  moreover have "pred_annos \<noteq> []" using n ne by auto
  ultimately show ?thesis
    using parts_loop [OF n wf pos, of 0 inter2d with_heading "[]"] total ne
    by (simp add: compute_iou3d_def)
qed

lemma compute_iou3d_any_parts:
  fixes gt_annos pred_annos :: "anno list"
  assumes n: "length pred_annos = length gt_annos"
    and wf: "\<forall>a\<in>set gt_annos \<union> set pred_annos. well_formed a"
    and v: "valid_parts (length gt_annos) split_parts"
  shows "compute_iou3d inter2d gt_annos pred_annos split_parts with_heading
      = (if gt_annos = [] then Inl ValueError
         else Inr (map (\<lambda>(g, p). sample_iou inter2d with_heading g p) (zip gt_annos pred_annos)))"
proof (cases "gt_annos = []")
  case True
  then show ?thesis by (simp add: compute_iou3d_def)
next
  case False
  then show ?thesis
    using compute_iou3d_per_sample [OF n False wf] v by (simp add: valid_parts_def)
qed

text \<open>
  Claim C5. For well-formed annotations and any two values of \<^verbatim>\<open>num_parts\<close> for which
  \<^verbatim>\<open>compute_split_parts\<close> returns positive part sizes that add up to the number of
  samples, \<^verbatim>\<open>compute_iou3d\<close> returns the same list of per-sample IoU arrays, and the
  evaluation returns the same \<^verbatim>\<open>AP\<close> array, report and dictionary (or the same error).
\<close>

theorem num_parts_do_not_matter:
  fixes gt_annos pred_annos :: "anno list"
  assumes n: "length pred_annos = length gt_annos"
    and wf: "\<forall>a\<in>set gt_annos \<union> set pred_annos. well_formed a"
    and p1: "compute_split_parts eu (length gt_annos) num_parts1 = Inr parts1"
    and v1: "valid_parts (length gt_annos) parts1"
    and p2: "compute_split_parts eu (length gt_annos) num_parts2 = Inr parts2"
    and v2: "valid_parts (length gt_annos) parts2"
  shows "compute_iou3d inter2d gt_annos pred_annos parts1 with_heading
           = compute_iou3d inter2d gt_annos pred_annos parts2 with_heading
     \<and> evaluation_AP eu inter2d gt_annos pred_annos classes use_superclass iou_thresholds
           num_pr_points difficulty_mode with_heading num_parts1
         = evaluation_AP eu inter2d gt_annos pred_annos classes use_superclass iou_thresholds
           num_pr_points difficulty_mode with_heading num_parts2
     \<and> get_evaluation_results eu inter2d fmt2f gt_annos pred_annos classes use_superclass
           iou_thresholds num_pr_points difficulty_mode with_heading num_parts1
         = get_evaluation_results eu inter2d fmt2f gt_annos pred_annos classes use_superclass
           iou_thresholds num_pr_points difficulty_mode with_heading num_parts2"
proof -
  have iou: "compute_iou3d inter2d gt_annos pred_annos parts1 with_heading
      = compute_iou3d inter2d gt_annos pred_annos parts2 with_heading"
    by (simp only: compute_iou3d_any_parts [OF n wf v1] compute_iou3d_any_parts [OF n wf v2])
  have ap: "evaluation_AP eu inter2d gt_annos pred_annos classes use_superclass iou_thresholds
           num_pr_points difficulty_mode with_heading num_parts1
         = evaluation_AP eu inter2d gt_annos pred_annos classes use_superclass iou_thresholds
           num_pr_points difficulty_mode with_heading num_parts2"
    unfolding evaluation_AP_def p1 p2 sum.case iou ..
  show ?thesis
    using iou ap by (simp add: get_evaluation_results_def)
qed

lemma not_pi_le_zero: "\<not> pi \<le> 0"
  using pi_gt_zero by (simp only: not_le)

lemma iou_of_example:
  "compute_iou3d inter_axis [gt_ex] [pred_ex] [1] with_heading = Inr [iou_ex]"
  by (simp add: compute_iou3d_def part_step_def split_step_def py_slice_def np_concatenate_def
      iou3d_kernel_with_heading_def iou3d_kernel_def iou3d_heading_cell_def iou3d_cell_def
      diff_rot_def inter_h_def array_slice_def np_divide_def bev_of_def inter_axis_def
      gt_ex_def pred_ex_def ped_def iou_ex_def Let_def not_pi_le_zero)

lemma sample_iou_example: "sample_iou inter_axis with_heading gt_ex pred_ex = iou_ex"
  by (simp add: sample_iou_def kernel_of_def
      iou3d_kernel_with_heading_def iou3d_kernel_def iou3d_heading_cell_def iou3d_cell_def
      diff_rot_def inter_h_def np_divide_def bev_of_def inter_axis_def
      gt_ex_def pred_ex_def ped_def iou_ex_def Let_def not_pi_le_zero)

theorem num_parts_do_not_matter_witness:
  "compute_split_parts eu_ex 2 1 = Inr [2] \<and> compute_split_parts eu_ex 2 2 = Inr [1, 1]
   \<and> compute_iou3d inter_axis [gt_ex, gt_ex] [pred_ex, pred_ex] [2] True
       = compute_iou3d inter_axis [gt_ex, gt_ex] [pred_ex, pred_ex] [1, 1] True
   \<and> compute_iou3d inter_axis [gt_ex, gt_ex] [pred_ex, pred_ex] [1, 1] True
       = Inr [iou_ex, iou_ex]
   \<and> evaluation_AP eu_ex inter_axis [gt_ex, gt_ex] [pred_ex, pred_ex] [''Pedestrian''] False None
         2 ''Overall'' True 1
       = evaluation_AP eu_ex inter_axis [gt_ex, gt_ex] [pred_ex, pred_ex] [''Pedestrian''] False None
         2 ''Overall'' True 2"
proof -
  let ?g = "[gt_ex, gt_ex]" and ?p = "[pred_ex, pred_ex]"
  have n: "length ?p = length ?g"
    by simp
  have wf: "\<forall>a\<in>set ?g \<union> set ?p. well_formed a"
    by (simp add: well_formed_def gt_ex_def pred_ex_def)
  have lg: "length ?g = 2"
    by simp
  have q1: "compute_split_parts eu_ex 2 1 = Inr [2]"
    by (simp add: eu_ex_def split_parts_ex_def)
  have q2: "compute_split_parts eu_ex 2 2 = Inr [1, 1]"
    by (simp add: eu_ex_def split_parts_ex_def numeral_2_eq_2)
  have p1: "compute_split_parts eu_ex (length ?g) 1 = Inr [2]"
    unfolding lg by (rule q1)
  have p2: "compute_split_parts eu_ex (length ?g) 2 = Inr [1, 1]"
    unfolding lg by (rule q2)
  have v1: "valid_parts (length ?g) [2]" and v2: "valid_parts (length ?g) [1, 1]"
    by (simp_all add: valid_parts_def)
  have val: "compute_iou3d inter_axis ?g ?p [1, 1] True = Inr [iou_ex, iou_ex]"
    using compute_iou3d_any_parts [OF n wf v2, of inter_axis True]
    by (simp add: sample_iou_example)
  from num_parts_do_not_matter [OF n wf p1 v1 p2 v2, of inter_axis True "[''Pedestrian'']" False
      None 2 "''Overall''" "\<lambda>x. []"]
  have "compute_iou3d inter_axis ?g ?p [2] True = compute_iou3d inter_axis ?g ?p [1, 1] True"
    and "evaluation_AP eu_ex inter_axis ?g ?p [''Pedestrian''] False None 2 ''Overall'' True 1
       = evaluation_AP eu_ex inter_axis ?g ?p [''Pedestrian''] False None 2 ''Overall'' True 2"
    by blast+
  with q1 q2 val show ?thesis
    by (intro conjI)
qed

section \<open>The precision and recall rows\<close>

lemma np_max_nonempty: "xs \<noteq> [] \<Longrightarrow> np_max xs = Inr (np_max_of xs)"
  by (cases xs) (simp_all add: np_max_def np_max_of_def)

lemma draw_step_ok:
  assumes "n < length p" "length r = length p"
  shows "draw_step cm n (p, r) = Inr (p[n := raw_precision (cm ! n)], r[n := raw_recall (cm ! n)])"
  using assms by (simp add: draw_step_def raw_precision_def raw_recall_def split: prod.splits)


lemma update_at_split:
  assumes "length xs = n" "n < length ys"
  shows "(xs @ drop n ys)[n := v] = (xs @ [v]) @ drop (Suc n) ys"
proof -
  have "drop n ys = ys ! n # drop (Suc n) ys"
    using assms(2) by (simp add: Cons_nth_drop_Suc)
  then show ?thesis
    using assms(1) by (simp add: list_update_append)
qed

lemma draw_rows:
  assumes "length r0 = length p0"
  shows "n \<le> length cm \<Longrightarrow> n \<le> length p0 \<Longrightarrow>
    efold (draw_step cm) [0..<n] (p0, r0)
      = Inr (map raw_precision (take n cm) @ drop n p0, map raw_recall (take n cm) @ drop n r0)"
proof (induction n)
  case 0
  show ?case by simp
next
  case (Suc n)
  let ?p = "map raw_precision (take n cm) @ drop n p0"
  let ?r = "map raw_recall (take n cm) @ drop n r0"
  from Suc have run: "efold (draw_step cm) [0..<n] (p0, r0) = Inr (?p, ?r)"
    by simp
  have n: "n < length p0" "n < length r0" "n < length cm"
    using Suc.prems assms by simp_all
  have lp: "n < length ?p" and lr: "length ?r = length ?p"
    using n assms by simp_all
  have tk: "take (Suc n) cm = take n cm @ [cm ! n]"
    using n by (simp add: take_Suc_conv_app_nth)
  have up: "?p[n := raw_precision (cm ! n)] = map raw_precision (take (Suc n) cm) @ drop (Suc n) p0"
    using n by (simp add: update_at_split tk)
  have ur: "?r[n := raw_recall (cm ! n)] = map raw_recall (take (Suc n) cm) @ drop (Suc n) r0"
    using n by (simp add: update_at_split tk)
  show ?case
    by (simp only: efold_upt_Suc run sum.case draw_step_ok [OF lp lr] up ur)
qed


lemma envelope_step_ok:
  assumes "n < length p" "n < length r"
  shows "envelope_step n (p, r) = Inr (p[n := np_max_of (drop n p)], r[n := np_max_of (drop n r)])"
  using assms by (simp add: envelope_step_def np_max_nonempty)

lemma envelope_rows:
  "n \<le> length p \<Longrightarrow> n \<le> length r \<Longrightarrow>
    efold envelope_step [0..<n] (p, r)
      = Inr (map (\<lambda>i. np_max_of (drop i p)) [0..<n] @ drop n p,
             map (\<lambda>i. np_max_of (drop i r)) [0..<n] @ drop n r)"
proof (induction n)
  case 0
  show ?case by simp
next
  case (Suc n)
  let ?p = "map (\<lambda>i. np_max_of (drop i p)) [0..<n] @ drop n p"
  let ?r = "map (\<lambda>i. np_max_of (drop i r)) [0..<n] @ drop n r"
  from Suc have run: "efold envelope_step [0..<n] (p, r) = Inr (?p, ?r)"
    by simp
  have n: "n < length p" "n < length r"
    using Suc.prems by simp_all
  have lp: "n < length ?p" and lr: "n < length ?r"
    using n by simp_all
  have dp: "drop n ?p = drop n p" and dr: "drop n ?r = drop n r"
    by simp_all
  have up: "?p[n := np_max_of (drop n p)]
      = map (\<lambda>i. np_max_of (drop i p)) [0..<Suc n] @ drop (Suc n) p"
    using n by (simp add: update_at_split)
  have ur: "?r[n := np_max_of (drop n r)]
      = map (\<lambda>i. np_max_of (drop i r)) [0..<Suc n] @ drop (Suc n) r"
    using n by (simp add: update_at_split)
  show ?case
    by (simp only: efold_upt_Suc run sum.case envelope_step_ok [OF lp lr] dp dr up ur)
qed

lemma pr_curve_rows:
  assumes "length cm \<le> P + 1"
  shows "pr_curve P cm =
     Inr (map (\<lambda>i. np_max_of (drop i (map raw_precision cm @ replicate (P + 1 - length cm) (Fin 0))))
            [0..<length cm] @ replicate (P + 1 - length cm) (Fin 0),
          map (\<lambda>i. np_max_of (drop i (map raw_recall cm @ replicate (P + 1 - length cm) (Fin 0))))
            [0..<length cm] @ replicate (P + 1 - length cm) (Fin 0))"
proof -
  let ?z = "replicate (P + 1) (Fin 0)"
  let ?k = "P + 1 - length cm"
  have d: "drop (length cm) ?z = replicate ?k (Fin 0)"
    by (simp only: drop_replicate)
  have draw: "efold (draw_step cm) [0..<length cm] (?z, ?z)
      = Inr (map raw_precision cm @ replicate ?k (Fin 0), map raw_recall cm @ replicate ?k (Fin 0))"
    using draw_rows [of ?z ?z "length cm" cm] assms by (simp only: d) simp
  have env: "efold envelope_step [0..<length cm]
        (map raw_precision cm @ replicate ?k (Fin 0), map raw_recall cm @ replicate ?k (Fin 0))
      = Inr (map (\<lambda>i. np_max_of (drop i (map raw_precision cm @ replicate ?k (Fin 0))))
               [0..<length cm] @ drop (length cm) (map raw_precision cm @ replicate ?k (Fin 0)),
             map (\<lambda>i. np_max_of (drop i (map raw_recall cm @ replicate ?k (Fin 0))))
               [0..<length cm] @ drop (length cm) (map raw_recall cm @ replicate ?k (Fin 0)))"
    by (rule envelope_rows) simp_all
  show ?thesis
    unfolding pr_curve_def draw sum.case env by simp
qed


lemma np_greater_equal_Fin: "np_greater_equal (Fin a) (Fin b) \<longleftrightarrow> b \<le> a"
  by auto

lemma np_maximum_Fin: "np_maximum (Fin a) (Fin b) = Fin (max a b)"
  by (simp add: np_maximum_def max_def)

lemma fold_np_maximum_Fin:
  "fold (\<lambda>y m. np_maximum m y) (map Fin ys) (Fin x) = Fin (fold max ys x)"
  by (induction ys arbitrary: x) (simp_all add: np_maximum_Fin max.commute)

lemma np_max_of_Fin: "xs \<noteq> [] \<Longrightarrow> np_max_of (map Fin xs) = Fin (Max (set xs))"
  by (cases xs) (simp_all add: np_max_of_def fold_np_maximum_Fin Max.set_eq_fold del: set_simps)

lemma Max_with_zero_padding:
  assumes "xs \<noteq> []" and "\<forall>x\<in>set xs. (0::real) \<le> x"
  shows "Max (set (xs @ replicate k 0)) = Max (set xs)"
proof (cases k)
  case 0
  then show ?thesis by simp
next
  case (Suc k')
  have "set (xs @ replicate k 0) = insert 0 (set xs)"
    using Suc by auto
  moreover have "0 \<le> Max (set xs)"
  proof -
    have "hd xs \<in> set xs" using assms(1) by simp
    then have "0 \<le> hd xs" "hd xs \<le> Max (set xs)" using assms(2) by simp_all
    then show ?thesis by linarith
  qed
  ultimately show ?thesis
    using assms(1) by (simp add: max_def)
qed

lemma raw_precision_finite:
  "0 < fst row + fst (snd row) \<Longrightarrow> raw_precision row = Fin (precision_of row)"
  by (cases row) (auto simp: raw_precision_def precision_of_def np_divide_def add_nonneg_eq_0_iff)

lemma raw_recall_finite:
  "0 < fst row + snd (snd row) \<Longrightarrow> raw_recall row = Fin (recall_of row)"
  by (cases row) (auto simp: raw_recall_def recall_of_def np_divide_def add_nonneg_eq_0_iff)

lemma precision_of_nonneg: "0 \<le> precision_of row"
  by (cases row) (simp add: precision_of_def)

lemma recall_of_nonneg: "0 \<le> recall_of row"
  by (cases row) (simp add: recall_of_def)

text \<open>The envelope of a row of finite, non-negative raw values followed by zeros.\<close>

lemma envelope_closed_form:
  assumes "\<forall>x\<in>set vals. 0 \<le> x"
  shows "map (\<lambda>i. np_max_of (drop i (map Fin vals @ replicate k (Fin 0)))) [0..<length vals]
           @ replicate k (Fin 0)
         = envelope_of vals k"
proof -
  have "np_max_of (drop i (map Fin vals @ replicate k (Fin 0))) = Fin (Max (set (drop i vals)))"
    if i: "i < length vals" for i
  proof -
    have ne: "drop i vals \<noteq> []" using i by simp
    have nn: "\<forall>x\<in>set (drop i vals). 0 \<le> x"
      using assms by (meson in_set_dropD)
    have "drop i (map Fin vals @ replicate k (Fin 0)) = map Fin (drop i vals @ replicate k 0)"
      using i by (simp add: drop_map)
    then have "np_max_of (drop i (map Fin vals @ replicate k (Fin 0)))
        = Fin (Max (set (drop i vals @ replicate k 0)))"
      using ne by (simp only: np_max_of_Fin append_is_Nil_conv simp_thms)
    then show ?thesis
      by (simp only: Max_with_zero_padding [OF ne nn])
  qed
  then show ?thesis
    by (simp add: envelope_of_def)
qed

lemma envelope_of_nth:
  "i < length vals \<Longrightarrow> envelope_of vals k ! i = Fin (Max (set (drop i vals)))"
  by (simp add: envelope_of_def nth_append)

lemma envelope_of_nth_pad:
  "length vals \<le> i \<Longrightarrow> i < length vals + k \<Longrightarrow> envelope_of vals k ! i = Fin 0"
  by (simp add: envelope_of_def nth_append)

lemma envelope_of_non_increasing:
  assumes nn: "\<forall>x\<in>set vals. 0 \<le> x" and ij: "i \<le> j" and j: "j < length vals + k"
  shows "np_greater_equal (envelope_of vals k ! i) (envelope_of vals k ! j)"
proof (cases "j < length vals")
  case True
  then have i: "i < length vals" using ij by simp
  have sub: "set (drop j vals) \<subseteq> set (drop i vals)"
    using ij by (rule set_drop_subset_set_drop)
  have "drop j vals \<noteq> []" using True by simp
  then have "Max (set (drop j vals)) \<le> Max (set (drop i vals))"
    using sub by (intro Max_mono) simp_all
  then have "np_greater_equal (Fin (Max (set (drop i vals)))) (Fin (Max (set (drop j vals))))"
    by (simp only: np_greater_equal_Fin)
  then show ?thesis
    by (simp only: envelope_of_nth [OF True] envelope_of_nth [OF i])
next
  case False
  then have pj: "envelope_of vals k ! j = Fin 0"
    using j by (simp add: envelope_of_nth_pad)
  show ?thesis
  proof (cases "i < length vals")
    case True
    then have "drop i vals \<noteq> []" by simp
    then obtain x where x: "x \<in> set (drop i vals)" by (cases "drop i vals") auto
    then have "0 \<le> x" using nn by (meson in_set_dropD)
    also have "x \<le> Max (set (drop i vals))" using x by simp
    finally have "np_greater_equal (Fin (Max (set (drop i vals)))) (Fin 0)"
      by (simp only: np_greater_equal_Fin)
    then show ?thesis
      by (simp only: envelope_of_nth [OF True] pj)
  next
    case False
    then have "envelope_of vals k ! i = Fin 0"
      using ij j by (simp add: envelope_of_nth_pad)
    then show ?thesis using pj by simp
  qed
qed

lemma pr_curve_finite:
  assumes len: "length cm \<le> P + 1"
    and pos: "\<forall>row\<in>set cm. 0 < fst row + fst (snd row) \<and> 0 < fst row + snd (snd row)"
  shows "pr_curve P cm =
     Inr (envelope_of (map precision_of cm) (P + 1 - length cm),
          envelope_of (map recall_of cm) (P + 1 - length cm))"
proof -
  have p: "map raw_precision cm = map Fin (map precision_of cm)"
    using pos by (simp add: raw_precision_finite)
  have r: "map raw_recall cm = map Fin (map recall_of cm)"
    using pos by (simp add: raw_recall_finite)
  have np: "\<forall>x\<in>set (map precision_of cm). 0 \<le> x"
    by (simp add: precision_of_nonneg)
  have nr: "\<forall>x\<in>set (map recall_of cm). 0 \<le> x"
    by (simp add: recall_of_nonneg)
  show ?thesis
    unfolding pr_curve_rows [OF len] p r
    using envelope_closed_form [OF np, of "P + 1 - length cm"]
      envelope_closed_form [OF nr, of "P + 1 - length cm"]
    by simp
qed

text \<open>
  Claim C3, as the code has it. For a class and difficulty whose thresholds fit the
  rows and whose confusion matrix has no threshold with \<^verbatim>\<open>tp + fp = 0\<close> or
  \<^verbatim>\<open>tp + fn = 0\<close>, after the envelope step every precision and every recall at a
  threshold index is the maximum of the raw values at this and all later threshold
  indices, and both rows are non-increasing over all their \<^verbatim>\<open>num_pr_points + 1\<close>
  cells.
\<close>

theorem envelope_is_running_maximum:
  assumes len: "length cm \<le> num_pr_points + 1"
    and pos: "\<forall>row\<in>set cm. 0 < fst row + fst (snd row) \<and> 0 < fst row + snd (snd row)"
  shows "\<exists>precision recall.
      pr_curve num_pr_points cm = Inr (precision, recall)
      \<and> length precision = num_pr_points + 1 \<and> length recall = num_pr_points + 1
      \<and> (\<forall>i<length cm.
            precision ! i = Fin (Max (precision_of ` set (drop i cm)))
            \<and> recall ! i = Fin (Max (recall_of ` set (drop i cm))))
      \<and> (\<forall>i j. i \<le> j \<and> j < num_pr_points + 1 \<longrightarrow>
            np_greater_equal (precision ! i) (precision ! j)
            \<and> np_greater_equal (recall ! i) (recall ! j))"
proof -
  let ?k = "num_pr_points + 1 - length cm"
  let ?p = "envelope_of (map precision_of cm) ?k"
  let ?r = "envelope_of (map recall_of cm) ?k"
  have run: "pr_curve num_pr_points cm = Inr (?p, ?r)"
    using len pos by (rule pr_curve_finite)
  have lens: "length ?p = num_pr_points + 1" "length ?r = num_pr_points + 1"
    using len by (simp_all add: envelope_of_def)
  have vals: "\<forall>i<length cm. ?p ! i = Fin (Max (precision_of ` set (drop i cm)))
      \<and> ?r ! i = Fin (Max (recall_of ` set (drop i cm)))"
    by (simp add: envelope_of_nth drop_map)
  have mono: "\<forall>i j. i \<le> j \<and> j < num_pr_points + 1 \<longrightarrow>
      np_greater_equal (?p ! i) (?p ! j) \<and> np_greater_equal (?r ! i) (?r ! j)"
  proof (intro allI impI)
    fix i j assume ij: "i \<le> j \<and> j < num_pr_points + 1"
    then have j: "j < length (map precision_of cm) + ?k" "j < length (map recall_of cm) + ?k"
      using len by simp_all
    have "np_greater_equal (?p ! i) (?p ! j)"
      using ij j(1) by (intro envelope_of_non_increasing) (simp_all add: precision_of_nonneg)
    moreover have "np_greater_equal (?r ! i) (?r ! j)"
      using ij j(2) by (intro envelope_of_non_increasing) (simp_all add: recall_of_nonneg)
    ultimately show "np_greater_equal (?p ! i) (?p ! j) \<and> np_greater_equal (?r ! i) (?r ! j)"
      by simp
  qed
  show ?thesis
    using run lens vals mono by blast
qed

theorem envelope_is_running_maximum_witness:
  "pr_curve 3 [(1, 0, 1), (3, 1, 1), (1, 1, 2)]
     = Inr ([Fin 1, Fin (3 / 4), Fin (1 / 2), Fin 0], [Fin (3 / 4), Fin (3 / 4), Fin (1 / 3), Fin 0])
   \<and> (\<exists>precision recall.
         pr_curve 3 [(1, 0, 1), (3, 1, 1), (1, 1, 2)] = Inr (precision, recall)
         \<and> precision ! 1 = Fin (Max (precision_of ` set (drop 1 [(1, 0, 1), (3, 1, 1), (1, 1, 2)])))
         \<and> np_greater_equal (recall ! 0) (recall ! 2))"
proof
  show "pr_curve 3 [(1, 0, 1), (3, 1, 1), (1, 1, 2)]
     = Inr ([Fin 1, Fin (3 / 4), Fin (1 / 2), Fin 0], [Fin (3 / 4), Fin (3 / 4), Fin (1 / 3), Fin 0])"
    by code_simp
next
  let ?cm = "[(1, 0, 1), (3, 1, 1), (1, 1, 2)] :: (nat \<times> nat \<times> nat) list"
  have len: "length ?cm \<le> 3 + 1"
    by simp
  have pos: "\<forall>row\<in>set ?cm. 0 < fst row + fst (snd row) \<and> 0 < fst row + snd (snd row)"
    by simp
  from envelope_is_running_maximum [OF len pos] obtain precision recall
    where r: "pr_curve 3 ?cm = Inr (precision, recall)"
      and v: "\<forall>i<length ?cm. precision ! i = Fin (Max (precision_of ` set (drop i ?cm)))
            \<and> recall ! i = Fin (Max (recall_of ` set (drop i ?cm)))"
      and m: "\<forall>i j. i \<le> j \<and> j < 3 + 1 \<longrightarrow>
            np_greater_equal (precision ! i) (precision ! j)
            \<and> np_greater_equal (recall ! i) (recall ! j)"
    by blast
  have "(1::nat) < length ?cm" by simp
  with v have "precision ! 1 = Fin (Max (precision_of ` set (drop 1 ?cm)))"
    by blast
  moreover have "(0::nat) \<le> 2 \<and> (2::nat) < 3 + 1" by simp
  with m have "np_greater_equal (recall ! 0) (recall ! 2)"
    by blast
  ultimately show "\<exists>precision recall.
         pr_curve 3 ?cm = Inr (precision, recall)
         \<and> precision ! 1 = Fin (Max (precision_of ` set (drop 1 ?cm)))
         \<and> np_greater_equal (recall ! 0) (recall ! 2)"
    using r by blast
qed

text \<open>
  The claim as stated, for every class and difficulty, fails where a threshold has
  \<^verbatim>\<open>tp + fp = 0\<close>. In the sample of \<open>gt_ex\<close> and \<open>pred_ex\<close>, for the class Pedestrian
  with the IoU threshold 0.3, \<^verbatim>\<open>accumulate_scores\<close> gives the ignored first ground-truth
  box the prediction of the higher score and finds the true positive of score 0.5 for
  the second box; at the threshold 0.5 \<^verbatim>\<open>compute_statistics\<close> gives the first box the
  prediction of the higher IoU among the accepted ones, which leaves no prediction for
  the second box: \<^verbatim>\<open>tp = 0\<close>, \<^verbatim>\<open>fp = 0\<close>, \<^verbatim>\<open>fn = 1\<close>. Line 109 divides 0 by 0, and
  every cell of the precision row is nan after the envelope step: nan is not the
  maximum of any numbers, and the row is not non-increasing, since no comparison with
  nan holds.
\<close>

theorem envelope_nan_counterexample:
  "compute_iou3d inter_axis [gt_ex] [pred_ex] [1] True = Inr [iou_ex]
   \<and> accumulate_scores iou_ex [1 / 2, 9 / 10] [1, 0] [0, 1] (3 / 10) = [1 / 2]
   \<and> compute_statistics iou_ex [1 / 2, 9 / 10] [1, 0] [0, 1] (1 / 2) (3 / 10) = (0, 0, 1)
   \<and> eval_class_diff eu_ex [gt_ex] [pred_ex] [iou_ex] ''Overall'' 0 ''Pedestrian'' False (3 / 10) 2
       = Inr ([NaN, NaN, NaN], [Fin 0, Fin 0, Fin 0])
   \<and> \<not> np_greater_equal NaN NaN"
proof (intro conjI)
  show "compute_iou3d inter_axis [gt_ex] [pred_ex] [1] True = Inr [iou_ex]"
    by (rule iou_of_example)
  show "accumulate_scores iou_ex [1 / 2, 9 / 10] [1, 0] [0, 1] (3 / 10) = [1 / 2]"
    by code_simp
  show "compute_statistics iou_ex [1 / 2, 9 / 10] [1, 0] [0, 1] (1 / 2) (3 / 10) = (0, 0, 1)"
    by code_simp
  show "eval_class_diff eu_ex [gt_ex] [pred_ex] [iou_ex] ''Overall'' 0 ''Pedestrian'' False (3 / 10) 2
       = Inr ([NaN, NaN, NaN], [Fin 0, Fin 0, Fin 0])"
    by code_simp
  show "\<not> np_greater_equal NaN NaN"
    by simp
qed

text \<open>The whole evaluation of this sample returns nan as the AP of the class.\<close>

lemma nan_curves:
  "evaluate_curves eu_ex [gt_ex] [pred_ex] [iou_ex] ''Overall'' 1 False (map_of iou_threshold_dict)
     2 [''Pedestrian'']
     = Inr [[([NaN, NaN, NaN], [Fin 0, Fin 0, Fin 0])]]"
  by code_simp

lemma nan_ap: "ap_of_row 2 [NaN, NaN, NaN] = NaN"
  by code_simp

lemma nan_report:
  "snd (make_report fmt2f 2 [''overall''] [''Pedestrian''] [[NaN]])
     = [(''AP_Pedestrian/overall'', NaN), (''AP_mean/overall'', NaN)]"
  by code_simp

lemma nan_end_to_end:
  "\<exists>ret_str. get_evaluation_results eu_ex inter_axis fmt2f [gt_ex] [pred_ex] [''Pedestrian'']
       False None 2 ''Overall'' True 100
     = Inr (ret_str, [(''AP_Pedestrian/overall'', NaN), (''AP_mean/overall'', NaN)])"
proof -
  have sp: "compute_split_parts eu_ex (Suc 0) 100 = Inr [1]"
    by (simp add: eu_ex_def split_parts_ex_def)
  have "get_evaluation_results eu_ex inter_axis fmt2f [gt_ex] [pred_ex] [''Pedestrian''] False None 2
     ''Overall'' True 100 = Inr (make_report fmt2f 2 [''overall''] [''Pedestrian''] [[NaN]])"
    by (simp add: get_evaluation_results_def evaluation_AP_def effective_classes_def sp
        iou_of_example [unfolded One_nat_def] difficulty_types_of_def
        nan_curves [unfolded One_nat_def] nan_ap)
  then show ?thesis
    using nan_report [of fmt2f] by (metis prod.collapse)
qed

section \<open>The number of thresholds\<close>








lemma get_thresholds_empty: "get_thresholds [] num_gt num_pr_points = Inr []"
  by (simp add: get_thresholds_def)





section \<open>A class and difficulty without accepted ground truth\<close>

lemma mask_assign_valid:
  assumes "mask_assign flag msk v = Inr flag'"
  shows "length flag' = length flag \<and> set flag' \<subseteq> insert v (set flag)"
proof -
  from assms have len: "length msk = length flag"
    and eq: "flag' = map (\<lambda>(m, f). if m then v else f) (zip msk flag)"
    by (auto simp: mask_assign_def split: if_splits)
  have "set flag' \<subseteq> insert v (set flag)"
    unfolding eq using set_zip_rightD by fastforce
  then show ?thesis
    using len eq by simp
qed

lemma filter_flags_valid:
  assumes "filter_flags eu a difficulty_mode difficulty_level class_name use_superclass = Inr flag"
  shows "length flag = length (anno_name a) \<and> set flag \<subseteq> {- 1, 0, 1}"
proof -
  from assms obtain flag1 ignore where
    m1: "mask_assign (replicate (length (anno_name a)) 0)
           (reject_mask (anno_name a) class_name use_superclass) (- 1) = Inr flag1"
    and m2: "mask_assign flag1 ignore 1 = Inr flag"
    by (auto simp: filter_flags_def Let_def split: sum.splits)
  from mask_assign_valid [OF m1] have f1: "length flag1 = length (anno_name a)"
    "set flag1 \<subseteq> {- 1, 0}" by auto
  from mask_assign_valid [OF m2] f1 show ?thesis by auto
qed

lemma filter_data_valid:
  assumes "filter_data eu gt_anno pred_anno difficulty_mode difficulty_level class_name
             use_superclass = Inr (gt_flag, pred_flag)"
  shows "length gt_flag = length (anno_name gt_anno) \<and> set gt_flag \<subseteq> {- 1, 0, 1}
       \<and> length pred_flag = length (anno_name pred_anno) \<and> set pred_flag \<subseteq> {- 1, 0, 1}"
proof -
  from assms have
    "filter_flags eu gt_anno difficulty_mode difficulty_level class_name use_superclass = Inr gt_flag"
    "filter_flags eu pred_anno difficulty_mode difficulty_level class_name use_superclass = Inr pred_flag"
    by (auto simp: filter_data_def split: sum.splits)
  then show ?thesis
    using filter_flags_valid by blast
qed

lemma confusion_step_length:
  "length (confusion_step pred_annos ious flags thresholds iou_threshold k cm)
     = min (length thresholds) (length cm)"
  by (simp add: confusion_step_def Let_def)

lemma class_diff_confusion_length:
  "length (class_diff_confusion gt_annos pred_annos ious flags thresholds iou_threshold)
     = length thresholds"
proof -
  have "length (fold (confusion_step pred_annos ious flags thresholds iou_threshold) ks cm)
      = length thresholds" if "length cm = length thresholds" for ks cm
    using that by (induction ks arbitrary: cm) (simp_all add: confusion_step_length)
  then show ?thesis
    by (simp add: class_diff_confusion_def)
qed

lemma pr_curve_empty:
  "pr_curve num_pr_points [] = Inr (replicate (num_pr_points + 1) (Fin 0), replicate (num_pr_points + 1) (Fin 0))"
  by (simp add: pr_curve_def)

lemma fold_np_add_zeros:
  assumes "\<forall>i\<in>set ks. row ! i = Fin 0"
  shows "fold (\<lambda>i ap. np_add ap (row ! i)) ks (Fin 0) = Fin 0"
  using assms by (induction ks) simp_all

lemma ap_of_zero_row:
  "ap_of_row num_pr_points (replicate (num_pr_points + 1) (Fin 0)) = Fin 0"
proof -
  have "\<forall>i\<in>set [1..<num_pr_points + 1]. replicate (num_pr_points + 1) (Fin 0) ! i = Fin 0"
  proof
    fix i assume "i \<in> set [1..<num_pr_points + 1]"
    then have "i < num_pr_points + 1" by auto
    then show "replicate (num_pr_points + 1) (Fin 0) ! i = Fin 0"
      by (simp only: nth_replicate)
  qed
  from fold_np_add_zeros [OF this] show ?thesis
    unfolding ap_of_row_def by (simp add: np_div_pos_def np_mul_pos_def)
qed

lemma none_accepted_body:
  assumes ne: "gt_annos \<noteq> []" and len: "length ious = length gt_annos"
    and shp: "\<forall>k<length gt_annos. shape0 (ious ! k) = length (anno_name (gt_annos ! k))"
    and flt: "\<forall>k<length gt_annos. \<exists>gt_flag pred_flag.
        filter_data eu (gt_annos ! k) (pred_annos ! k) difficulty_mode diff_idx cur_class
          use_superclass = Inr (gt_flag, pred_flag) \<and> 0 \<notin> set gt_flag"
    and P: "1 \<le> num_pr_points"
  shows "(\<exists>flags. class_diff_thresholds eu gt_annos pred_annos ious difficulty_mode diff_idx
              cur_class use_superclass iou_threshold num_pr_points = Inr (flags, [])
            \<and> length flags = length gt_annos
            \<and> (\<forall>k<length gt_annos. snd (snd (flags ! k)) = []))
       \<and> get_thresholds [] 0 num_pr_points = Inr []
       \<and> eval_class_diff eu gt_annos pred_annos ious difficulty_mode diff_idx cur_class
            use_superclass iou_threshold num_pr_points
          = Inr (replicate (num_pr_points + 1) (Fin 0), replicate (num_pr_points + 1) (Fin 0))
       \<and> ap_of_row num_pr_points (replicate (num_pr_points + 1) (Fin 0)) = Fin 0"
proof -
  let ?f = "sample_scores eu gt_annos pred_annos ious difficulty_mode diff_idx cur_class
      use_superclass iou_threshold"
  let ?Q = "\<lambda>(k::nat) (y :: int list \<times> int list \<times> real list).
      0 \<notin> set (fst y) \<and> snd (snd y) = []"
  have each: "\<forall>k\<in>set [0..<length gt_annos]. \<exists>y. ?f k = Inr y \<and> ?Q k y"
  proof
    fix k assume "k \<in> set [0..<length gt_annos]"
    then have k: "k < length gt_annos" by simp
    with flt obtain gt_flag pred_flag where
      fd: "filter_data eu (gt_annos ! k) (pred_annos ! k) difficulty_mode diff_idx cur_class
          use_superclass = Inr (gt_flag, pred_flag)"
      and none: "0 \<notin> set gt_flag"
      by blast
    from filter_data_valid [OF fd] shp k have "length gt_flag = shape0 (ious ! k)"
      "set gt_flag \<subseteq> {- 1, 0, 1}" by simp_all
    then have "accumulate_scores (ious ! k) (anno_score (pred_annos ! k)) gt_flag pred_flag
        iou_threshold = []"
      using none by (rule accumulate_scores_none_accepted)
    then have "?f k = Inr (gt_flag, pred_flag, [])"
      using k len fd by (simp add: sample_scores_def Let_def)
    then show "\<exists>y. ?f k = Inr y \<and> ?Q k y"
      using none by simp
  qed
  from emap_all_ok [of "[0..<length gt_annos]" ?f ?Q, OF each] obtain flags
    where run: "emap ?f [0..<length gt_annos] = Inr flags"
      and lf: "length flags = length gt_annos"
      and q: "\<forall>k<length gt_annos. 0 \<notin> set (fst (flags ! k)) \<and> snd (snd (flags ! k)) = []"
    by auto
  have ne_flags: "flags \<noteq> []"
    using lf ne by auto
  have all_empty: "\<forall>f\<in>set flags. snd (snd f) = []"
    using q lf by (metis in_set_conv_nth)
  have scores: "concat (map (\<lambda>(gt_flag, pred_flag, sc). sc) flags) = []"
    using all_empty by (auto split: prod.splits)
  have thr: "class_diff_thresholds eu gt_annos pred_annos ious difficulty_mode diff_idx
      cur_class use_superclass iou_threshold num_pr_points = Inr (flags, [])"
    using ne_flags
    by (simp add: class_diff_thresholds_def run np_concatenate_def scores get_thresholds_empty
        Let_def)
  have cm: "class_diff_confusion gt_annos pred_annos ious flags [] iou_threshold = []"
    using class_diff_confusion_length [of gt_annos pred_annos ious flags "[]" iou_threshold]
    by simp
  have ev: "eval_class_diff eu gt_annos pred_annos ious difficulty_mode diff_idx cur_class
            use_superclass iou_threshold num_pr_points
          = Inr (replicate (num_pr_points + 1) (Fin 0), replicate (num_pr_points + 1) (Fin 0))"
    by (simp only: eval_class_diff_def thr sum.case prod.case cm pr_curve_empty)
  show ?thesis
    using thr lf q ev get_thresholds_empty ap_of_zero_row by blast
qed

text \<open>
  Inside a run of the whole evaluation that returns, the cell of \<^verbatim>\<open>AP\<close> for such a class
  and difficulty is 0.
\<close>

lemma shape0_sample_iou:
  "shape0 (sample_iou inter2d with_heading g p) = length (anno_boxes_3d g)"
  by (simp add: sample_iou_def kernel_of_def shape0_def iou3d_kernel_def
      iou3d_kernel_with_heading_def)

lemma evaluation_AP_InrD:
  assumes "evaluation_AP eu inter2d gt_annos pred_annos classes0 use_superclass
        iou_thresholds num_pr_points difficulty_mode with_heading num_parts
      = Inr (classes, difficulty_types, AP)"
  shows "length pred_annos = length gt_annos
    \<and> difficulty_mode \<in> set [''Overall&Distance'', ''Overall'', ''Distance'']
    \<and> (\<exists>split_parts ious curves.
          effective_classes use_superclass classes0 = Inr classes
          \<and> compute_split_parts eu (length gt_annos) num_parts = Inr split_parts
          \<and> compute_iou3d inter2d gt_annos pred_annos split_parts with_heading = Inr ious
          \<and> difficulty_types_of difficulty_mode = Inr difficulty_types
          \<and> evaluate_curves eu gt_annos pred_annos ious difficulty_mode (length difficulty_types)
                use_superclass
                (case iou_thresholds of
                   None \<Rightarrow> if use_superclass then map_of superclass_iou_threshold_dict
                            else map_of iou_threshold_dict
                 | Some d \<Rightarrow> d)
                num_pr_points classes = Inr curves
          \<and> num_pr_points \<noteq> 0
          \<and> AP = map (map (\<lambda>(precision, recall). ap_of_row num_pr_points precision)) curves)"
proof -
  have l: "length pred_annos = length gt_annos"
    and m: "difficulty_mode \<in> set [''Overall&Distance'', ''Overall'', ''Distance'']"
    using assms unfolding evaluation_AP_def Let_def by (auto split: if_splits)
  from assms show ?thesis
    unfolding evaluation_AP_def Let_def using l m
    by (simp split: sum.splits if_splits del: set_simps)
qed

lemma evaluation_AP_zero_entry:
  fixes gt_annos pred_annos :: "anno list"
  assumes run: "evaluation_AP eu inter2d gt_annos pred_annos classes0 use_superclass
        iou_thresholds num_pr_points difficulty_mode with_heading num_parts
      = Inr (classes, difficulty_types, AP)"
    and wf: "\<forall>a\<in>set gt_annos \<union> set pred_annos. well_formed a"
    and parts: "\<exists>split_parts. compute_split_parts eu (length gt_annos) num_parts = Inr split_parts
        \<and> valid_parts (length gt_annos) split_parts"
    and c: "c < length classes" and d: "d < length difficulty_types"
    and flt: "\<forall>k<length gt_annos. \<exists>gt_flag pred_flag.
        filter_data eu (gt_annos ! k) (pred_annos ! k) difficulty_mode d (classes ! c)
          use_superclass = Inr (gt_flag, pred_flag) \<and> 0 \<notin> set gt_flag"
  shows "AP ! c ! d = Fin 0"
proof -
  from parts obtain split_parts where sp: "compute_split_parts eu (length gt_annos) num_parts = Inr split_parts"
    and v: "valid_parts (length gt_annos) split_parts" by blast
  let ?thr = "case iou_thresholds of
               None \<Rightarrow> if use_superclass then map_of superclass_iou_threshold_dict
                        else map_of iou_threshold_dict
             | Some d \<Rightarrow> d"
  from evaluation_AP_InrD [OF run] obtain split_parts' ious curves where
    n: "length pred_annos = length gt_annos"
    and cl: "effective_classes use_superclass classes0 = Inr classes"
    and sp': "compute_split_parts eu (length gt_annos) num_parts = Inr split_parts'"
    and io: "compute_iou3d inter2d gt_annos pred_annos split_parts' with_heading = Inr ious"
    and dt: "difficulty_types_of difficulty_mode = Inr difficulty_types"
    and cv0: "evaluate_curves eu gt_annos pred_annos ious difficulty_mode (length difficulty_types)
        use_superclass ?thr num_pr_points classes = Inr curves"
    and P: "num_pr_points \<noteq> 0"
    and AP: "AP = map (map (\<lambda>(precision, recall). ap_of_row num_pr_points precision)) curves"
    by auto
  let ?ious = "map (\<lambda>(g, p). sample_iou inter2d with_heading g p) (zip gt_annos pred_annos)"
  have same: "split_parts' = split_parts"
    using sp sp' by simp
  have iou: "compute_iou3d inter2d gt_annos pred_annos split_parts with_heading
      = (if gt_annos = [] then Inl ValueError else Inr ?ious)"
    by (rule compute_iou3d_any_parts [OF n wf v])
  have ne: "gt_annos \<noteq> []"
    using io iou same by auto
  have "ious = ?ious"
    using io iou same ne by simp
  with cv0 have cv: "evaluate_curves eu gt_annos pred_annos ?ious difficulty_mode
        (length difficulty_types) use_superclass ?thr num_pr_points classes = Inr curves"
    by simp
  from emap_nth [OF cv [unfolded evaluate_curves_def]] c
  have lc: "length curves = length classes"
    and row: "(case ?thr (classes ! c) of
               None \<Rightarrow> Inl KeyError
             | Some iou_threshold \<Rightarrow>
                 emap (\<lambda>diff_idx.
                         eval_class_diff eu gt_annos pred_annos ?ious difficulty_mode diff_idx
                           (classes ! c) use_superclass iou_threshold num_pr_points)
                   [0..<length difficulty_types]) = Inr (curves ! c)"
    by simp_all
  then obtain iou_threshold where
    em: "emap (\<lambda>diff_idx.
                eval_class_diff eu gt_annos pred_annos ?ious difficulty_mode diff_idx
                  (classes ! c) use_superclass iou_threshold num_pr_points)
           [0..<length difficulty_types] = Inr (curves ! c)"
    by (auto split: option.splits)
  from emap_nth [OF em] d
  have ld: "length (curves ! c) = length difficulty_types"
    and cell: "eval_class_diff eu gt_annos pred_annos ?ious difficulty_mode d
                  (classes ! c) use_superclass iou_threshold num_pr_points = Inr (curves ! c ! d)"
    by simp_all
  have len: "length ?ious = length gt_annos"
    using n by simp
  have shp: "\<forall>k<length gt_annos. shape0 (?ious ! k) = length (anno_name (gt_annos ! k))"
  proof (intro allI impI)
    fix k assume k: "k < length gt_annos"
    then have "well_formed (gt_annos ! k)" using wf by simp
    then show "shape0 (?ious ! k) = length (anno_name (gt_annos ! k))"
      using k n by (simp add: shape0_sample_iou well_formed_def)
  qed
  have P1: "1 \<le> num_pr_points" using P by simp
  from none_accepted_body [OF ne len shp flt P1, of iou_threshold] cell
  have z: "curves ! c ! d = (replicate (num_pr_points + 1) (Fin 0), replicate (num_pr_points + 1) (Fin 0))"
    by simp
  have "AP ! c ! d = (\<lambda>(precision, recall). ap_of_row num_pr_points precision) (curves ! c ! d)"
    using c d lc ld by (simp add: AP)
  then show ?thesis
    by (simp only: z prod.case ap_of_zero_row)
qed

section \<open>The order of the samples\<close>

text \<open>
  The evaluation of a class and a difficulty reads the samples only through the
  concatenation of their scores, which is sorted, and through sums over the samples.
\<close>

lemma emap_map: "emap f (map g xs) = emap (\<lambda>x. f (g x)) xs"
  by (induction xs) (simp_all split: sum.splits)

lemma emap_cong: "(\<And>x. x \<in> set xs \<Longrightarrow> f x = g x) \<Longrightarrow> emap f xs = emap g xs"
  by (induction xs) (simp_all split: sum.splits)

lemma sample_scores_pass:
  assumes "k < length ious"
  shows "sample_scores eu gt_annos pred_annos ious difficulty_mode diff_idx cur_class use_superclass
           iou_threshold k
         = sample_pass eu difficulty_mode diff_idx cur_class use_superclass iou_threshold
             (gt_annos ! k, pred_annos ! k, ious ! k)"
  using assms by (simp add: sample_scores_def sample_pass_def Let_def)

lemma emap_sample_scores:
  assumes "length ious = length gt_annos"
  shows "emap (sample_scores eu gt_annos pred_annos ious difficulty_mode diff_idx cur_class
                 use_superclass iou_threshold) [0..<length gt_annos]
         = emap (sample_pass eu difficulty_mode diff_idx cur_class use_superclass iou_threshold)
             (triples gt_annos pred_annos ious)"
  unfolding triples_def emap_map
  using assms by (intro emap_cong) (simp add: sample_scores_pass)

lemma sum_counts_Cons: "sum_counts (x # xs) = add_counts x (sum_counts xs)"
  by (cases x) (simp add: sum_counts_def add_counts_def)

lemma add_counts_assoc: "add_counts (add_counts a b) c = add_counts a (add_counts b c)"
  by (cases a, cases b, cases c) (simp add: add_counts_def)

lemma add_counts_zero: "add_counts (0, 0, 0) a = a"
  by (cases a) (simp add: add_counts_def)

lemma confusion_step_nth:
  assumes "length cm = length thresholds" and "j < length thresholds"
  shows "confusion_step pred_annos ious flags thresholds iou_threshold k cm ! j
       = add_counts (cm ! j)
           (compute_statistics (ious ! k) (anno_score (pred_annos ! k)) (fst (flags ! k))
              (fst (snd (flags ! k))) (thresholds ! j) iou_threshold)"
  using assms by (simp add: confusion_step_def Let_def)

lemma confusion_fold_nth:
  assumes "length cm = length thresholds" and "j < length thresholds"
  shows "fold (confusion_step pred_annos ious flags thresholds iou_threshold) ks cm ! j
       = add_counts (cm ! j)
           (sum_counts (map (\<lambda>k. compute_statistics (ious ! k) (anno_score (pred_annos ! k))
                                   (fst (flags ! k)) (fst (snd (flags ! k))) (thresholds ! j)
                                   iou_threshold) ks))"
  using assms
proof (induction ks arbitrary: cm)
  case Nil
  show ?case by (cases "cm ! j") (simp add: sum_counts_def add_counts_def)
next
  case (Cons k ks)
  let ?cm1 = "confusion_step pred_annos ious flags thresholds iou_threshold k cm"
  have len1: "length ?cm1 = length thresholds"
    using Cons.prems by (simp add: confusion_step_def Let_def)
  show ?case
    using Cons.IH [OF len1 Cons.prems(2)] Cons.prems
    by (simp add: confusion_step_nth sum_counts_Cons add_counts_assoc)
qed

lemma class_diff_confusion_samples:
  assumes li: "length ious = length gt_annos" and lp: "length pred_annos = length gt_annos"
    and lf: "length flags = length gt_annos"
  shows "class_diff_confusion gt_annos pred_annos ious flags thresholds iou_threshold
       = map (\<lambda>score_th. sum_counts (map (sample_stats iou_threshold score_th)
                                       (zip (triples gt_annos pred_annos ious) flags)))
           thresholds"
proof (rule nth_equalityI)
  show "length (class_diff_confusion gt_annos pred_annos ious flags thresholds iou_threshold)
      = length (map (\<lambda>score_th. sum_counts (map (sample_stats iou_threshold score_th)
                                       (zip (triples gt_annos pred_annos ious) flags)))
           thresholds)"
    by (simp add: class_diff_confusion_length)
next
  fix j assume "j < length (class_diff_confusion gt_annos pred_annos ious flags thresholds iou_threshold)"
  then have j: "j < length thresholds"
    by (simp add: class_diff_confusion_length)
  have z: "zip (triples gt_annos pred_annos ious) flags
      = map (\<lambda>k. ((gt_annos ! k, pred_annos ! k, ious ! k), flags ! k)) [0..<length gt_annos]"
    using lf by (intro nth_equalityI) (simp_all add: triples_def)
  have st: "map (sample_stats iou_threshold (thresholds ! j))
        (zip (triples gt_annos pred_annos ious) flags)
      = map (\<lambda>k. compute_statistics (ious ! k) (anno_score (pred_annos ! k))
                                   (fst (flags ! k)) (fst (snd (flags ! k))) (thresholds ! j)
                                   iou_threshold) [0..<length gt_annos]"
    unfolding z by (simp add: sample_stats_def split: prod.splits)
  have "class_diff_confusion gt_annos pred_annos ious flags thresholds iou_threshold ! j
      = add_counts (replicate (length thresholds) (0, 0, 0) ! j)
          (sum_counts (map (sample_stats iou_threshold (thresholds ! j))
             (zip (triples gt_annos pred_annos ious) flags)))"
    unfolding class_diff_confusion_def st
    using j by (intro confusion_fold_nth) simp_all
  then show "class_diff_confusion gt_annos pred_annos ious flags thresholds iou_threshold ! j
      = map (\<lambda>score_th. sum_counts (map (sample_stats iou_threshold score_th)
                                       (zip (triples gt_annos pred_annos ious) flags)))
           thresholds ! j"
    using j by (simp add: add_counts_zero)
qed

lemma eval_class_diff_samples:
  assumes li: "length ious = length gt_annos" and lp: "length pred_annos = length gt_annos"
  shows "eval_class_diff eu gt_annos pred_annos ious difficulty_mode diff_idx cur_class
           use_superclass iou_threshold num_pr_points
       = eval_samples eu difficulty_mode diff_idx cur_class use_superclass iou_threshold
           num_pr_points (triples gt_annos pred_annos ious)"
proof (cases "emap (sample_pass eu difficulty_mode diff_idx cur_class use_superclass iou_threshold)
    (triples gt_annos pred_annos ious)")
  case (Inl e)
  then show ?thesis
    by (simp add: eval_class_diff_def class_diff_thresholds_def emap_sample_scores [OF li]
        eval_samples_def)
next
  case (Inr flags)
  from emap_nth [OF Inr] have lf: "length flags = length gt_annos"
    by (simp add: triples_def)
  show ?thesis
    by (simp add: eval_class_diff_def class_diff_thresholds_def emap_sample_scores [OF li]
        eval_samples_def Inr Let_def class_diff_confusion_samples [OF li lp lf]
        split: sum.splits)
qed

lemma emap_total:
  assumes "\<forall>x\<in>set xs. \<exists>y. f x = Inr y"
  shows "emap f xs = Inr (map (\<lambda>x. projr (f x)) xs)"
  using assms by (induction xs) auto

lemma emap_fail:
  assumes "\<exists>x\<in>set xs. \<exists>e. f x = Inl e"
  shows "\<exists>e x. emap f xs = Inl e \<and> x \<in> set xs \<and> f x = Inl e"
  using assms
proof (induction xs)
  case Nil
  then show ?case by simp
next
  case (Cons x xs)
  show ?case
  proof (cases "f x")
    case (Inl e)
    then show ?thesis by auto
  next
    case (Inr y)
    with Cons.prems have "\<exists>x\<in>set xs. \<exists>e. f x = Inl e" by auto
    from Cons.IH [OF this] obtain e x' where "emap f xs = Inl e" "x' \<in> set xs" "f x' = Inl e"
      by blast
    then show ?thesis using Inr by auto
  qed
qed

lemma mask_assign_error: "mask_assign flag msk v = Inl e \<Longrightarrow> e = IndexError"
  by (simp add: mask_assign_def split: if_splits)

lemma ignore_mask_ok:
  assumes "difficulty_mode \<in> set [''Overall&Distance'', ''Overall'', ''Distance'']"
  shows "\<exists>m. ignore_mask eu difficulty_mode difficulty_level boxes = Inr m"
  using assms by (auto simp: ignore_mask_def)

lemma filter_flags_error:
  assumes "difficulty_mode \<in> set [''Overall&Distance'', ''Overall'', ''Distance'']"
    and "filter_flags eu a difficulty_mode difficulty_level class_name use_superclass = Inl e"
  shows "e = IndexError"
proof -
  from ignore_mask_ok [OF assms(1)] obtain m
    where m: "ignore_mask eu difficulty_mode difficulty_level (anno_boxes_3d a) = Inr m"
    by blast
  from assms(2) show ?thesis
    unfolding filter_flags_def Let_def m
    by (auto split: sum.splits dest: mask_assign_error)
qed

lemma sample_pass_error:
  assumes "difficulty_mode \<in> set [''Overall&Distance'', ''Overall'', ''Distance'']"
    and "sample_pass eu difficulty_mode diff_idx cur_class use_superclass iou_threshold t = Inl e"
  shows "e = IndexError"
  using assms(2) filter_flags_error [OF assms(1)]
  by (auto simp: sample_pass_def filter_data_def split: prod.splits sum.splits)

lemma sum_list_mset_cong:
  fixes f :: "'a \<Rightarrow> nat"
  assumes "mset xs = mset ys"
  shows "sum_list (map f xs) = sum_list (map f ys)"
proof -
  have "sum_list (map f xs) = sum_mset (image_mset f (mset xs))"
    by (metis mset_map sum_mset_sum_list)
  also have "\<dots> = sum_mset (image_mset f (mset ys))"
    using assms by simp
  also have "\<dots> = sum_list (map f ys)"
    by (metis mset_map sum_mset_sum_list)
  finally show ?thesis .
qed

lemma mset_concat_map:
  "mset (concat (map h xs)) = sum_mset (image_mset (\<lambda>x. mset (h x)) (mset xs))"
  by (induction xs) simp_all

lemma mset_concat_cong:
  assumes "mset xs = mset ys"
  shows "mset (concat (map h xs)) = mset (concat (map h ys))"
  by (simp only: mset_concat_map assms)

lemma sort_mset_cong: "mset xs = mset ys \<Longrightarrow> sort xs = sort (ys :: real list)"
  by (metis sorted_list_of_multiset_mset)

lemma get_thresholds_mset:
  assumes "mset xs = mset ys"
  shows "get_thresholds xs num_gt num_pr_points = get_thresholds ys num_gt num_pr_points"
  unfolding get_thresholds_def using sort_mset_cong [OF assms] by simp

lemma sum_counts_mset_cong:
  assumes "mset xs = mset ys"
  shows "sum_counts (map h xs) = sum_counts (map h ys)"
  unfolding sum_counts_def map_map comp_def
  using sum_list_mset_cong [OF assms] by simp


lemma zip_map_same: "zip xs (map f xs) = map (\<lambda>x. (x, f x)) xs"
  by (induction xs) simp_all

lemma eval_samples_total:
  assumes "\<forall>t\<in>set T. \<exists>y. sample_pass eu difficulty_mode diff_idx cur_class use_superclass
      iou_threshold t = Inr y"
  shows "eval_samples eu difficulty_mode diff_idx cur_class use_superclass iou_threshold
      num_pr_points T =
     (case np_concatenate (map (\<lambda>t. snd (snd (projr (sample_pass eu difficulty_mode diff_idx
              cur_class use_superclass iou_threshold t)))) T) of
        Inl e \<Rightarrow> Inl e
      | Inr all_scores \<Rightarrow>
          (case get_thresholds all_scores
                  (sum_list (map (\<lambda>t. count_valid (fst (projr (sample_pass eu difficulty_mode
                      diff_idx cur_class use_superclass iou_threshold t)))) T))
                  num_pr_points of
             Inl e \<Rightarrow> Inl e
           | Inr thresholds \<Rightarrow>
               pr_curve num_pr_points
                 (map (\<lambda>score_th. sum_counts
                         (map (\<lambda>t. sample_stats iou_threshold score_th
                                 (t, projr (sample_pass eu difficulty_mode diff_idx cur_class
                                       use_superclass iou_threshold t))) T))
                    thresholds)))"
  unfolding eval_samples_def emap_total [OF assms] sum.case zip_map_same map_map comp_def
  by (simp add: case_prod_unfold cong: sum.case_cong)

lemma eval_samples_perm:
  assumes m: "mset T' = mset T"
    and mode: "difficulty_mode \<in> set [''Overall&Distance'', ''Overall'', ''Distance'']"
  shows "eval_samples eu difficulty_mode diff_idx cur_class use_superclass iou_threshold
           num_pr_points T'
       = eval_samples eu difficulty_mode diff_idx cur_class use_superclass iou_threshold
           num_pr_points T"
proof -
  let ?F = "sample_pass eu difficulty_mode diff_idx cur_class use_superclass iou_threshold"
  have sets: "set T' = set T"
    using m by (rule mset_eq_setD)
  show ?thesis
  proof (cases "\<forall>t\<in>set T. \<exists>y. ?F t = Inr y")
    case True
    then have True': "\<forall>t\<in>set T'. \<exists>y. ?F t = Inr y"
      using sets by simp
    have empty: "T' = [] \<longleftrightarrow> T = []"
      using sets by auto
    have sc: "mset (concat (map (\<lambda>t. snd (snd (projr (?F t)))) T'))
        = mset (concat (map (\<lambda>t. snd (snd (projr (?F t)))) T))"
      using m by (rule mset_concat_cong)
    have nv: "sum_list (map (\<lambda>t. count_valid (fst (projr (?F t)))) T')
        = sum_list (map (\<lambda>t. count_valid (fst (projr (?F t)))) T)"
      using m by (rule sum_list_mset_cong)
    have th: "get_thresholds (concat (map (\<lambda>t. snd (snd (projr (?F t)))) T')) g P
        = get_thresholds (concat (map (\<lambda>t. snd (snd (projr (?F t)))) T)) g P" for g P
      using sc by (rule get_thresholds_mset)
    have cm: "sum_counts (map (\<lambda>t. sample_stats iou_threshold score_th (t, projr (?F t))) T')
        = sum_counts (map (\<lambda>t. sample_stats iou_threshold score_th (t, projr (?F t))) T)"
      for score_th
      using m by (rule sum_counts_mset_cong)
    show ?thesis
      unfolding eval_samples_total [OF True] eval_samples_total [OF True']
      by (simp add: np_concatenate_def empty nv th cm cong: sum.case_cong)
  next
    case False
    then have f: "\<exists>t\<in>set T. \<exists>e. ?F t = Inl e"
      by (metis sum.exhaust)
    then have f': "\<exists>t\<in>set T'. \<exists>e. ?F t = Inl e"
      using sets by simp
    from emap_fail [OF f] sample_pass_error [OF mode]
    have "emap ?F T = Inl IndexError" by metis
    moreover from emap_fail [OF f'] sample_pass_error [OF mode]
    have "emap ?F T' = Inl IndexError" by metis
    ultimately show ?thesis
      by (simp add: eval_samples_def)
  qed
qed

lemma triples_sample_iou:
  assumes n: "length pred_annos = length gt_annos"
  shows "triples gt_annos pred_annos
           (map (\<lambda>(g, p). sample_iou inter2d with_heading g p) (zip gt_annos pred_annos))
         = map (sample_of inter2d with_heading gt_annos pred_annos) [0..<length gt_annos]"
  using n by (simp add: triples_def sample_of_def)

lemma triples_permuted:
  assumes n: "length pred_annos = length gt_annos"
    and b: "\<forall>k\<in>set perm. k < length gt_annos"
  shows "triples (map ((!) gt_annos) perm) (map ((!) pred_annos) perm)
           (map (\<lambda>(g, p). sample_iou inter2d with_heading g p)
              (zip (map ((!) gt_annos) perm) (map ((!) pred_annos) perm)))
         = map (sample_of inter2d with_heading gt_annos pred_annos) perm"
  by (intro nth_equalityI) (simp_all add: triples_def sample_of_def)

lemma evaluate_curves_cong:
  assumes "\<And>diff_idx cur_class iou_threshold.
      eval_class_diff eu gt_annos' pred_annos' ious' difficulty_mode diff_idx cur_class
        use_superclass iou_threshold num_pr_points
      = eval_class_diff eu gt_annos pred_annos ious difficulty_mode diff_idx cur_class
        use_superclass iou_threshold num_pr_points"
  shows "evaluate_curves eu gt_annos' pred_annos' ious' difficulty_mode num_difficulties
           use_superclass iou_thresholds num_pr_points classes
       = evaluate_curves eu gt_annos pred_annos ious difficulty_mode num_difficulties
           use_superclass iou_thresholds num_pr_points classes"
  unfolding evaluate_curves_def assms ..

text \<open>
  Claim C4. For annotations with one name per box, a \<^verbatim>\<open>compute_split_parts\<close> that
  returns positive part sizes adding up to the number of samples, and any permutation
  \<open>perm\<close> of the indices of the samples applied to the ground truth and to the
  predictions alike, the evaluation returns the same classes, difficulty types and
  \<^verbatim>\<open>AP\<close> array, hence the same AP of every class and difficulty, and the same report
  and dictionary (or the same error) as on the inputs in their original order.
\<close>

theorem sample_order_does_not_matter:
  fixes gt_annos pred_annos :: "anno list"
  assumes n: "length pred_annos = length gt_annos"
    and wf: "\<forall>a\<in>set gt_annos \<union> set pred_annos. well_formed a"
    and perm: "mset perm = mset [0..<length gt_annos]"
    and p: "compute_split_parts eu (length gt_annos) num_parts = Inr split_parts"
    and v: "valid_parts (length gt_annos) split_parts"
  shows "evaluation_AP eu inter2d (map ((!) gt_annos) perm) (map ((!) pred_annos) perm) classes
           use_superclass iou_thresholds num_pr_points difficulty_mode with_heading num_parts
         = evaluation_AP eu inter2d gt_annos pred_annos classes use_superclass iou_thresholds
           num_pr_points difficulty_mode with_heading num_parts
     \<and> get_evaluation_results eu inter2d fmt2f (map ((!) gt_annos) perm) (map ((!) pred_annos) perm)
           classes use_superclass iou_thresholds num_pr_points difficulty_mode with_heading
           num_parts
         = get_evaluation_results eu inter2d fmt2f gt_annos pred_annos classes use_superclass
           iou_thresholds num_pr_points difficulty_mode with_heading num_parts"
proof -
  let ?g = "map ((!) gt_annos) perm" and ?p = "map ((!) pred_annos) perm"
  have lp: "length perm = length gt_annos"
    using mset_eq_length [OF perm] by simp
  have sp: "set perm = {0..<length gt_annos}"
    using mset_eq_setD [OF perm] by simp
  have b: "\<forall>k\<in>set perm. k < length gt_annos"
    using sp by simp
  have n': "length ?p = length ?g"
    by simp
  have lg: "length ?g = length gt_annos"
    using lp by simp
  have wf': "\<forall>a\<in>set ?g \<union> set ?p. well_formed a"
    using wf b n by auto
  have v': "valid_parts (length ?g) split_parts"
    unfolding lg by (rule v)
  have ne: "?g = [] \<longleftrightarrow> gt_annos = []"
    using lp by auto
  have ap: "evaluation_AP eu inter2d ?g ?p classes use_superclass iou_thresholds num_pr_points
      difficulty_mode with_heading num_parts
    = evaluation_AP eu inter2d gt_annos pred_annos classes use_superclass iou_thresholds
      num_pr_points difficulty_mode with_heading num_parts"
  proof (cases "difficulty_mode \<in> set [''Overall&Distance'', ''Overall'', ''Distance'']")
    case False
    then show ?thesis
      using n lp by (simp add: evaluation_AP_def)
  next
    case mode: True
    let ?I = "map (\<lambda>(g, p). sample_iou inter2d with_heading g p) (zip gt_annos pred_annos)"
    let ?I' = "map (\<lambda>(g, p). sample_iou inter2d with_heading g p) (zip ?g ?p)"
    have m: "mset (triples ?g ?p ?I') = mset (triples gt_annos pred_annos ?I)"
      unfolding triples_permuted [OF n b] triples_sample_iou [OF n]
      using perm by (simp only: mset_map)
    have cd: "eval_class_diff eu ?g ?p ?I' difficulty_mode diff_idx cur_class use_superclass
          iou_threshold num_pr_points
        = eval_class_diff eu gt_annos pred_annos ?I difficulty_mode diff_idx cur_class
          use_superclass iou_threshold num_pr_points" for diff_idx cur_class iou_threshold
    proof -
      have "eval_class_diff eu ?g ?p ?I' difficulty_mode diff_idx cur_class use_superclass
          iou_threshold num_pr_points
        = eval_samples eu difficulty_mode diff_idx cur_class use_superclass iou_threshold
            num_pr_points (triples ?g ?p ?I')"
        by (rule eval_class_diff_samples) simp_all
      also have "\<dots> = eval_samples eu difficulty_mode diff_idx cur_class use_superclass
            iou_threshold num_pr_points (triples gt_annos pred_annos ?I)"
        using m mode by (rule eval_samples_perm)
      also have "\<dots> = eval_class_diff eu gt_annos pred_annos ?I difficulty_mode diff_idx
          cur_class use_superclass iou_threshold num_pr_points"
        using n by (intro eval_class_diff_samples [symmetric]) simp_all
      finally show ?thesis .
    qed
    have ec: "evaluate_curves eu ?g ?p ?I' difficulty_mode num_difficulties use_superclass
          thresholds num_pr_points cls
        = evaluate_curves eu gt_annos pred_annos ?I difficulty_mode num_difficulties
          use_superclass thresholds num_pr_points cls" for num_difficulties thresholds cls
      by (rule evaluate_curves_cong) (rule cd)
    show ?thesis
    proof (cases "gt_annos = []")
      case True
      then have "perm = []"
        using lp by simp
      then show ?thesis
        using True n by simp
    next
      case False
      then have ne': "?g \<noteq> []"
        using ne by simp
      have io: "compute_iou3d inter2d gt_annos pred_annos split_parts with_heading = Inr ?I"
        using compute_iou3d_any_parts [OF n wf v] False by simp
      have io': "compute_iou3d inter2d ?g ?p split_parts with_heading = Inr ?I'"
        using compute_iou3d_any_parts [OF n' wf' v'] ne' by simp
      show ?thesis
        unfolding evaluation_AP_def Let_def lg n' p sum.case io io' ec
        using n by simp
    qed
  qed
  then show ?thesis
    by (simp add: get_evaluation_results_def)
qed

lemma sample_iou_near: "sample_iou inter_axis with_heading gt_near pred_near = iou_near"
  by (simp add: sample_iou_def kernel_of_def
      iou3d_kernel_with_heading_def iou3d_kernel_def iou3d_heading_cell_def iou3d_cell_def
      diff_rot_def inter_h_def np_divide_def bev_of_def inter_axis_def
      gt_near_def pred_near_def ped_def iou_near_def Let_def not_pi_le_zero)

lemma curves_of_two_samples:
  "evaluate_curves eu_ex [gt_ex, gt_near] [pred_ex, pred_near] [iou_ex, iou_near] ''Overall'' 1 False
     (map_of iou_threshold_dict) 2 [''Pedestrian'']
     = Inr [[([Fin 1, Fin 1, Fin 1], [Fin (1 / 2), Fin (1 / 2), Fin (1 / 2)])]]"
  by code_simp

lemma ap_of_ones: "ap_of_row 2 [Fin 1, Fin 1, Fin 1] = Fin 100"
  by code_simp

theorem sample_order_does_not_matter_witness:
  "evaluation_AP eu_ex inter_axis [gt_near, gt_ex] [pred_near, pred_ex] [''Pedestrian''] False None
       2 ''Overall'' True 1
     = evaluation_AP eu_ex inter_axis [gt_ex, gt_near] [pred_ex, pred_near] [''Pedestrian''] False
       None 2 ''Overall'' True 1
   \<and> evaluation_AP eu_ex inter_axis [gt_ex, gt_near] [pred_ex, pred_near] [''Pedestrian''] False
       None 2 ''Overall'' True 1
     = Inr ([''Pedestrian''], [''overall''], [[Fin 100]])"
proof -
  let ?g = "[gt_ex, gt_near]" and ?p = "[pred_ex, pred_near]"
  have n: "length ?p = length ?g"
    by simp
  have wf: "\<forall>a\<in>set ?g \<union> set ?p. well_formed a"
    by (simp add: well_formed_def gt_ex_def pred_ex_def gt_near_def pred_near_def)
  have perm: "mset [1, 0] = mset [0..<length ?g]"
    by (simp add: upt_rec)
  have q: "compute_split_parts eu_ex 2 1 = Inr [2]"
    by (simp add: eu_ex_def split_parts_ex_def)
  have lg: "length ?g = 2"
    by simp
  have p: "compute_split_parts eu_ex (length ?g) 1 = Inr [2]"
    unfolding lg by (rule q)
  have v: "valid_parts (length ?g) [2]"
    by (simp add: valid_parts_def)
  from sample_order_does_not_matter [OF n wf perm p v, of inter_axis "[''Pedestrian'']" False None 2
      "''Overall''" True "\<lambda>x. []"]
  have "evaluation_AP eu_ex inter_axis (map ((!) ?g) [1, 0]) (map ((!) ?p) [1, 0]) [''Pedestrian'']
       False None 2 ''Overall'' True 1
     = evaluation_AP eu_ex inter_axis ?g ?p [''Pedestrian''] False None 2 ''Overall'' True 1"
    by blast
  then have swap: "evaluation_AP eu_ex inter_axis [gt_near, gt_ex] [pred_near, pred_ex]
       [''Pedestrian''] False None 2 ''Overall'' True 1
     = evaluation_AP eu_ex inter_axis ?g ?p [''Pedestrian''] False None 2 ''Overall'' True 1"
    by simp
  have io: "compute_iou3d inter_axis ?g ?p [2] True = Inr [iou_ex, iou_near]"
    using compute_iou3d_any_parts [OF n wf v, of inter_axis True]
    by (simp add: sample_iou_example sample_iou_near)
  have val: "evaluation_AP eu_ex inter_axis ?g ?p [''Pedestrian''] False None 2 ''Overall'' True 1
     = Inr ([''Pedestrian''], [''overall''], [[Fin 100]])"
    using p io
    by (simp add: evaluation_AP_def effective_classes_def difficulty_types_of_def
        curves_of_two_samples [unfolded One_nat_def] ap_of_ones)
  from swap val show ?thesis
    by (intro conjI)
qed

section \<open>The order of the report\<close>

text \<open>
  The loops that build the report text append to it, and the assignments to the
  dictionary are \<open>update_all\<close> of the entries, so that the report is its closed form.
\<close>

lemma fold_append_string:
  "fold (\<lambda>x s. s @ g x) xs s0 = s0 @ concat (map g xs)"
  by (induction xs arbitrary: s0) simp_all

lemma update_all_append: "update_all (xs @ ys) al = update_all ys (update_all xs al)"
  by (simp add: update_all_def)

lemma update_all_keys:
  "map fst (update_all kvs al) = fold insert_key (map fst kvs) (map fst al)"
proof (induction kvs arbitrary: al)
  case Nil
  show ?case by (simp add: update_all_def)
next
  case (Cons kv kvs)
  have "map fst (AList.update (fst kv) (snd kv) al) = insert_key (fst kv) (map fst al)"
    by (simp add: update_keys insert_key_def)
  with Cons [of "AList.update (fst kv) (snd kv) al"] show ?case
    by (simp add: update_all_def)
qed

lemma update_all_distinct:
  assumes "distinct (map fst (al @ kvs))"
  shows "update_all kvs al = al @ kvs"
  using assms
proof (induction kvs arbitrary: al)
  case Nil
  show ?case by (simp add: update_all_def)
next
  case (Cons kv kvs)
  from Cons.prems have "fst kv \<notin> fst ` set al"
    by auto
  then have u: "AList.update (fst kv) (snd kv) al = al @ [kv]"
    by (induction al) auto
  from Cons.prems have "distinct (map fst ((al @ [kv]) @ kvs))"
    by simp
  from Cons.IH [OF this] u show ?case
    by (simp add: update_all_def)
qed

lemma report_cell_step:
  "report_cell fmt2f difficulty_types row_name ap_row j s
   = (fst s @ ljust 12 (fmt2f (ap_row j)) @ ''|'',
      AList.update (report_key row_name (difficulty_types ! j)) (ap_row j) (snd s))"
  by (cases s) (simp add: report_cell_def report_key_def Let_def)

lemma report_cell_fold:
  "fold (report_cell fmt2f difficulty_types row_name ap_row) js s
   = (fst s @ concat (map (\<lambda>j. ljust 12 (fmt2f (ap_row j)) @ ''|'') js),
      update_all (map (\<lambda>j. (report_key row_name (difficulty_types ! j), ap_row j)) js) (snd s))"
proof (induction js arbitrary: s)
  case Nil
  show ?case by (simp add: update_all_def)
next
  case (Cons j js)
  show ?case
    by (simp only: fold.simps o_apply Cons) (simp add: report_cell_step update_all_def)
qed

lemma report_cells:
  "fold (report_cell fmt2f difficulty_types row_name ap_row) [0..<length difficulty_types]
     (ret_str @ ''|'' @ ljust 12 label @ ''|'', ret_dict)
   = (ret_str @ butlast (report_row fmt2f label (map ap_row [0..<length difficulty_types])),
      update_all (row_entries difficulty_types row_name ap_row) ret_dict)"
  unfolding report_cell_fold
  by (simp add: report_row_def row_entries_def newline_def butlast_append comp_def)

lemma report_row_last:
  "butlast (report_row fmt2f label scores) @ newline = report_row fmt2f label scores"
  by (simp add: report_row_def newline_def butlast_append)

lemma report_class_step:
  "report_class fmt2f difficulty_types classes AP cls_idx s
   = (fst s @ report_row fmt2f (classes ! cls_idx)
               (map (\<lambda>diff_idx. AP ! cls_idx ! diff_idx) [0..<length difficulty_types]),
      update_all (row_entries difficulty_types (classes ! cls_idx) (\<lambda>diff_idx. AP ! cls_idx ! diff_idx))
        (snd s))"
proof (cases s)
  case (Pair ret_str ret_dict)
  have "ret_str @ CHR ''|'' # ljust 12 (classes ! cls_idx) @ ''|''
      = ret_str @ ''|'' @ ljust 12 (classes ! cls_idx) @ ''|''"
    by simp
  then show ?thesis
    unfolding Pair report_class_def Let_def prod.case
    by (simp only: report_cells fst_conv snd_conv append_assoc report_row_last)
qed

lemma report_class_fold:
  "fold (report_class fmt2f difficulty_types classes AP) is s
   = (fst s @ concat (map (\<lambda>cls_idx. report_row fmt2f (classes ! cls_idx)
                         (map (\<lambda>diff_idx. AP ! cls_idx ! diff_idx) [0..<length difficulty_types])) is),
      update_all (concat (map (\<lambda>cls_idx. row_entries difficulty_types (classes ! cls_idx)
                                (\<lambda>diff_idx. AP ! cls_idx ! diff_idx)) is)) (snd s))"
proof (induction "is" arbitrary: s)
  case Nil
  show ?case by (simp add: update_all_def)
next
  case (Cons i "is")
  show ?case
    by (simp only: fold.simps o_apply Cons) (simp add: report_class_step update_all_def)
qed

lemma make_report_closed_form:
  "make_report fmt2f num_pr_points difficulty_types classes AP
   = (report_text fmt2f num_pr_points difficulty_types classes AP,
      update_all (report_entries classes difficulty_types AP) [])"
proof -
  have h: "fold (\<lambda>diff_type ret_str. ret_str @ ljust 12 diff_type @ ''|'') difficulty_types
       (newline @ ''|AP@'' @ ljust 9 (str_nat num_pr_points) @ ''|'') @ newline
     = report_header num_pr_points difficulty_types"
    unfolding fold_append_string by (simp add: report_header_def)
  show ?thesis
    unfolding make_report_def Let_def h report_class_fold fst_conv snd_conv report_cells
    by (simp add: report_text_def report_entries_def update_all_append report_row_last)
qed

lemma map_index: "map (\<lambda>i. g (xs ! i)) [0..<length xs] = map g xs"
  by (intro nth_equalityI) simp_all

lemma row_entries_keys:
  "map fst (row_entries difficulty_types row_name ap_row) = map (report_key row_name) difficulty_types"
  by (intro nth_equalityI) (simp_all add: row_entries_def)

lemma report_entries_keys:
  "map fst (report_entries classes difficulty_types AP) = report_keys classes difficulty_types"
proof -
  have "map (\<lambda>cls_idx. map (report_key (classes ! cls_idx)) difficulty_types) [0..<length classes]
      = map (\<lambda>cur_class. map (report_key cur_class) difficulty_types) classes"
    by (rule map_index)
  then show ?thesis
    by (simp add: report_entries_def report_keys_def map_concat comp_def row_entries_keys)
qed

lemma fold_insert_key_distinct:
  "distinct (acc @ ks) \<Longrightarrow> fold insert_key ks acc = acc @ ks"
proof (induction ks arbitrary: acc)
  case Nil
  show ?case by simp
next
  case (Cons k ks)
  from Cons.prems have "distinct ((acc @ [k]) @ ks)" and "k \<notin> set acc"
    by auto
  with Cons.IH [of "acc @ [k]"] show ?case
    by (simp add: insert_key_def)
qed

lemma first_occurrences_distinct: "distinct ks \<Longrightarrow> first_occurrences ks = ks"
  using fold_insert_key_distinct [of "[]" ks] by (simp add: first_occurrences_def)

lemma split_at_first:
  assumes "x \<notin> set xs" and "x \<notin> set xs'" and "xs @ x # ys = xs' @ x # ys'"
  shows "xs = xs' \<and> ys = ys'"
  using assms
proof (induction xs arbitrary: xs')
  case Nil
  then show ?case by (cases xs') auto
next
  case (Cons a xs)
  then show ?case by (cases xs') auto
qed

lemma report_key_inj:
  assumes "CHR ''/'' \<notin> set d1" and "CHR ''/'' \<notin> set d2"
    and "report_key c1 d1 = report_key c2 d2"
  shows "c1 = c2 \<and> d1 = d2"
proof -
  from assms(3) have "c1 @ CHR ''/'' # d1 = c2 @ CHR ''/'' # d2"
    unfolding report_key_def by simp
  then have "rev (c1 @ CHR ''/'' # d1) = rev (c2 @ CHR ''/'' # d2)"
    by (rule arg_cong)
  then have eq: "rev d1 @ CHR ''/'' # rev c1 = rev d2 @ CHR ''/'' # rev c2"
    by (simp only: rev_append rev.simps append_assoc append_Cons append_Nil)
  have n1: "CHR ''/'' \<notin> set (rev d1)" and n2: "CHR ''/'' \<notin> set (rev d2)"
    using assms(1,2) by simp_all
  from n1 n2 eq have "rev d1 = rev d2 \<and> rev c1 = rev c2"
    by (rule split_at_first)
  then show ?thesis
    by (simp only: rev_is_rev_conv)
qed

lemma report_keys_product:
  "report_keys classes difficulty_types
   = map (\<lambda>(c, d). report_key c d) (List.product (classes @ [''mean'']) difficulty_types)"
  by (induction classes) (simp_all add: report_keys_def comp_def)

lemma report_keys_distinct:
  assumes "distinct classes" and "''mean'' \<notin> set classes" and "distinct difficulty_types"
    and "\<forall>d\<in>set difficulty_types. CHR ''/'' \<notin> set d"
  shows "distinct (report_keys classes difficulty_types)"
proof -
  have "distinct (List.product (classes @ [''mean'']) difficulty_types)"
    using assms by (intro distinct_product) simp_all
  moreover have "inj_on (\<lambda>(c, d). report_key c d)
      (set (List.product (classes @ [''mean'']) difficulty_types))"
    using assms(4) by (auto simp: inj_on_def dest: report_key_inj)
  ultimately show ?thesis
    unfolding report_keys_product by (simp add: distinct_map)
qed

lemma difficulty_types_of_cases:
  assumes "difficulty_types_of difficulty_mode = Inr difficulty_types"
  shows "difficulty_types
      = (if difficulty_mode = ''Distance'' then [''0-30m'', ''30-50m'', ''50m-inf'']
         else if difficulty_mode = ''Overall'' then [''overall'']
         else [''overall'', ''0-30m'', ''30-50m'', ''50m-inf''])"
    and "distinct difficulty_types" and "\<forall>d\<in>set difficulty_types. CHR ''/'' \<notin> set d"
proof -
  consider "difficulty_mode = ''Distance''" "difficulty_types = [''0-30m'', ''30-50m'', ''50m-inf'']"
    | "difficulty_mode \<noteq> ''Distance''" "difficulty_mode = ''Overall''"
      "difficulty_types = [''overall'']"
    | "difficulty_mode \<noteq> ''Distance''" "difficulty_mode \<noteq> ''Overall''"
      "difficulty_types = [''overall'', ''0-30m'', ''30-50m'', ''50m-inf'']"
    using assms unfolding difficulty_types_of_def by (metis Inr_inject sum.distinct(1))
  then have "difficulty_types
      = (if difficulty_mode = ''Distance'' then [''0-30m'', ''30-50m'', ''50m-inf'']
         else if difficulty_mode = ''Overall'' then [''overall'']
         else [''overall'', ''0-30m'', ''30-50m'', ''50m-inf''])
      \<and> distinct difficulty_types \<and> (\<forall>d\<in>set difficulty_types. CHR ''/'' \<notin> set d)"
  proof cases
    case 1
    then show ?thesis by simp
  next
    case 2
    then show ?thesis by simp
  next
    case 3
    then show ?thesis by simp
  qed
  then show "difficulty_types
      = (if difficulty_mode = ''Distance'' then [''0-30m'', ''30-50m'', ''50m-inf'']
         else if difficulty_mode = ''Overall'' then [''overall'']
         else [''overall'', ''0-30m'', ''30-50m'', ''50m-inf''])"
    and "distinct difficulty_types" and "\<forall>d\<in>set difficulty_types. CHR ''/'' \<notin> set d"
    by blast+
qed

lemma effective_classes_cases:
  assumes "effective_classes use_superclass classes0 = Inr classes"
  shows "classes
      = (if use_superclass
         then ''Vehicle'' # filter (\<lambda>cls_name. cls_name \<notin> set [''Car'', ''Bus'', ''Truck'']) classes0
         else classes0)"
  using assms by (simp add: effective_classes_def split: if_splits)

text \<open>
  Claim C8. Whenever \<^verbatim>\<open>get_evaluation_results\<close> returns a report, the columns are the
  difficulty types of the mode in their fixed order, and the rows of the text and the
  keys of the dictionary follow the evaluated classes, with the row \<^verbatim>\<open>mAP\<close> and the keys
  \<^verbatim>\<open>AP_mean/...\<close> last: the evaluated classes are the classes of the caller in the
  caller's order when \<^verbatim>\<open>use_superclass\<close> is false, and \<^verbatim>\<open>Vehicle\<close> followed by the
  caller's classes other than Car, Bus and Truck, in the caller's order, when it is
  true. A key that is assigned more than once keeps its first place; when the evaluated
  classes are distinct and none is called \<^verbatim>\<open>mean\<close>, the dictionary is exactly the list
  of the entries of the classes and difficulty types in that order.
\<close>

theorem report_follows_evaluated_classes:
  assumes run: "get_evaluation_results eu inter2d fmt2f gt_annos pred_annos classes0 use_superclass
        iou_thresholds num_pr_points difficulty_mode with_heading num_parts
      = Inr (ret_str, ret_dict)"
  shows "\<exists>classes difficulty_types AP.
      evaluation_AP eu inter2d gt_annos pred_annos classes0 use_superclass iou_thresholds
          num_pr_points difficulty_mode with_heading num_parts
        = Inr (classes, difficulty_types, AP)
    \<and> classes
        = (if use_superclass
           then ''Vehicle'' # filter (\<lambda>cls_name. cls_name \<notin> set [''Car'', ''Bus'', ''Truck'']) classes0
           else classes0)
    \<and> difficulty_types
        = (if difficulty_mode = ''Distance'' then [''0-30m'', ''30-50m'', ''50m-inf'']
           else if difficulty_mode = ''Overall'' then [''overall'']
           else [''overall'', ''0-30m'', ''30-50m'', ''50m-inf''])
    \<and> ret_str = report_text fmt2f num_pr_points difficulty_types classes AP
    \<and> map fst ret_dict = first_occurrences (report_keys classes difficulty_types)
    \<and> (distinct classes \<and> ''mean'' \<notin> set classes
         \<longrightarrow> ret_dict = report_entries classes difficulty_types AP
           \<and> map fst ret_dict = report_keys classes difficulty_types)"
proof -
  from run obtain classes difficulty_types AP
    where ap: "evaluation_AP eu inter2d gt_annos pred_annos classes0 use_superclass iou_thresholds
          num_pr_points difficulty_mode with_heading num_parts
        = Inr (classes, difficulty_types, AP)"
      and rep: "make_report fmt2f num_pr_points difficulty_types classes AP = (ret_str, ret_dict)"
    by (auto simp: get_evaluation_results_def split: sum.splits)
  from evaluation_AP_InrD [OF ap]
  have ec: "effective_classes use_superclass classes0 = Inr classes"
    and dt: "difficulty_types_of difficulty_mode = Inr difficulty_types"
    by blast+
  from rep have str: "ret_str = report_text fmt2f num_pr_points difficulty_types classes AP"
    and dict: "ret_dict = update_all (report_entries classes difficulty_types AP) []"
    by (simp_all add: make_report_closed_form)
  have keys: "map fst ret_dict = first_occurrences (report_keys classes difficulty_types)"
    unfolding dict update_all_keys report_entries_keys by (simp add: first_occurrences_def)
  have full: "ret_dict = report_entries classes difficulty_types AP
      \<and> map fst ret_dict = report_keys classes difficulty_types"
    if "distinct classes" and "''mean'' \<notin> set classes"
  proof -
    have d: "distinct (report_keys classes difficulty_types)"
      using that difficulty_types_of_cases(2,3) [OF dt] by (rule report_keys_distinct)
    then have "distinct (map fst ([] @ report_entries classes difficulty_types AP))"
      by (simp add: report_entries_keys)
    from update_all_distinct [OF this] keys d show ?thesis
      by (simp add: dict first_occurrences_distinct)
  qed
  show ?thesis
  proof (intro exI conjI impI)
    show "evaluation_AP eu inter2d gt_annos pred_annos classes0 use_superclass iou_thresholds
          num_pr_points difficulty_mode with_heading num_parts
        = Inr (classes, difficulty_types, AP)"
      by (rule ap)
    show "classes
        = (if use_superclass
           then ''Vehicle'' # filter (\<lambda>cls_name. cls_name \<notin> set [''Car'', ''Bus'', ''Truck'']) classes0
           else classes0)"
      using ec by (rule effective_classes_cases)
    show "difficulty_types
        = (if difficulty_mode = ''Distance'' then [''0-30m'', ''30-50m'', ''50m-inf'']
           else if difficulty_mode = ''Overall'' then [''overall'']
           else [''overall'', ''0-30m'', ''30-50m'', ''50m-inf''])"
      using dt by (rule difficulty_types_of_cases(1))
    show "ret_str = report_text fmt2f num_pr_points difficulty_types classes AP"
      by (rule str)
    show "map fst ret_dict = first_occurrences (report_keys classes difficulty_types)"
      by (rule keys)
    show "ret_dict = report_entries classes difficulty_types AP"
      if "distinct classes \<and> ''mean'' \<notin> set classes"
      using full that by blast
    show "map fst ret_dict = report_keys classes difficulty_types"
      if "distinct classes \<and> ''mean'' \<notin> set classes"
      using full that by blast
  qed
qed

lemma iou_of_near:
  "compute_iou3d inter_axis [gt_near] [pred_near] [1] with_heading = Inr [iou_near]"
proof -
  have n: "length [pred_near] = length [gt_near]"
    by simp
  have wf: "\<forall>a\<in>set [gt_near] \<union> set [pred_near]. well_formed a"
    by (simp add: well_formed_def gt_near_def pred_near_def)
  have v: "valid_parts (length [gt_near]) [1]"
    by (simp add: valid_parts_def)
  from compute_iou3d_any_parts [OF n wf v, of inter_axis with_heading] show ?thesis
    by (simp add: sample_iou_near)
qed

lemma split_one: "compute_split_parts eu_ex (Suc 0) (Suc 0) = Inr [1]"
  by (simp add: eu_ex_def split_parts_ex_def)

lemma curves_of_two_classes:
  "evaluate_curves eu_ex [gt_near] [pred_near] [iou_near] ''Overall'' 1 False
     (map_of iou_threshold_dict) 2 [''Pedestrian'', ''Cyclist'']
   = Inr [[([Fin 1, Fin 1, Fin 1], [Fin 1, Fin 1, Fin 1])],
          [([Fin 0, Fin 0, Fin 0], [Fin 0, Fin 0, Fin 0])]]"
  by code_simp

lemma curves_of_superclass:
  "evaluate_curves eu_ex [gt_near] [pred_near] [iou_near] ''Overall'' 1 True
     (map_of superclass_iou_threshold_dict) 2 [''Vehicle'', ''Pedestrian'']
   = Inr [[([Fin 0, Fin 0, Fin 0], [Fin 0, Fin 0, Fin 0])],
          [([Fin 1, Fin 1, Fin 1], [Fin 1, Fin 1, Fin 1])]]"
  by code_simp

lemma ap_of_zeros: "ap_of_row 2 [Fin 0, Fin 0, Fin 0] = Fin 0"
  by code_simp

lemma ap_of_two_classes:
  "evaluation_AP eu_ex inter_axis [gt_near] [pred_near] [''Pedestrian'', ''Cyclist''] False None 2
     ''Overall'' True 1
   = Inr ([''Pedestrian'', ''Cyclist''], [''overall''], [[Fin 100], [Fin 0]])"
  by (simp add: evaluation_AP_def effective_classes_def split_one difficulty_types_of_def
      iou_of_near [unfolded One_nat_def] curves_of_two_classes [unfolded One_nat_def]
      ap_of_ones ap_of_zeros)

lemma ap_of_superclass:
  "evaluation_AP eu_ex inter_axis [gt_near] [pred_near] [''Pedestrian'', ''Car'', ''Bus'', ''Truck'']
     True None 2 ''Overall'' True 1
   = Inr ([''Vehicle'', ''Pedestrian''], [''overall''], [[Fin 0], [Fin 100]])"
  by (simp add: evaluation_AP_def effective_classes_def split_one difficulty_types_of_def
      iou_of_near [unfolded One_nat_def] curves_of_superclass [unfolded One_nat_def]
      ap_of_ones ap_of_zeros)

lemma entries_of_two_classes:
  "report_entries [''Pedestrian'', ''Cyclist''] [''overall''] [[Fin 100], [Fin 0]]
   = [(''AP_Pedestrian/overall'', Fin 100), (''AP_Cyclist/overall'', Fin 0),
      (''AP_mean/overall'', Fin 50)]"
  by code_simp

lemma report_of_superclass:
  "make_report (\<lambda>ap_score. []) 2 [''overall''] [''Vehicle'', ''Pedestrian''] [[Fin 0], [Fin 100]]
   = (report_text (\<lambda>ap_score. []) 2 [''overall''] [''Vehicle'', ''Pedestrian''] [[Fin 0], [Fin 100]],
      [(''AP_Vehicle/overall'', Fin 0), (''AP_Pedestrian/overall'', Fin 100),
       (''AP_mean/overall'', Fin 50)])"
  by code_simp

theorem report_follows_evaluated_classes_witness:
  "\<exists>ret_str ret_dict.
     get_evaluation_results eu_ex inter_axis (\<lambda>ap_score. []) [gt_near] [pred_near]
         [''Pedestrian'', ''Cyclist''] False None 2 ''Overall'' True 1
       = Inr (ret_str, ret_dict)
     \<and> ret_str = report_text (\<lambda>ap_score. []) 2 [''overall''] [''Pedestrian'', ''Cyclist'']
                   [[Fin 100], [Fin 0]]
     \<and> ret_dict = [(''AP_Pedestrian/overall'', Fin 100), (''AP_Cyclist/overall'', Fin 0),
                    (''AP_mean/overall'', Fin 50)]
     \<and> map fst ret_dict = report_keys [''Pedestrian'', ''Cyclist''] [''overall'']"
proof -
  define ret_str ret_dict
    where "ret_str = fst (make_report (\<lambda>ap_score. []) 2 [''overall''] [''Pedestrian'', ''Cyclist'']
        [[Fin 100], [Fin 0]])"
      and "ret_dict = snd (make_report (\<lambda>ap_score. []) 2 [''overall''] [''Pedestrian'', ''Cyclist'']
        [[Fin 100], [Fin 0]])"
  have run: "get_evaluation_results eu_ex inter_axis (\<lambda>ap_score. []) [gt_near] [pred_near]
         [''Pedestrian'', ''Cyclist''] False None 2 ''Overall'' True 1
       = Inr (ret_str, ret_dict)"
    unfolding get_evaluation_results_def ap_of_two_classes ret_str_def ret_dict_def by simp
  from report_follows_evaluated_classes [OF run] obtain classes difficulty_types AP
    where ap: "evaluation_AP eu_ex inter_axis [gt_near] [pred_near] [''Pedestrian'', ''Cyclist'']
          False None 2 ''Overall'' True 1 = Inr (classes, difficulty_types, AP)"
      and str: "ret_str = report_text (\<lambda>ap_score. []) 2 difficulty_types classes AP"
      and full: "distinct classes \<and> ''mean'' \<notin> set classes
         \<longrightarrow> ret_dict = report_entries classes difficulty_types AP
           \<and> map fst ret_dict = report_keys classes difficulty_types"
    by blast
  from ap have c: "classes = [''Pedestrian'', ''Cyclist'']"
    and d: "difficulty_types = [''overall'']" and a: "AP = [[Fin 100], [Fin 0]]"
    unfolding ap_of_two_classes by simp_all
  have "distinct classes \<and> ''mean'' \<notin> set classes"
    unfolding c by simp
  with full have dict: "ret_dict = report_entries classes difficulty_types AP"
    and keys: "map fst ret_dict = report_keys classes difficulty_types"
    by blast+
  show ?thesis
  proof (intro exI conjI)
    show "get_evaluation_results eu_ex inter_axis (\<lambda>ap_score. []) [gt_near] [pred_near]
         [''Pedestrian'', ''Cyclist''] False None 2 ''Overall'' True 1
       = Inr (ret_str, ret_dict)"
      by (rule run)
    show "ret_str = report_text (\<lambda>ap_score. []) 2 [''overall''] [''Pedestrian'', ''Cyclist'']
                   [[Fin 100], [Fin 0]]"
      using str unfolding c d a .
    show "ret_dict = [(''AP_Pedestrian/overall'', Fin 100), (''AP_Cyclist/overall'', Fin 0),
                    (''AP_mean/overall'', Fin 50)]"
      using dict unfolding c d a entries_of_two_classes .
    show "map fst ret_dict = report_keys [''Pedestrian'', ''Cyclist''] [''overall'']"
      using keys unfolding c d .
  qed
qed

text \<open>
  With \<^verbatim>\<open>use_superclass\<close>, the caller's classes Pedestrian, Car, Bus, Truck are reported
  as Vehicle, then Pedestrian: the first row and the first key are those of a class
  that the caller listed after Pedestrian.
\<close>

theorem vehicle_row_first_counterexample:
  "get_evaluation_results eu_ex inter_axis (\<lambda>ap_score. []) [gt_near] [pred_near]
       [''Pedestrian'', ''Car'', ''Bus'', ''Truck''] True None 2 ''Overall'' True 1
     = Inr (report_text (\<lambda>ap_score. []) 2 [''overall''] [''Vehicle'', ''Pedestrian'']
              [[Fin 0], [Fin 100]],
            [(''AP_Vehicle/overall'', Fin 0), (''AP_Pedestrian/overall'', Fin 100),
             (''AP_mean/overall'', Fin 50)])
   \<and> [''AP_Vehicle/overall'', ''AP_Pedestrian/overall'', ''AP_mean/overall'']
       \<noteq> report_keys [''Pedestrian'', ''Car'', ''Bus'', ''Truck''] [''overall'']"
proof -
  have "[''AP_Vehicle/overall'', ''AP_Pedestrian/overall'', ''AP_mean/overall'']
       \<noteq> report_keys [''Pedestrian'', ''Car'', ''Bus'', ''Truck''] [''overall'']"
    by (simp add: report_keys_def report_key_def)
  moreover have "get_evaluation_results eu_ex inter_axis (\<lambda>ap_score. []) [gt_near] [pred_near]
       [''Pedestrian'', ''Car'', ''Bus'', ''Truck''] True None 2 ''Overall'' True 1
     = Inr (report_text (\<lambda>ap_score. []) 2 [''overall''] [''Vehicle'', ''Pedestrian'']
              [[Fin 0], [Fin 100]],
            [(''AP_Vehicle/overall'', Fin 0), (''AP_Pedestrian/overall'', Fin 100),
             (''AP_mean/overall'', Fin 50)])"
    unfolding get_evaluation_results_def ap_of_superclass sum.case prod.case report_of_superclass ..
  ultimately show ?thesis
    by (intro conjI)
qed

section \<open>A class and difficulty without accepted ground truth, in the whole evaluation\<close>

lemma evaluate_curves_returns:
  assumes "\<forall>c<length classes. \<forall>d<num_difficulties. \<exists>iou_threshold r.
      iou_thresholds (classes ! c) = Some iou_threshold
      \<and> eval_class_diff eu gt_annos pred_annos ious difficulty_mode d (classes ! c) use_superclass
          iou_threshold num_pr_points = Inr r"
    and "0 < num_difficulties"
  shows "\<exists>curves. evaluate_curves eu gt_annos pred_annos ious difficulty_mode num_difficulties
      use_superclass iou_thresholds num_pr_points classes = Inr curves"
proof -
  have "\<forall>cur_class\<in>set classes. \<exists>y.
      (case iou_thresholds cur_class of
         None \<Rightarrow> Inl KeyError
       | Some iou_threshold \<Rightarrow>
           emap (\<lambda>diff_idx.
                   eval_class_diff eu gt_annos pred_annos ious difficulty_mode diff_idx
                     cur_class use_superclass iou_threshold num_pr_points)
             [0..<num_difficulties]) = Inr y"
  proof
    fix cur_class assume "cur_class \<in> set classes"
    then obtain c where c: "c < length classes" and cc: "classes ! c = cur_class"
      by (auto simp: in_set_conv_nth)
    from assms(1) c assms(2) obtain t where t: "iou_thresholds (classes ! c) = Some t"
      by blast
    have "\<forall>d\<in>set [0..<num_difficulties]. \<exists>y.
        eval_class_diff eu gt_annos pred_annos ious difficulty_mode d cur_class use_superclass
          t num_pr_points = Inr y"
      using assms(1) c t cc by fastforce
    from emap_total [OF this] t cc show "\<exists>y.
      (case iou_thresholds cur_class of
         None \<Rightarrow> Inl KeyError
       | Some iou_threshold \<Rightarrow>
           emap (\<lambda>diff_idx.
                   eval_class_diff eu gt_annos pred_annos ious difficulty_mode diff_idx
                     cur_class use_superclass iou_threshold num_pr_points)
             [0..<num_difficulties]) = Inr y"
      by simp
  qed
  from emap_total [OF this] show ?thesis
    unfolding evaluate_curves_def by blast
qed

lemma report_dict_distinct:
  assumes "distinct classes" and "''mean'' \<notin> set classes"
    and dt: "difficulty_types_of difficulty_mode = Inr difficulty_types"
  shows "snd (make_report fmt2f num_pr_points difficulty_types classes AP)
           = report_entries classes difficulty_types AP"
    and "distinct (map fst (report_entries classes difficulty_types AP))"
proof -
  have d: "distinct (report_keys classes difficulty_types)"
    using assms(1,2) difficulty_types_of_cases(2,3) [OF dt] by (rule report_keys_distinct)
  then show k: "distinct (map fst (report_entries classes difficulty_types AP))"
    by (simp add: report_entries_keys)
  then have "distinct (map fst ([] @ report_entries classes difficulty_types AP))"
    by simp
  from update_all_distinct [OF this]
  show "snd (make_report fmt2f num_pr_points difficulty_types classes AP)
           = report_entries classes difficulty_types AP"
    by (simp add: make_report_closed_form)
qed

lemma report_entry_member:
  assumes "c < length classes" and "d < length difficulty_types"
  shows "(report_key (classes ! c) (difficulty_types ! d), AP ! c ! d)
           \<in> set (report_entries classes difficulty_types AP)"
proof -
  have "(report_key (classes ! c) (difficulty_types ! d), AP ! c ! d)
      \<in> set (row_entries difficulty_types (classes ! c) (\<lambda>diff_idx. AP ! c ! diff_idx))"
    using assms(2) by (simp add: row_entries_def)
  moreover have "c \<in> set [0..<length classes]"
    using assms(1) by simp
  ultimately show ?thesis
    unfolding report_entries_def by (simp only: set_append set_concat set_map) blast
qed

text \<open>
  Claim C9. Let there be at least one sample, \<^verbatim>\<open>num_pr_points\<close> at least 1, annotations
  with one name per box and a \<^verbatim>\<open>compute_split_parts\<close> that returns positive part sizes
  adding up to the number of samples. If, for an evaluated class with an IoU threshold
  and a difficulty, no ground-truth box of any sample is flagged accepted, and the
  bodies of the loops for the other classes and difficulties return, then
  \<^verbatim>\<open>get_evaluation_results\<close> returns its report: no score is accumulated for the class
  and difficulty, \<^verbatim>\<open>get_thresholds\<close> is called on the empty list and returns no
  threshold, and the cell of \<^verbatim>\<open>AP\<close> is 0, as is the entry of the dictionary when the
  classes are distinct and none is called \<^verbatim>\<open>mean\<close>.
\<close>

theorem no_accepted_ground_truth_completes:
  fixes gt_annos pred_annos :: "anno list"
  assumes n: "length pred_annos = length gt_annos" and ne: "gt_annos \<noteq> []"
    and P: "1 \<le> num_pr_points"
    and wf: "\<forall>a\<in>set gt_annos \<union> set pred_annos. well_formed a"
    and sp: "compute_split_parts eu (length gt_annos) num_parts = Inr split_parts"
    and v: "valid_parts (length gt_annos) split_parts"
    and cl: "effective_classes use_superclass classes0 = Inr classes"
    and dt: "difficulty_types_of difficulty_mode = Inr difficulty_types"
    and c: "c < length classes" and d: "d < length difficulty_types"
    and th: "thresholds_of use_superclass iou_thresholds (classes ! c) = Some iou_threshold"
    and flt: "\<forall>k<length gt_annos. \<exists>gt_flag pred_flag.
        filter_data eu (gt_annos ! k) (pred_annos ! k) difficulty_mode d (classes ! c)
          use_superclass = Inr (gt_flag, pred_flag) \<and> 0 \<notin> set gt_flag"
    and others: "\<forall>c'<length classes. \<forall>d'<length difficulty_types. (c', d') \<noteq> (c, d) \<longrightarrow>
        (\<exists>t r. thresholds_of use_superclass iou_thresholds (classes ! c') = Some t
           \<and> eval_class_diff eu gt_annos pred_annos
                 (map (\<lambda>(g, p). sample_iou inter2d with_heading g p) (zip gt_annos pred_annos))
                 difficulty_mode d' (classes ! c') use_superclass t num_pr_points = Inr r)"
  shows "\<exists>AP.
      get_evaluation_results eu inter2d fmt2f gt_annos pred_annos classes0 use_superclass
          iou_thresholds num_pr_points difficulty_mode with_heading num_parts
        = Inr (make_report fmt2f num_pr_points difficulty_types classes AP)
    \<and> evaluation_AP eu inter2d gt_annos pred_annos classes0 use_superclass iou_thresholds
          num_pr_points difficulty_mode with_heading num_parts
        = Inr (classes, difficulty_types, AP)
    \<and> AP ! c ! d = Fin 0
    \<and> (\<exists>flags. class_diff_thresholds eu gt_annos pred_annos
              (map (\<lambda>(g, p). sample_iou inter2d with_heading g p) (zip gt_annos pred_annos))
              difficulty_mode d (classes ! c) use_superclass iou_threshold num_pr_points
            = Inr (flags, [])
          \<and> length flags = length gt_annos
          \<and> (\<forall>k<length gt_annos. snd (snd (flags ! k)) = []))
    \<and> get_thresholds [] 0 num_pr_points = Inr []
    \<and> (distinct classes \<and> ''mean'' \<notin> set classes
         \<longrightarrow> map_of (snd (make_report fmt2f num_pr_points difficulty_types classes AP))
               (report_key (classes ! c) (difficulty_types ! d)) = Some (Fin 0))"
proof -
  let ?ious = "map (\<lambda>(g, p). sample_iou inter2d with_heading g p) (zip gt_annos pred_annos)"
  let ?thr = "thresholds_of use_superclass iou_thresholds"
  have len: "length ?ious = length gt_annos"
    using n by simp
  have shp: "\<forall>k<length gt_annos. shape0 (?ious ! k) = length (anno_name (gt_annos ! k))"
  proof (intro allI impI)
    fix k assume k: "k < length gt_annos"
    then have "well_formed (gt_annos ! k)" using wf by simp
    then show "shape0 (?ious ! k) = length (anno_name (gt_annos ! k))"
      using k n by (simp add: shape0_sample_iou well_formed_def)
  qed
  note body = none_accepted_body [OF ne len shp flt P, of iou_threshold]
  have io: "compute_iou3d inter2d gt_annos pred_annos split_parts with_heading = Inr ?ious"
    using compute_iou3d_any_parts [OF n wf v] ne by simp
  have all: "\<forall>c'<length classes. \<forall>d'<length difficulty_types. \<exists>t r.
      ?thr (classes ! c') = Some t
      \<and> eval_class_diff eu gt_annos pred_annos ?ious difficulty_mode d' (classes ! c')
          use_superclass t num_pr_points = Inr r"
  proof (intro allI impI)
    fix c' d' assume c': "c' < length classes" and d': "d' < length difficulty_types"
    show "\<exists>t r. ?thr (classes ! c') = Some t
      \<and> eval_class_diff eu gt_annos pred_annos ?ious difficulty_mode d' (classes ! c')
          use_superclass t num_pr_points = Inr r"
    proof (cases "(c', d') = (c, d)")
      case True
      then show ?thesis
        using th body by auto
    next
      case False
      with others c' d' show ?thesis
        by blast
    qed
  qed
  have pos: "0 < length difficulty_types"
    using d by (cases difficulty_types) simp_all
  from evaluate_curves_returns [OF all pos] obtain curves
    where cv: "evaluate_curves eu gt_annos pred_annos ?ious difficulty_mode
        (length difficulty_types) use_superclass ?thr num_pr_points classes = Inr curves"
    by blast
  define AP where "AP = map (map (\<lambda>(precision, recall). ap_of_row num_pr_points precision)) curves"
  have mode: "difficulty_mode \<in> set [''Overall&Distance'', ''Overall'', ''Distance'']"
    using dt by (auto simp: difficulty_types_of_def split: if_splits)
  have run: "evaluation_AP eu inter2d gt_annos pred_annos classes0 use_superclass iou_thresholds
          num_pr_points difficulty_mode with_heading num_parts
        = Inr (classes, difficulty_types, AP)"
    unfolding evaluation_AP_def Let_def thresholds_of_def [symmetric] cl sp io dt sum.case cv AP_def
    using n mode P by simp
  have parts: "\<exists>split_parts. compute_split_parts eu (length gt_annos) num_parts = Inr split_parts
        \<and> valid_parts (length gt_annos) split_parts"
    using sp v by blast
  have zero: "AP ! c ! d = Fin 0"
    by (rule evaluation_AP_zero_entry [OF run wf parts c d flt])
  have res: "get_evaluation_results eu inter2d fmt2f gt_annos pred_annos classes0 use_superclass
          iou_thresholds num_pr_points difficulty_mode with_heading num_parts
        = Inr (make_report fmt2f num_pr_points difficulty_types classes AP)"
    unfolding get_evaluation_results_def run by simp
  have dict: "map_of (snd (make_report fmt2f num_pr_points difficulty_types classes AP))
               (report_key (classes ! c) (difficulty_types ! d)) = Some (Fin 0)"
    if "distinct classes \<and> ''mean'' \<notin> set classes"
  proof -
    from that have a: "distinct classes" and b: "''mean'' \<notin> set classes"
      by simp_all
    have "(report_key (classes ! c) (difficulty_types ! d), Fin 0)
        \<in> set (report_entries classes difficulty_types AP)"
      using report_entry_member [OF c d, of AP] zero by simp
    with report_dict_distinct(2) [OF a b dt, of AP] show ?thesis
      unfolding report_dict_distinct(1) [OF a b dt] by (intro map_of_is_SomeI)
  qed
  from body have b1: "\<exists>flags. class_diff_thresholds eu gt_annos pred_annos ?ious
              difficulty_mode d (classes ! c) use_superclass iou_threshold num_pr_points
            = Inr (flags, [])
          \<and> length flags = length gt_annos
          \<and> (\<forall>k<length gt_annos. snd (snd (flags ! k)) = [])"
    and b2: "get_thresholds [] 0 num_pr_points = Inr []"
    by blast+
  show ?thesis
  proof (intro exI [of _ AP] conjI impI)
    show "get_evaluation_results eu inter2d fmt2f gt_annos pred_annos classes0 use_superclass
          iou_thresholds num_pr_points difficulty_mode with_heading num_parts
        = Inr (make_report fmt2f num_pr_points difficulty_types classes AP)"
      by (rule res)
    show "evaluation_AP eu inter2d gt_annos pred_annos classes0 use_superclass iou_thresholds
          num_pr_points difficulty_mode with_heading num_parts
        = Inr (classes, difficulty_types, AP)"
      by (rule run)
    show "AP ! c ! d = Fin 0"
      by (rule zero)
    show "\<exists>flags. class_diff_thresholds eu gt_annos pred_annos ?ious
              difficulty_mode d (classes ! c) use_superclass iou_threshold num_pr_points
            = Inr (flags, [])
          \<and> length flags = length gt_annos
          \<and> (\<forall>k<length gt_annos. snd (snd (flags ! k)) = [])"
      by (rule b1)
    show "get_thresholds [] 0 num_pr_points = Inr []"
      by (rule b2)
    show "map_of (snd (make_report fmt2f num_pr_points difficulty_types classes AP))
               (report_key (classes ! c) (difficulty_types ! d)) = Some (Fin 0)"
      if "distinct classes \<and> ''mean'' \<notin> set classes"
      using that by (rule dict)
  qed
qed

lemma cyclist_flags:
  "filter_data eu_ex gt_near pred_near ''Overall'' 0 ''Cyclist'' False = Inr ([- 1], [- 1])"
  by code_simp

lemma pedestrian_body:
  "eval_class_diff eu_ex [gt_near] [pred_near] [iou_near] ''Overall'' 0 ''Pedestrian'' False
     (3 / 10) 2 = Inr ([Fin 1, Fin 1, Fin 1], [Fin 1, Fin 1, Fin 1])"
  by code_simp

lemma curves_without_points:
  "evaluate_curves eu_ex [gt_near] [pred_near] [iou_near] ''Overall'' 1 False
     (map_of iou_threshold_dict) 0 [''Cyclist'']
   = Inr [[([Fin 0], [Fin 0])]]"
  by code_simp

theorem no_accepted_ground_truth_completes_witness:
  "\<exists>AP. get_evaluation_results eu_ex inter_axis (\<lambda>ap_score. []) [gt_near] [pred_near]
           [''Pedestrian'', ''Cyclist''] False None 2 ''Overall'' True 1
         = Inr (make_report (\<lambda>ap_score. []) 2 [''overall''] [''Pedestrian'', ''Cyclist''] AP)
     \<and> AP ! 1 ! 0 = Fin 0
     \<and> map_of (snd (make_report (\<lambda>ap_score. []) 2 [''overall''] [''Pedestrian'', ''Cyclist''] AP))
          ''AP_Cyclist/overall'' = Some (Fin 0)"
proof -
  let ?g = "[gt_near]" and ?p = "[pred_near]"
  let ?classes = "[''Pedestrian'', ''Cyclist'']"
  have n: "length ?p = length ?g" and ne: "?g \<noteq> []" and P: "1 \<le> (2::nat)"
    by simp_all
  have wf: "\<forall>a\<in>set ?g \<union> set ?p. well_formed a"
    by (simp add: well_formed_def gt_near_def pred_near_def)
  have sp: "compute_split_parts eu_ex (length ?g) 1 = Inr [1]"
    by (simp add: eu_ex_def split_parts_ex_def)
  have v: "valid_parts (length ?g) [1]"
    by (simp add: valid_parts_def)
  have cl: "effective_classes False ?classes = Inr ?classes"
    by (simp add: effective_classes_def)
  have dt: "difficulty_types_of ''Overall'' = Inr [''overall'']"
    by (simp add: difficulty_types_of_def)
  have c: "1 < length ?classes" and d: "0 < length [''overall'']"
    by simp_all
  have th: "thresholds_of False None (?classes ! 1) = Some (5 / 10)"
    by (simp add: thresholds_of_def iou_threshold_dict_def)
  have flt: "\<forall>k<length ?g. \<exists>gt_flag pred_flag.
        filter_data eu_ex (?g ! k) (?p ! k) ''Overall'' 0 (?classes ! 1) False
          = Inr (gt_flag, pred_flag) \<and> 0 \<notin> set gt_flag"
    by (simp add: cyclist_flags)
  have others: "\<forall>c'<length ?classes. \<forall>d'<length [''overall'']. (c', d') \<noteq> (1, 0) \<longrightarrow>
        (\<exists>t r. thresholds_of False None (?classes ! c') = Some t
           \<and> eval_class_diff eu_ex ?g ?p
                 (map (\<lambda>(g, p). sample_iou inter_axis True g p) (zip ?g ?p))
                 ''Overall'' d' (?classes ! c') False t 2 = Inr r)"
  proof (intro allI impI)
    fix c' d' :: nat
    assume "c' < length ?classes" and "d' < length [''overall'']" and "(c', d') \<noteq> (1, 0)"
    then have "c' = 0" and "d' = 0"
      by auto
    moreover have "thresholds_of False None (?classes ! 0) = Some (3 / 10)"
      by (simp add: thresholds_of_def iou_threshold_dict_def)
    moreover have "eval_class_diff eu_ex ?g ?p
                 (map (\<lambda>(g, p). sample_iou inter_axis True g p) (zip ?g ?p))
                 ''Overall'' 0 (?classes ! 0) False (3 / 10) 2
               = Inr ([Fin 1, Fin 1, Fin 1], [Fin 1, Fin 1, Fin 1])"
      by (simp add: sample_iou_near pedestrian_body)
    ultimately show "\<exists>t r. thresholds_of False None (?classes ! c') = Some t
           \<and> eval_class_diff eu_ex ?g ?p
                 (map (\<lambda>(g, p). sample_iou inter_axis True g p) (zip ?g ?p))
                 ''Overall'' d' (?classes ! c') False t 2 = Inr r"
      by blast
  qed
  from no_accepted_ground_truth_completes [OF n ne P wf sp v cl dt c d th flt others,
      of "\<lambda>ap_score. []"]
  obtain AP where
    "get_evaluation_results eu_ex inter_axis (\<lambda>ap_score. []) ?g ?p ?classes False None 2
        ''Overall'' True 1
      = Inr (make_report (\<lambda>ap_score. []) 2 [''overall''] ?classes AP)"
    and "AP ! 1 ! 0 = Fin 0"
    and "distinct ?classes \<and> ''mean'' \<notin> set ?classes
         \<longrightarrow> map_of (snd (make_report (\<lambda>ap_score. []) 2 [''overall''] ?classes AP))
               (report_key (?classes ! 1) ([''overall''] ! 0)) = Some (Fin 0)"
    by blast
  moreover have "distinct ?classes \<and> ''mean'' \<notin> set ?classes"
    by simp
  moreover have "report_key (?classes ! 1) ([''overall''] ! 0) = ''AP_Cyclist/overall''"
    by (simp add: report_key_def)
  ultimately show ?thesis
    by (intro exI [of _ AP]) simp
qed

text \<open>
  Without these conditions the call does not complete, although no ground-truth box is
  accepted: with \<^verbatim>\<open>num_pr_points = 0\<close> the division \<^verbatim>\<open>AP / num_pr_points\<close> raises
  ZeroDivisionError, and with no sample \<^verbatim>\<open>np.stack\<close> raises ValueError.
\<close>

theorem no_points_or_no_sample_counterexample:
  "filter_data eu_ex gt_near pred_near ''Overall'' 0 ''Cyclist'' False = Inr ([- 1], [- 1])
   \<and> get_evaluation_results eu_ex inter_axis (\<lambda>ap_score. []) [gt_near] [pred_near] [''Cyclist'']
         False None 0 ''Overall'' True 1
       = Inl ZeroDivisionError
   \<and> get_evaluation_results eu_ex inter_axis (\<lambda>ap_score. []) [] [] [''Cyclist''] False None 2
         ''Overall'' True 1
       = Inl ValueError"
proof (intro conjI)
  show "filter_data eu_ex gt_near pred_near ''Overall'' 0 ''Cyclist'' False = Inr ([- 1], [- 1])"
    by (rule cyclist_flags)
  show "get_evaluation_results eu_ex inter_axis (\<lambda>ap_score. []) [gt_near] [pred_near] [''Cyclist'']
         False None 0 ''Overall'' True 1
       = Inl ZeroDivisionError"
    by (simp add: get_evaluation_results_def evaluation_AP_def effective_classes_def split_one
        difficulty_types_of_def iou_of_near [unfolded One_nat_def]
        curves_without_points [unfolded One_nat_def])
  show "get_evaluation_results eu_ex inter_axis (\<lambda>ap_score. []) [] [] [''Cyclist''] False None 2
         ''Overall'' True 1
       = Inl ValueError"
    by (simp add: get_evaluation_results_def evaluation_AP_def effective_classes_def
        eu_ex_def split_parts_ex_def compute_iou3d_def)
qed

end
